(* ===== verification/Prelude.thy ===== *)
theory Prelude
  imports Main "HOL-Library.Word" "HOL-Library.List_Lexorder" "HOL-Library.Char_ord"
begin

text \<open>
  Shared ground of the development: Go strings as byte lists, Go slicing with its panics, the
  machine-integer types, decimal printing, and the generic list lemmas that the component
  theories rely on. The collection \<open>go_defs\<close> gathers the definitions of the Go primitives,
  so that \<open>simp add: go_defs\<close> evaluates them.

  A Go \<open>string\<close> is a sequence of bytes; the model's \<open>string\<close> is a list of 8-bit characters,
  so \<open>length\<close> is Go's \<open>len\<close>. Go's \<open>int\<close> is taken at its 64-bit width where the source
  converts to it from a narrower type, which makes the conversions exact; it is modelled by
  \<open>int\<close> there.
\<close>

named_theorems go_defs \<open>definitions of the Go primitives the source uses\<close>

type_synonym int32 = "32 word"
type_synonym int64 = "64 word"
type_synonym uint64 = "64 word"

section \<open>Bytes and slices\<close>

definition byte_of :: "char \<Rightarrow> nat" where
  "byte_of c = of_char c"

definition byte_char :: "nat \<Rightarrow> char" where
  "byte_char n = char_of n"

text \<open>The Go slice \<open>s[i:j]\<close>: \<open>None\<close> is the run-time panic for bounds out of range.\<close>

definition go_slice :: "string \<Rightarrow> int \<Rightarrow> int \<Rightarrow> string option" where
  [go_defs]: "go_slice s i j =
     (if 0 \<le> i \<and> i \<le> j \<and> j \<le> int (length s)
      then Some (take (nat j - nat i) (drop (nat i) s)) else None)"

text \<open>\<open>strings.IndexByte\<close>: the first position of a byte, or -1.\<close>

fun index_byte :: "string \<Rightarrow> char \<Rightarrow> int" where
  "index_byte [] c = -1"
| "index_byte (x # xs) c =
     (if x = c then 0 else (let k = index_byte xs c in if k < 0 then -1 else k + 1))"

text \<open>\<open>strings.TrimLeft\<close>, \<open>TrimRight\<close>, \<open>Trim\<close> for a cutset of ASCII bytes.\<close>

definition trim_left :: "char list \<Rightarrow> string \<Rightarrow> string" where
  [go_defs]: "trim_left cs s = dropWhile (\<lambda>c. c \<in> set cs) s"

definition trim_right :: "char list \<Rightarrow> string \<Rightarrow> string" where
  [go_defs]: "trim_right cs s = rev (dropWhile (\<lambda>c. c \<in> set cs) (rev s))"

definition trim_both :: "char list \<Rightarrow> string \<Rightarrow> string" where
  [go_defs]: "trim_both cs s = trim_right cs (trim_left cs s)"

text \<open>\<open>strings.Join\<close>.\<close>

fun join_with :: "string \<Rightarrow> string list \<Rightarrow> string" where
  "join_with sep [] = []"
| "join_with sep [x] = x"
| "join_with sep (x # y # ys) = x @ sep @ join_with sep (y # ys)"

section \<open>Decimal printing\<close>

fun digit_char :: "nat \<Rightarrow> char" where
  "digit_char n = ''0123456789'' ! (n mod 10)"

fun show_nat :: "nat \<Rightarrow> string" where
  "show_nat n = (if n < 10 then [digit_char n] else show_nat (n div 10) @ [digit_char n])"

declare show_nat.simps [simp del]

definition show_int :: "int \<Rightarrow> string" where
  [go_defs]: "show_int i = (if i < 0 then CHR ''-'' # show_nat (nat (- i)) else show_nat (nat i))"

section \<open>Lemmas on bytes\<close>

lemma byte_of_less [simp]: "byte_of c < 256"
  by (simp add: byte_of_def)

lemma byte_char_byte_of [simp]: "byte_char (byte_of c) = c"
  by (simp add: byte_char_def byte_of_def)

lemma byte_of_byte_char [simp]: "byte_of (byte_char n) = n mod 256"
  by (simp add: byte_char_def byte_of_def)

lemma byte_of_eq_iff [simp]: "byte_of c = byte_of d \<longleftrightarrow> c = d"
  by (metis byte_char_byte_of)

lemma byte_char_mod [simp]: "byte_char (n mod 256) = byte_char n"
  by (metis byte_char_byte_of byte_of_byte_char)

lemma byte_of_less_iff: "byte_of c < byte_of d \<longleftrightarrow> c < d"
  by (simp add: byte_of_def less_char_def)

lemma byte_of_eqD: "byte_of c = n \<Longrightarrow> c = byte_char n"
  by auto

lemma byte_of_digit_char: "byte_of (digit_char n) = 48 + n mod 10"
proof -
  have "list_all (\<lambda>k. byte_of (''0123456789'' ! k) = 48 + k) [0..<10]" by code_simp
  moreover have "n mod 10 \<in> set [0..<10]" by simp
  ultimately show ?thesis by (simp add: list_all_iff del: set_upt)
qed

section \<open>Lemmas on lists\<close>

lemma index_byte_ge: "-1 \<le> index_byte s c"
  by (induction s) (auto simp: Let_def)

lemma index_byte_less: "index_byte s c < int (length s)"
  by (induction s) (auto simp: Let_def)

lemma index_byte_notin: "c \<notin> set s \<Longrightarrow> index_byte s c = -1"
  by (induction s) (auto simp: Let_def)

lemma index_byte_append: "c \<notin> set s \<Longrightarrow> index_byte (s @ c # t) c = int (length s)"
  by (induction s) (auto simp: Let_def)

lemma index_byte_append_in: "c \<in> set s \<Longrightarrow> index_byte (s @ t) c = index_byte s c"
  by (induction s) (auto simp: Let_def)

lemma list_less_append_same: "length a = length b \<Longrightarrow>
    (a @ c < b @ d) \<longleftrightarrow> (a < b \<or> a = b \<and> c < d)"
  for a b c d :: "'a :: order list"
  by (induction a b rule: list_induct2) auto

lemma list_le_append_same: "length a = length b \<Longrightarrow>
    (a @ c \<le> b @ d) \<longleftrightarrow> (a < b \<or> a = b \<and> c \<le> d)"
  for a b c d :: "'a :: order list"
  by (induction a b rule: list_induct2) (auto simp: order_le_less)

lemma distinct_map_filter_fst: "distinct (map f xs) \<Longrightarrow> distinct (map f (filter P xs))"
  by (induction xs) auto

lemma sint_of_int64: "- (2 ^ 63) \<le> k \<Longrightarrow> k < 2 ^ 63 \<Longrightarrow> sint (word_of_int k :: int64) = k"
  by (simp add: sint_sbintrunc' signed_take_bit_int_eq_self)

section \<open>Lists with a key\<close>

lemma filter_key_unique:
  "distinct (map f xs) \<Longrightarrow> x \<in> set xs \<Longrightarrow> filter (\<lambda>y. f y = f x) xs = [x]"
proof (induction xs)
  case (Cons a xs)
  show ?case
  proof (cases "a = x")
    case True
    with Cons.prems have "\<forall>y \<in> set xs. f y \<noteq> f x" by (metis distinct.simps(2) image_eqI image_set list.simps(9))
    then have "filter (\<lambda>y. f y = f x) xs = []" by (simp add: filter_empty_conv)
    with True show ?thesis by simp
  next
    case False
    with Cons show ?thesis by auto
  qed
qed simp

lemma filter_key_none: "k \<notin> f ` set xs \<Longrightarrow> filter (\<lambda>y. f y = k) xs = []"
  by (auto simp: filter_empty_conv)

lemma distinct_map_eqD:
  "distinct (map f xs) \<Longrightarrow> x \<in> set xs \<Longrightarrow> y \<in> set xs \<Longrightarrow> f x = f y \<Longrightarrow> x = y"
  by (auto simp: distinct_map inj_on_def)

lemma concat_pages: "concat (map (\<lambda>k. take l (drop (k * l) xs)) [0..<n]) = take (n * l) xs"
proof (induction n)
  case (Suc n)
  then show ?case by (simp add: take_add add.commute [of l])
qed simp

section \<open>Codecs\<close>

text \<open>
  The contract of a text column: what the code writes with \<open>enc\<close>, it reads back with \<open>dec\<close>, for
  the values \<open>valid\<close> names. It is interpreted on the JSON array columns and on the command types.
\<close>

locale codec =
  fixes valid :: "'a \<Rightarrow> bool"
    and enc :: "'a \<Rightarrow> string"
    and dec :: "string \<Rightarrow> 'a option"
  assumes dec_enc: "valid x \<Longrightarrow> dec (enc x) = Some x"
begin

lemma enc_inj: "valid x \<Longrightarrow> valid y \<Longrightarrow> enc x = enc y \<Longrightarrow> x = y"
  by (metis dec_enc option.inject)

lemma dec_column: "\<forall>x \<in> set xs. valid x \<Longrightarrow> map dec (map enc xs) = map Some xs"
  by (simp add: dec_enc)

end

end
