(* ===== verification/Sql.thy ===== *)
theory Sql
  imports Prelude "HOL-Library.Multiset"
begin

text \<open>
  What the store's SQL statements use of the SQL engine. The engine is not part of the
  repository, so what the statements leave to it is a parameter: \<open>eng_order\<close> is the order in
  which it returns rows for \<open>ORDER BY ... DESC\<close> (given the keys, the row positions, with ties
  left to the engine; since SQL leaves them to every execution, a statement about several queries takes an
  engine for each call), \<open>eng_scan\<close> the order of a query without \<open>ORDER BY\<close> (given the number of
  rows), \<open>eng_bind\<close> what it does with the arguments of a statement with a given number of
  placeholders (bind them or refuse), \<open>eng_int_of_text\<close> which texts it takes for an integer, and
  \<open>eng_unique\<close> its message for a violated \<open>UNIQUE\<close> column. The locale \<open>desc_sorter\<close> states the documented behaviour of the ordering; every lemma about an
  ordered query is proved inside it. The reference engine \<open>stable_desc\<close> shows that the
  contract can be met.
\<close>

datatype sql_value = SInt int | SText string

record sql_engine =
  eng_order :: "string list \<Rightarrow> nat list"
  eng_scan :: "nat \<Rightarrow> nat list"
  eng_bind :: "nat \<Rightarrow> sql_value list \<Rightarrow> string + sql_value list"
  eng_int_of_text :: "string \<Rightarrow> string + int"
  eng_unique :: "string \<Rightarrow> string"

definition order_desc :: "(string list \<Rightarrow> nat list) \<Rightarrow> ('r \<Rightarrow> string) \<Rightarrow> 'r list \<Rightarrow> 'r list" where
  "order_desc ord key rows = map (\<lambda>i. rows ! i) (ord (map key rows))"

text \<open>A text column compared with an argument: an integer is compared by its text.\<close>

definition text_eq :: "sql_value \<Rightarrow> string \<Rightarrow> bool" where
  "text_eq v s = (case v of SText t \<Rightarrow> s = t | SInt n \<Rightarrow> s = show_int n)"

definition scan_rows :: "(nat \<Rightarrow> nat list) \<Rightarrow> 'r list \<Rightarrow> 'r list" where
  "scan_rows sc rows = map (\<lambda>i. rows ! i) (sc (length rows))"

text \<open>\<open>LIMIT l\<close> and \<open>OFFSET k\<close>: a negative limit is no limit.\<close>

definition sql_limit :: "int \<Rightarrow> 'r list \<Rightarrow> 'r list" where
  "sql_limit l rows = (if l < 0 then rows else take (nat l) rows)"

definition sql_offset :: "int \<Rightarrow> 'r list \<Rightarrow> 'r list" where
  "sql_offset k rows = drop (nat k) rows"

text \<open>The integer value of an argument used as a limit.\<close>

definition limit_value :: "sql_engine \<Rightarrow> sql_value \<Rightarrow> string + int" where
  "limit_value e v = (case v of SInt n \<Rightarrow> Inr n | SText s \<Rightarrow> eng_int_of_text e s)"

text \<open>
  \<open>ROW_NUMBER() OVER (PARTITION BY p ORDER BY k DESC)\<close> kept at 1: for each value of the
  partition key, the row the engine puts first.
\<close>

definition first_per_partition ::
  "(string list \<Rightarrow> nat list) \<Rightarrow> ('r \<Rightarrow> string) \<Rightarrow> ('r \<Rightarrow> string) \<Rightarrow> 'r list \<Rightarrow> 'r list" where
  "first_per_partition ord part key rows =
     map (\<lambda>p. hd (order_desc ord key (filter (\<lambda>r. part r = p) rows))) (remdups (map part rows))"

section \<open>The contract of the ordering\<close>

locale desc_sorter =
  fixes ord :: "string list \<Rightarrow> nat list"
  assumes ord_perm: "mset (ord ks) = mset [0..<length ks]"
    and ord_sorted: "sorted_wrt (\<lambda>i j. ks ! j \<le> ks ! i) (ord ks)"
begin

lemma mset_order: "mset (order_desc ord key rows) = mset rows"
proof -
  have "mset (order_desc ord key rows) = image_mset (\<lambda>i. rows ! i) (mset (ord (map key rows)))"
    by (simp add: order_desc_def)
  also have "\<dots> = mset (map (\<lambda>i. rows ! i) [0..<length rows])"
    using ord_perm [of "map key rows"] by simp
  finally show ?thesis by (simp add: map_nth)
qed

lemma set_order [simp]: "set (order_desc ord key rows) = set rows"
  using mset_order by (metis set_mset_mset)

lemma length_order [simp]: "length (order_desc ord key rows) = length rows"
  using mset_order by (metis size_mset)

lemma order_empty [simp]: "order_desc ord key rows = [] \<longleftrightarrow> rows = []"
  using length_order by (metis length_0_conv)

lemma order_nil [simp]: "order_desc ord key [] = []"
  by simp

lemma sorted_order: "sorted_wrt (\<lambda>r s. key s \<le> key r) (order_desc ord key rows)"
proof -
  let ?ks = "map key rows"
  have idx: "i < length rows" if "i \<in> set (ord ?ks)" for i
    using that ord_perm [of ?ks] by (metis atLeastLessThan_iff length_map set_mset_mset set_upt)
  have "sorted_wrt (\<lambda>i j. key (rows ! j) \<le> key (rows ! i)) (ord ?ks)"
    by (rule sorted_wrt_mono_rel [OF _ ord_sorted [of ?ks]]) (simp add: idx)
  then show ?thesis by (simp add: order_desc_def sorted_wrt_map)
qed

lemma sorted_keys:
  "sorted (map key (rev (order_desc ord key rows)))"
  using sorted_order [of key rows] by (simp add: sorted_wrt_map sorted_wrt_rev)

lemma hd_order:
  assumes "rows \<noteq> []"
  shows "hd (order_desc ord key rows) \<in> set rows"
    and "r \<in> set rows \<Longrightarrow> key r \<le> key (hd (order_desc ord key rows))"
proof -
  let ?o = "order_desc ord key rows"
  have ne: "?o \<noteq> []" using assms by simp
  then show "hd ?o \<in> set rows" using hd_in_set [OF ne] by simp
  assume "r \<in> set rows"
  then have "r = hd ?o \<or> r \<in> set (tl ?o)" using ne by (metis list.collapse set_ConsD set_order)
  then show "key r \<le> key (hd ?o)"
    using sorted_order [of key rows] ne by (cases ?o) auto
qed

lemma distinct_order:
  assumes "distinct (map f rows)"
  shows "distinct (map f (order_desc ord key rows))"
proof -
  have "mset (map f rows) = mset (map f (order_desc ord key rows))"
    using mset_order [of key rows] by simp
  then show ?thesis using assms mset_eq_imp_distinct_iff by blast
qed

lemma set_partition:
  assumes "r \<in> set (first_per_partition ord part key rows)"
  shows "r \<in> set rows" and "s \<in> set rows \<Longrightarrow> part s = part r \<Longrightarrow> key s \<le> key r"
proof -
  from assms obtain p where p: "p \<in> part ` set rows"
    and r: "r = hd (order_desc ord key (filter (\<lambda>r. part r = p) rows))"
    by (auto simp: first_per_partition_def)
  have ne: "filter (\<lambda>r. part r = p) rows \<noteq> []" using p by (auto simp: filter_empty_conv)
  from hd_order(1) [OF ne, of key] have m: "r \<in> set rows" "part r = p" by (auto simp: r)
  then show "r \<in> set rows" by simp
  assume "s \<in> set rows" "part s = part r"
  with m hd_order(2) [OF ne, of s key] show "key s \<le> key r" by (simp add: r)
qed

lemma partition_keys:
  "map part (first_per_partition ord part key rows) = remdups (map part rows)"
proof -
  have "part (hd (order_desc ord key (filter (\<lambda>r. part r = p) rows))) = p"
    if "p \<in> part ` set rows" for p
  proof -
    from that have ne: "filter (\<lambda>r. part r = p) rows \<noteq> []" by (auto simp: filter_empty_conv)
    from hd_order(1) [OF ne, of key] show ?thesis by simp
  qed
  then show ?thesis by (auto simp: first_per_partition_def intro: map_idI)
qed

end

text \<open>Only ties are left to the engine: rows with distinct keys have one order.\<close>

lemma order_desc_unique:
  assumes "desc_sorter a" "desc_sorter b" "distinct (map key rows)"
  shows "order_desc a key rows = order_desc b key rows"
proof -
  let ?a = "rev (order_desc a key rows)" and ?b = "rev (order_desc b key rows)"
  have s: "set ?a = set rows" "set ?b = set rows"
    using assms(1,2) by (simp_all add: desc_sorter.set_order)
  have "map key ?a = map key ?b"
  proof (rule sorted_distinct_set_unique)
    show "sorted (map key ?a)" "sorted (map key ?b)"
      using assms(1,2) by (simp_all only: desc_sorter.sorted_keys)
    show "distinct (map key ?a)" "distinct (map key ?b)"
      using desc_sorter.distinct_order [OF assms(1,3), of key] desc_sorter.distinct_order [OF assms(2,3), of key]
      by (simp_all add: rev_map [symmetric])
    show "set (map key ?a) = set (map key ?b)" using s by (simp only: set_map)
  qed
  moreover have "inj_on key (set ?a \<union> set ?b)" using assms(3) s by (simp add: distinct_map)
  ultimately have "?a = ?b" using inj_on_map_eq_map by blast
  then show ?thesis by simp
qed

lemma first_per_partition_unique:
  assumes "desc_sorter a" "desc_sorter b" "distinct (map key rows)"
  shows "first_per_partition a part key rows = first_per_partition b part key rows"
  using order_desc_unique [OF assms(1,2) distinct_map_filter [OF assms(3)]]
  by (simp add: first_per_partition_def)

lemma partition_distinct:
  assumes "desc_sorter ord" "distinct (map key rows)"
  shows "distinct (map key (first_per_partition ord part key rows))"
proof -
  have p: "map part (first_per_partition ord part key rows) = remdups (map part rows)"
    by (rule desc_sorter.partition_keys [OF assms(1)])
  have "distinct (first_per_partition ord part key rows)"
    using p distinct_map [of part "first_per_partition ord part key rows"] by simp
  moreover have "set (first_per_partition ord part key rows) \<subseteq> set rows"
    by (auto dest: desc_sorter.set_partition(1) [OF assms(1)])
  ultimately show ?thesis
    using assms(2) by (auto simp: distinct_map intro: inj_on_subset)
qed

locale row_scanner =
  fixes sc :: "nat \<Rightarrow> nat list"
  assumes scan_perm: "mset (sc n) = mset [0..<n]"
begin

lemma mset_scan: "mset (scan_rows sc rows) = mset rows"
proof -
  have "mset (scan_rows sc rows) = image_mset (\<lambda>i. rows ! i) (mset (sc (length rows)))"
    by (simp add: scan_rows_def)
  also have "\<dots> = mset (map (\<lambda>i. rows ! i) [0..<length rows])"
    using scan_perm [of "length rows"] by simp
  finally show ?thesis by (simp add: map_nth)
qed

lemma set_scan [simp]: "set (scan_rows sc rows) = set rows"
  using mset_scan by (metis set_mset_mset)

lemma length_scan [simp]: "length (scan_rows sc rows) = length rows"
  using mset_scan by (metis size_mset)

lemma scan_empty [simp]: "scan_rows sc [] = []"
  using length_scan [of "[]"] by (metis length_0_conv)

lemma scan_single [simp]: "scan_rows sc [r] = [r]"
proof -
  have "length (scan_rows sc [r]) = 1" "set (scan_rows sc [r]) = {r}" by simp_all
  then show ?thesis by (cases "scan_rows sc [r]") auto
qed

end

section \<open>A reference engine\<close>

fun insert_desc :: "string list \<Rightarrow> nat \<Rightarrow> nat list \<Rightarrow> nat list" where
  "insert_desc ks i [] = [i]"
| "insert_desc ks i (j # js) =
     (if ks ! i \<le> ks ! j then j # insert_desc ks i js else i # j # js)"

definition stable_desc :: "string list \<Rightarrow> nat list" where
  "stable_desc ks = fold (insert_desc ks) [0..<length ks] []"

text \<open>The same with ties in the reverse order.\<close>

definition reverse_desc :: "string list \<Rightarrow> nat list" where
  "reverse_desc ks = fold (insert_desc ks) (rev [0..<length ks]) []"

definition reference_engine :: sql_engine where
  "reference_engine = \<lparr>eng_order = stable_desc, eng_scan = (\<lambda>n. [0..<n]),
     eng_bind = (\<lambda>n vs. if length vs < n then Inl ''missing argument'' else Inr (take n vs)),
     eng_int_of_text = (\<lambda>s. Inl ''datatype mismatch''),
     eng_unique = (\<lambda>col. ''UNIQUE constraint failed: '' @ col)\<rparr>"

lemma mset_insert_desc: "mset (insert_desc ks i js) = add_mset i (mset js)"
  by (induction js) auto

lemma set_insert_desc: "set (insert_desc ks i js) = insert i (set js)"
  by (induction js) auto

lemma sorted_insert_desc:
  "sorted_wrt (\<lambda>i j. ks ! j \<le> ks ! i) js \<Longrightarrow>
   sorted_wrt (\<lambda>i j. ks ! j \<le> ks ! i) (insert_desc ks i js)"
  by (induction js) (auto simp: set_insert_desc)

lemma fold_insert_desc:
  "mset (fold (insert_desc ks) is js) = mset is + mset js"
  "sorted_wrt (\<lambda>i j. ks ! j \<le> ks ! i) js \<Longrightarrow>
   sorted_wrt (\<lambda>i j. ks ! j \<le> ks ! i) (fold (insert_desc ks) is js)"
  by (induction "is" arbitrary: js) (auto simp: mset_insert_desc sorted_insert_desc)

interpretation reference: desc_sorter stable_desc
  by unfold_locales (simp_all add: stable_desc_def fold_insert_desc)

interpretation reversed: desc_sorter reverse_desc
  by unfold_locales (simp_all add: reverse_desc_def fold_insert_desc)

interpretation reference: row_scanner "\<lambda>n. [0..<n]"
  by unfold_locales simp

lemma reference_engine_simps [simp]:
  "eng_order reference_engine = stable_desc"
  "eng_scan reference_engine = (\<lambda>n. [0..<n])"
  by (simp_all add: reference_engine_def)

end
