(* ===== verification/Proto.thy ===== *)
theory Proto
  imports Prelude
begin

text \<open>
  The messages of the protocol as the server and the client handle them: the Go structs of
  \<open>internal/proto/teamx.pb.go\<close> as records, their one-of fields as datatypes, and the two name
  tables of the open enumeration \<open>CommandType\<close>, an \<open>int32\<close>. A field that holds a pointer to
  another message is an option, a protobuf map an association list in the order a loop over the
  Go map visits it. The bookkeeping fields of the generated code (\<open>state\<close>, \<open>unknownFields\<close>,
  \<open>sizeCache\<close>) have no effect on the program and are left out; a \<open>float32\<close> is kept as its bits.
\<close>

section \<open>Command types\<close>

type_synonym command_type = int32

definition ct_unspecified :: command_type where "ct_unspecified = 0"
definition ct_collect_now :: command_type where "ct_collect_now = 1"
definition ct_run_script :: command_type where "ct_run_script = 2"
definition ct_restart :: command_type where "ct_restart = 6"
definition ct_shutdown :: command_type where "ct_shutdown = 7"

definition CommandType_name :: "(command_type \<times> string) list" where
  "CommandType_name =
     [(0, ''COMMAND_TYPE_UNSPECIFIED''), (1, ''COMMAND_TYPE_COLLECT_NOW''),
      (2, ''COMMAND_TYPE_RUN_SCRIPT''), (3, ''COMMAND_TYPE_KILL_PROCESS''),
      (4, ''COMMAND_TYPE_UPDATE_CONFIG''), (5, ''COMMAND_TYPE_UPGRADE''),
      (6, ''COMMAND_TYPE_RESTART''), (7, ''COMMAND_TYPE_SHUTDOWN'')]"

definition CommandType_value :: "(string \<times> command_type) list" where
  "CommandType_value =
     [(''COMMAND_TYPE_UNSPECIFIED'', 0), (''COMMAND_TYPE_COLLECT_NOW'', 1),
      (''COMMAND_TYPE_RUN_SCRIPT'', 2), (''COMMAND_TYPE_KILL_PROCESS'', 3),
      (''COMMAND_TYPE_UPDATE_CONFIG'', 4), (''COMMAND_TYPE_UPGRADE'', 5),
      (''COMMAND_TYPE_RESTART'', 6), (''COMMAND_TYPE_SHUTDOWN'', 7)]"

text \<open>\<open>CommandType.String\<close>: the name, or the number of a value that has none.\<close>

definition type_string :: "command_type \<Rightarrow> string" where
  "type_string t = (case map_of CommandType_name t of None \<Rightarrow> show_int (sint t) | Some n \<Rightarrow> n)"

lemmas ct_defs = ct_unspecified_def ct_collect_now_def ct_run_script_def ct_restart_def
  ct_shutdown_def

section \<open>Handshake\<close>

record handshake_request =
  hs_hostname :: string
  hs_os :: string
  hs_os_version :: string
  hs_kernel_version :: string
  hs_client_version :: string
  hs_mac_addrs :: "string list"
  hs_ip_addrs :: "string list"
  hs_device_id :: string

record handshake_response =
  hr_ok :: bool
  hr_session_id :: string
  hr_server_time :: string
  hr_message :: string

section \<open>Hardware reports\<close>

record cpu_info =
  cpu_model :: string
  cpu_cores :: int32
  cpu_threads :: int32
  cpu_arch :: string

record memory_info =
  mem_total :: uint64
  mem_avail :: uint64
  mem_used :: uint64

record disk_info =
  dk_device :: string
  dk_mount_point :: string
  dk_fs_type :: string
  dk_total :: uint64
  dk_used :: uint64
  dk_free :: uint64

record net_info =
  nt_name :: string
  nt_mac_addr :: string
  nt_ip_addrs :: "string list"
  nt_is_loopback :: bool

record bios_info =
  bi_vendor :: string
  bi_version :: string
  bi_release_date :: string

record motherboard_info =
  mb_manufacturer :: string
  mb_product :: string
  mb_serial :: string

record hardware_info =
  hw_cpu :: "cpu_info option"
  hw_memory :: "memory_info option"
  hw_disks :: "disk_info list"
  hw_nets :: "net_info list"
  hw_bios :: "bios_info option"
  hw_motherboard :: "motherboard_info option"

text \<open>The generated getters return a field's zero value on a nil receiver.\<close>

definition get_model :: "cpu_info option \<Rightarrow> string" where
  "get_model x = (case x of None \<Rightarrow> '''' | Some c \<Rightarrow> cpu_model c)"

definition get_cores :: "cpu_info option \<Rightarrow> int32" where
  "get_cores x = (case x of None \<Rightarrow> 0 | Some c \<Rightarrow> cpu_cores c)"

definition get_threads :: "cpu_info option \<Rightarrow> int32" where
  "get_threads x = (case x of None \<Rightarrow> 0 | Some c \<Rightarrow> cpu_threads c)"

definition get_architecture :: "cpu_info option \<Rightarrow> string" where
  "get_architecture x = (case x of None \<Rightarrow> '''' | Some c \<Rightarrow> cpu_arch c)"

definition get_total_bytes :: "memory_info option \<Rightarrow> uint64" where
  "get_total_bytes x = (case x of None \<Rightarrow> 0 | Some m \<Rightarrow> mem_total m)"

definition get_available_bytes :: "memory_info option \<Rightarrow> uint64" where
  "get_available_bytes x = (case x of None \<Rightarrow> 0 | Some m \<Rightarrow> mem_avail m)"

definition get_used_bytes :: "memory_info option \<Rightarrow> uint64" where
  "get_used_bytes x = (case x of None \<Rightarrow> 0 | Some m \<Rightarrow> mem_used m)"

lemmas getter_defs = get_model_def get_cores_def get_threads_def get_architecture_def
  get_total_bytes_def get_available_bytes_def get_used_bytes_def

section \<open>The report kinds of later phases\<close>

record software_item =
  sw_name :: string
  sw_version :: string
  sw_publisher :: string
  sw_install_date :: string

record software_info =
  si_items :: "software_item list"
  si_total_count :: int32

record user_account =
  ua_username :: string
  ua_uid :: string
  ua_group :: string
  ua_home_dir :: string
  ua_shell :: string
  ua_is_admin :: bool
  ua_is_disabled :: bool

record user_info =
  ui_users :: "user_account list"
  ui_current_logins :: "string list"

record process_item =
  pi_pid :: int32
  pi_ppid :: int32
  pi_name :: string
  pi_user :: string
  pi_cpu_percent :: "32 word"
  pi_mem_bytes :: uint64
  pi_status :: string
  pi_cmdline :: string

record process_info =
  ps_items :: "process_item list"
  ps_total_count :: int32

record usb_device =
  ub_name :: string
  ub_vendor_id :: string
  ub_product_id :: string
  ub_serial :: string

record printer =
  pr_name :: string
  pr_driver :: string
  pr_port :: string
  pr_is_default :: bool

record peripheral_info =
  ph_usb_devices :: "usb_device list"
  ph_printers :: "printer list"

datatype report_type =
    RT_Hardware "hardware_info option"
  | RT_Software "software_info option"
  | RT_User "user_info option"
  | RT_Process "process_info option"
  | RT_Peripheral "peripheral_info option"
  | RT_Unset

record report_request =
  rr_report_id :: string
  rr_type :: report_type

section \<open>Commands\<close>

record command =
  cd_id :: string
  cd_type :: command_type
  cd_params :: "(string \<times> string) list"
  cd_timeout_sec :: int64
  cd_created_at_unix :: int64

record command_result =
  cr_id :: string
  cr_status :: string
  cr_exit_code :: int32
  cr_stdout :: string
  cr_stderr :: string
  cr_started_at_unix :: int64
  cr_finished_at_unix :: int64
  cr_error_message :: string

record send_command_request =
  sc_device_id :: string
  sc_type :: command_type
  sc_params :: "(string \<times> string) list"
  sc_timeout_sec :: int64

record send_command_response =
  sr_ok :: bool
  sr_command_id :: string
  sr_message :: string

record get_command_log_request =
  gl_device_id :: string
  gl_session_id :: string
  gl_limit :: int32

record command_log_entry =
  ce_id :: string
  ce_session_id :: string
  ce_device_id :: string
  ce_type :: command_type
  ce_params :: "(string \<times> string) list"
  ce_status :: string
  ce_exit_code :: int32
  ce_stdout :: string
  ce_stderr :: string
  ce_error_message :: string
  ce_created_at :: string
  ce_started_at :: string
  ce_finished_at :: string

section \<open>The stream's frames\<close>

record heartbeat =
  hb_timestamp_unix :: int64
  hb_cpu_percent :: "32 word"
  hb_mem_percent :: "32 word"
  hb_goroutines :: int32

record heartbeat_ack =
  ha_server_time_unix :: int64

datatype client_payload =
    CP_Heartbeat heartbeat
  | CP_ReportRequest report_request
  | CP_CommandResult command_result
  | CP_Unset

record client_message =
  cm_seq :: uint64
  cm_payload :: client_payload

datatype server_payload =
    SP_HeartbeatAck heartbeat_ack
  | SP_Command command
  | SP_Unset

record server_message =
  sm_seq :: uint64
  sm_payload :: server_payload

section \<open>Queries and administration\<close>

record list_terminals_request =
  lt_online_filter :: "bool option"
  lt_page_size :: int32
  lt_page :: int32

record terminal_summary =
  ts_session_id :: string
  ts_hostname :: string
  ts_os :: string
  ts_os_version :: string
  ts_client_version :: string
  ts_online :: bool
  ts_last_heartbeat :: string
  ts_last_seen_at :: string
  ts_device_id :: string
  ts_blocked :: bool

record list_terminals_response =
  lr_terminals :: "terminal_summary list"
  lr_total_count :: int32

record get_terminal_request =
  gt_session_id :: string
  gt_device_id :: string

record get_terminal_response =
  gr_summary :: terminal_summary
  gr_latest_hardware :: "hardware_info option"

record get_terminal_history_request =
  gh_device_id :: string
  gh_since :: string
  gh_until :: string
  gh_limit :: int32

record hardware_snapshot =
  sn_report_id :: string
  sn_created_at :: string
  sn_info :: hardware_info

record get_terminal_history_response =
  gy_device_id :: string
  gy_snapshots :: "hardware_snapshot list"

text \<open>The responses of the three administration calls have the same two fields.\<close>

record admin_response =
  ar_ok :: bool
  ar_message :: string

section \<open>RPC status\<close>

datatype grpc_code =
    ResourceExhausted | NotFound | Internal | InvalidArgument | Unauthenticated
  | PermissionDenied | Unimplemented

record grpc_status =
  st_code :: grpc_code
  st_message :: string

end
