(* ===== verification/Schema.thy ===== *)
theory Schema
  imports Sql Proto
begin

text \<open>
  The database of \<open>store/schema.go\<close>: one record per table row, a table as the list of its rows in
  rowid order, and the state \<open>db\<close> with the engine's parameters. \<open>INTEGER\<close> columns hold the values
  at the width at which the code writes and scans them, nullable columns are options. The five
  tables that no statement of the code reads or writes are left out.

  \<open>db_verdicts\<close> is what the engine decides, one verdict per statement: the statement works, it
  fails with a message, or (for a query) its row iteration stops early with a message. An empty
  list is an engine that does not fail. Every statement of the store goes through \<open>sql_exec\<close> or
  \<open>sql_query\<close>, so every error branch of the code is a branch of the model.
\<close>

record terminal_row =
  t_session :: string
  t_device :: string
  t_hostname :: string
  t_os :: string
  t_os_version :: string
  t_kernel :: string
  t_client :: string
  t_macs :: string
  t_ips :: string
  t_first_seen :: string
  t_last_seen :: string
  t_last_heartbeat :: "string option"
  t_online :: bool
  t_blocked :: bool

record report_row =
  r_report :: string
  r_device :: string
  r_session :: string
  r_created :: string
  r_cpu_model :: string
  r_cpu_cores :: int32
  r_cpu_threads :: int32
  r_cpu_arch :: string
  r_mem_total :: int64
  r_mem_avail :: int64
  r_mem_used :: int64

record disk_row =
  d_report :: string
  d_device :: string
  d_mount :: string
  d_fs :: string
  d_total :: int64
  d_used :: int64
  d_free :: int64

record net_row =
  n_report :: string
  n_name :: string
  n_mac :: string
  n_ips :: string
  n_loopback :: bool

record bios_row =
  b_report :: string
  b_vendor :: string
  b_version :: string
  b_release :: string

record board_row =
  m_report :: string
  m_manufacturer :: string
  m_product :: string
  m_serial :: string

record command_row =
  c_command :: string
  c_session :: string
  c_type :: string
  c_params :: string
  c_status :: string
  c_exit :: "int32 option"
  c_stdout :: string
  c_stderr :: string
  c_error :: string
  c_created :: string
  c_started :: "string option"
  c_finished :: "string option"

datatype verdict = Works | Fails string | StopsAfter nat string

record db =
  terminals :: "terminal_row list"
  reports :: "report_row list"
  disks :: "disk_row list"
  nets :: "net_row list"
  bioses :: "bios_row list"
  boards :: "board_row list"
  commands :: "command_row list"
  db_engine :: sql_engine
  db_verdicts :: "verdict list"

definition empty_db :: "sql_engine \<Rightarrow> verdict list \<Rightarrow> db" where
  "empty_db e vs = \<lparr>terminals = [], reports = [], disks = [], nets = [], bioses = [], boards = [],
     commands = [], db_engine = e, db_verdicts = vs\<rparr>"

text \<open>
  The errors the store returns: \<open>sql.ErrNoRows\<close> as such, everything else as the text the code
  builds with \<open>fmt.Errorf\<close>.
\<close>

datatype store_error = ErrNoRows | StoreErr string

section \<open>Statements\<close>

definition next_verdict :: "db \<Rightarrow> verdict \<times> db" where
  "next_verdict d = (case db_verdicts d of
      [] \<Rightarrow> (Works, d)
    | v # vs \<Rightarrow> (v, d\<lparr>db_verdicts := vs\<rparr>))"

text \<open>
  A statement that writes, or that reads a single row: it runs \<open>body\<close> unless the engine fails.
  \<open>body\<close> itself may refuse (a constraint).
\<close>

definition sql_exec :: "(db \<Rightarrow> string + ('a \<times> db)) \<Rightarrow> db \<Rightarrow> (string + 'a) \<times> db" where
  "sql_exec body d = (case next_verdict d of
      (Works, d1) \<Rightarrow> (case body d1 of Inl e \<Rightarrow> (Inl e, d1) | Inr (a, d2) \<Rightarrow> (Inr a, d2))
    | (Fails e, d1) \<Rightarrow> (Inl e, d1)
    | (StopsAfter n e, d1) \<Rightarrow> (Inl e, d1))"

text \<open>A query over many rows: the rows that \<open>rows.Next\<close> delivered and what \<open>rows.Err\<close> says.\<close>

definition sql_query ::
  "(db \<Rightarrow> string + 'r list) \<Rightarrow> db \<Rightarrow> (string + ('r list \<times> string option)) \<times> db" where
  "sql_query body d = (case next_verdict d of
      (Works, d1) \<Rightarrow> (case body d1 of Inl e \<Rightarrow> (Inl e, d1) | Inr rs \<Rightarrow> (Inr (rs, None), d1))
    | (Fails e, d1) \<Rightarrow> (Inl e, d1)
    | (StopsAfter n e, d1) \<Rightarrow>
        (case body d1 of Inl e' \<Rightarrow> (Inl e', d1) | Inr rs \<Rightarrow> (Inr (take n rs, Some e), d1)))"

definition wrap_err :: "string \<Rightarrow> string \<Rightarrow> store_error" where
  "wrap_err ctx e = StoreErr (''store: '' @ ctx @ '': '' @ e)"

text \<open>\<open>if err != nil { return fmt.Errorf(...) }\<close> for a statement whose result is not used.\<close>

definition exec_op :: "string \<Rightarrow> (db \<Rightarrow> db) \<Rightarrow> db \<Rightarrow> (store_error + unit) \<times> db" where
  "exec_op ctx upd d = (case sql_exec (\<lambda>d. Inr ((), upd d)) d of
      (Inl e, d') \<Rightarrow> (Inl (wrap_err ctx e), d')
    | (Inr _, d') \<Rightarrow> (Inr (), d'))"

section \<open>Table shape\<close>

text \<open>
  The schema's keys (\<open>PRIMARY KEY\<close>, \<open>UNIQUE\<close>) and the references that the code keeps although the
  engine does not enforce them: every sub-row of a report has its report.
\<close>

definition keys_ok :: "db \<Rightarrow> bool" where
  "keys_ok d \<longleftrightarrow> distinct (map t_session (terminals d)) \<and> distinct (map r_report (reports d)) \<and>
     distinct (map b_report (bioses d)) \<and> distinct (map m_report (boards d)) \<and>
     distinct (map c_command (commands d))"

definition refs_ok :: "db \<Rightarrow> bool" where
  "refs_ok d \<longleftrightarrow> (let ids = r_report ` set (reports d) in
     d_report ` set (disks d) \<subseteq> ids \<and> n_report ` set (nets d) \<subseteq> ids \<and>
     b_report ` set (bioses d) \<subseteq> ids \<and> m_report ` set (boards d) \<subseteq> ids)"

definition db_wf :: "db \<Rightarrow> bool" where
  "db_wf d \<longleftrightarrow> keys_ok d \<and> refs_ok d"

lemma db_wf_empty: "db_wf (empty_db e vs)"
  by (simp add: db_wf_def keys_ok_def refs_ok_def empty_db_def)

section \<open>Lemmas on statements\<close>

lemma next_verdict_no_faults [simp]: "db_verdicts d = [] \<Longrightarrow> next_verdict d = (Works, d)"
  by (simp add: next_verdict_def)

lemma sql_exec_works [simp]:
  "db_verdicts d = [] \<Longrightarrow>
   sql_exec body d = (case body d of Inl e \<Rightarrow> (Inl e, d) | Inr (a, d2) \<Rightarrow> (Inr a, d2))"
  by (simp add: sql_exec_def)

lemma sql_query_works [simp]:
  "db_verdicts d = [] \<Longrightarrow>
   sql_query body d = (case body d of Inl e \<Rightarrow> (Inl e, d) | Inr rs \<Rightarrow> (Inr (rs, None), d))"
  by (simp add: sql_query_def)

lemma exec_op_works [simp]: "db_verdicts d = [] \<Longrightarrow> exec_op ctx upd d = (Inr (), upd d)"
  by (simp add: exec_op_def)

text \<open>Apart from the verdicts, a failed statement changes nothing.\<close>

definition same_tables :: "db \<Rightarrow> db \<Rightarrow> bool" where
  "same_tables d d' \<longleftrightarrow> d'\<lparr>db_verdicts := []\<rparr> = d\<lparr>db_verdicts := []\<rparr>"

lemma same_tables_refl [simp]: "same_tables d d"
  by (simp add: same_tables_def)

lemma same_tables_verdicts [simp]: "same_tables d (d\<lparr>db_verdicts := vs\<rparr>)"
  by (simp add: same_tables_def)

lemma same_tables_trans: "same_tables a b \<Longrightarrow> same_tables b c \<Longrightarrow> same_tables a c"
  by (simp add: same_tables_def)

lemma same_tablesD:
  assumes "same_tables d d'"
  shows "terminals d' = terminals d" "reports d' = reports d" "disks d' = disks d"
    "nets d' = nets d" "bioses d' = bioses d" "boards d' = boards d" "commands d' = commands d"
    "db_engine d' = db_engine d"
  using assms by (cases d; cases d'; simp add: same_tables_def)+

lemma same_tables_wf: "same_tables d d' \<Longrightarrow> db_wf d' = db_wf d"
  by (simp add: db_wf_def keys_ok_def refs_ok_def same_tablesD)

lemma next_verdict_same: "next_verdict d = (v, d') \<Longrightarrow> same_tables d d'"
  by (auto simp: next_verdict_def split: list.splits)

lemma sql_exec_cases:
  assumes "sql_exec body d = (r, d')"
  obtains d1 where "same_tables d d1" "\<exists>e. r = Inl e" "d' = d1"
  | d1 a where "same_tables d d1" "body d1 = Inr (a, d')" "r = Inr a"
proof -
  obtain v d1 where v: "next_verdict d = (v, d1)" by (cases "next_verdict d")
  note same = next_verdict_same [OF v]
  show thesis
  proof (cases "v = Works \<and> (\<exists>p. body d1 = Inr p)")
    case True
    then show thesis using assms v that(2) [OF same] by (auto simp: sql_exec_def)
  next
    case False
    then show thesis using assms v that(1) [OF same]
      by (cases v; cases "body d1") (auto simp: sql_exec_def)
  qed
qed

lemma sql_exec_inl:
  "sql_exec body d = (Inl e, d') \<Longrightarrow> same_tables d d'"
  by (auto elim: sql_exec_cases)

lemma sql_query_same: "sql_query body d = (r, d') \<Longrightarrow> same_tables d d'"
  by (auto simp: sql_query_def next_verdict_same split: prod.splits verdict.splits sum.splits)

lemma exec_op_cases:
  assumes "exec_op ctx upd d = (r, d')"
  obtains d1 e where "same_tables d d1" "r = Inl (wrap_err ctx e)" "d' = d1"
  | d1 where "same_tables d d1" "r = Inr ()" "d' = upd d1"
  using assms
  by (auto simp: exec_op_def elim!: sql_exec_cases split: prod.splits sum.splits)

end
