(* ===== verification/Utf8.thy ===== *)
theory Utf8
  imports Prelude
begin

text \<open>
  Go's view of a string as a sequence of runes: what \<open>for _, ch := range s\<close> yields
  (\<open>runes\<close>, with U+FFFD for each byte that starts no valid encoding) and what
  \<open>strings.Builder.WriteRune\<close> appends (\<open>encode_rune\<close>). Both are the standard library's
  documented behaviour; the JSON helpers of the store iterate and write runes, and the
  difference between runes and bytes decides what they do to text outside ASCII.
\<close>

definition rune_error :: nat where
  [go_defs]: "rune_error = 65533"

definition byte_in :: "nat \<Rightarrow> nat \<Rightarrow> char \<Rightarrow> bool" where
  "byte_in lo hi c \<longleftrightarrow> lo \<le> byte_of c \<and> byte_of c \<le> hi"

fun decode2 :: "nat \<Rightarrow> string \<Rightarrow> nat \<times> nat" where
  "decode2 b0 (c1 # cs) =
     (if byte_in 128 191 c1 then ((b0 mod 32) * 64 + byte_of c1 mod 64, 2) else (rune_error, 1))"
| "decode2 b0 [] = (rune_error, 1)"

fun decode3 :: "nat \<Rightarrow> string \<Rightarrow> nat \<times> nat" where
  "decode3 b0 (c1 # c2 # cs) =
     (if byte_in (if b0 = 224 then 160 else 128) (if b0 = 237 then 159 else 191) c1
         \<and> byte_in 128 191 c2
      then (((b0 mod 16) * 64 + byte_of c1 mod 64) * 64 + byte_of c2 mod 64, 3)
      else (rune_error, 1))"
| "decode3 b0 cs = (rune_error, 1)"

fun decode4 :: "nat \<Rightarrow> string \<Rightarrow> nat \<times> nat" where
  "decode4 b0 (c1 # c2 # c3 # cs) =
     (if byte_in (if b0 = 240 then 144 else 128) (if b0 = 244 then 143 else 191) c1
         \<and> byte_in 128 191 c2 \<and> byte_in 128 191 c3
      then ((((b0 mod 8) * 64 + byte_of c1 mod 64) * 64 + byte_of c2 mod 64) * 64
              + byte_of c3 mod 64, 4)
      else (rune_error, 1))"
| "decode4 b0 cs = (rune_error, 1)"

text \<open>The rune at the head of a non-empty string and the number of bytes it takes.\<close>

definition decode_rune :: "char \<Rightarrow> string \<Rightarrow> nat \<times> nat" where
  "decode_rune c cs =
     (let b0 = byte_of c in
      if b0 < 128 then (b0, 1)
      else if b0 < 194 \<or> 244 < b0 then (rune_error, 1)
      else if b0 < 224 then decode2 b0 cs
      else if b0 < 240 then decode3 b0 cs
      else decode4 b0 cs)"

function runes :: "string \<Rightarrow> nat list" where
  "runes [] = []"
| "runes (c # cs) =
     fst (decode_rune c cs) # runes (drop (snd (decode_rune c cs) - 1) cs)"
  by pat_completeness auto
termination
  by (relation "measure length") auto

fun encode_rune :: "nat \<Rightarrow> string" where
  "encode_rune r =
     (if r < 128 then [byte_char r]
      else if r < 2048 then [byte_char (192 + r div 64), byte_char (128 + r mod 64)]
      else if 1114111 < r \<or> 55296 \<le> r \<and> r \<le> 57343 then
        [byte_char 239, byte_char 191, byte_char 189]
      else if r < 65536 then
        [byte_char (224 + r div 4096), byte_char (128 + r div 64 mod 64),
         byte_char (128 + r mod 64)]
      else
        [byte_char (240 + r div 262144), byte_char (128 + r div 4096 mod 64),
         byte_char (128 + r div 64 mod 64), byte_char (128 + r mod 64)])"

declare encode_rune.simps [simp del]

text \<open>Valid UTF-8: no byte of the string decodes to the error rune of width 1.\<close>

function valid_utf8 :: "string \<Rightarrow> bool" where
  "valid_utf8 [] = True"
| "valid_utf8 (c # cs) =
     (decode_rune c cs \<noteq> (rune_error, 1) \<and> valid_utf8 (drop (snd (decode_rune c cs) - 1) cs))"
  by pat_completeness auto
termination
  by (relation "measure length") auto

definition ascii :: "string \<Rightarrow> bool" where
  "ascii s \<longleftrightarrow> list_all (\<lambda>c. byte_of c < 128) s"

section \<open>Decoding and encoding agree on valid text\<close>

lemma mod_base:
  fixes x b k m :: nat
  assumes "k * m \<le> x" "x < k * m + m"
  shows "k * m + x mod m = x"
proof -
  from assms have "x div m = k" by (intro div_nat_eqI) (auto simp: mult.commute)
  then show ?thesis by (metis div_mult_mod_eq)
qed

lemma byte_in_cont: "byte_in lo hi c \<Longrightarrow> 128 \<le> lo \<Longrightarrow> hi \<le> 191 \<Longrightarrow>
    byte_char (128 + byte_of c mod 64) = c"
  using mod_base [of 2 64 "byte_of c"] by (simp add: byte_in_def)

lemma split_base:
  fixes q s m r :: nat
  assumes "r = q * m + s" "s < m"
  shows "r div m = q" "r mod m = s"
  using assms by auto

lemma decode2_encode:
  assumes "decode2 (byte_of c) cs = (r, w)" "(r, w) \<noteq> (rune_error, 1)"
    and "194 \<le> byte_of c" "byte_of c < 224"
  shows "encode_rune r @ drop (w - 1) cs = c # cs"
proof -
  from assms(1,2) obtain c1 ds where cs: "cs = c1 # ds" and b: "byte_in 128 191 c1"
    and r: "r = (byte_of c mod 32) * 64 + byte_of c1 mod 64" and w: "w = 2"
    by (cases cs) (auto split: if_splits)
  have m: "192 + byte_of c mod 32 = byte_of c"
    using mod_base [of 6 32 "byte_of c"] assms(3,4) by simp
  have d: "r div 64 = byte_of c mod 32" "r mod 64 = byte_of c1 mod 64"
    by (rule split_base [OF r], simp)+
  have lo: "128 \<le> r" using m assms(3) r by linarith
  have hi: "r < 2048"
    using r mod_less_divisor [of 32 "byte_of c"] mod_less_divisor [of 64 "byte_of c1"] by linarith
  from lo hi d byte_in_cont [OF b] m show ?thesis
    by (simp add: encode_rune.simps cs w)
qed

lemma digits3:
  fixes a x y r :: nat
  assumes "r = (a * 64 + x) * 64 + y" "x < 64" "y < 64"
  shows "r div 4096 = a" "r div 64 mod 64 = x" "r mod 64 = y"
proof -
  have d: "r div 64 = a * 64 + x" "r mod 64 = y" by (rule split_base [OF assms(1,3)])+
  have e: "(a * 64 + x) div 64 = a" "(a * 64 + x) mod 64 = x"
    by (rule split_base [OF refl assms(2)])+
  show "r div 4096 = a" using d(1) e(1) div_mult2_eq [of r 64 64] by simp
  show "r div 64 mod 64 = x" "r mod 64 = y" using d e by simp_all
qed

lemma digits4:
  fixes a x y z r :: nat
  assumes r: "r = ((a * 64 + x) * 64 + y) * 64 + z" and "x < 64" "y < 64" "z < 64"
  shows "r div 262144 = a" "r div 4096 mod 64 = x" "r div 64 mod 64 = y" "r mod 64 = z"
proof -
  have d: "r div 64 = (a * 64 + x) * 64 + y" "r mod 64 = z"
    by (rule split_base [OF r assms(4)])+
  note e = digits3 [OF d(1) assms(2,3)]
  show "r div 262144 = a" using e(1) div_mult2_eq [of r 64 4096] by simp
  show "r div 4096 mod 64 = x" using e(2) div_mult2_eq [of r 64 64] by simp
  show "r div 64 mod 64 = y" "r mod 64 = z" using e(3) d by simp_all
qed

lemma decode3_encode:
  assumes "decode3 (byte_of c) cs = (r, w)" "(r, w) \<noteq> (rune_error, 1)"
    and "224 \<le> byte_of c" "byte_of c < 240"
  shows "encode_rune r @ drop (w - 1) cs = c # cs"
proof -
  define b where "b = byte_of c"
  let ?lo = "if b = 224 then 160 else 128 :: nat" and ?hi = "if b = 237 then 159 else 191 :: nat"
  from assms(1,2) obtain c1 c2 ds where cs: "cs = c1 # c2 # ds"
    and b1: "byte_in ?lo ?hi c1" and b2: "byte_in 128 191 c2"
    and r0: "r = ((b mod 16) * 64 + byte_of c1 mod 64) * 64 + byte_of c2 mod 64" and w: "w = 3"
    unfolding b_def by (cases "(byte_of c, cs)" rule: decode3.cases) (auto split: if_splits)
  define a x y where "a = b mod 16" and "x = byte_of c1 mod 64" and "y = byte_of c2 mod 64"
  have r: "r = (a * 64 + x) * 64 + y" using r0 by (simp add: a_def x_def y_def)
  have bnd: "a < 16" "x < 64" "y < 64" by (simp_all add: a_def x_def y_def)
  have m: "224 + a = b" using mod_base [of 14 16 b] assms(3,4) by (simp add: a_def b_def)
  have c1: "128 + x = byte_of c1"
    using mod_base [of 2 64 "byte_of c1"] b1 by (auto simp: byte_in_def x_def split: if_splits)
  have lo: "2048 \<le> r"
    using r m b1 c1 by (cases "b = 224") (auto simp: byte_in_def)
  have hi: "r < 65536" using r bnd by simp
  have surr: "\<not> (55296 \<le> r \<and> r \<le> 57343)"
  proof (cases "b = 237")
    case True
    then have "x < 32" "a = 13" using b1 c1 m by (simp_all add: byte_in_def)
    then show ?thesis using r bnd by simp
  next
    case False
    then have "a < 13 \<or> 13 < a" using m by linarith
    then show ?thesis using r bnd by auto
  qed
  have "byte_char (128 + x) = c1" "byte_char (128 + y) = c2" "byte_char (224 + a) = c"
    using c1 byte_in_cont [OF b2] m by (simp_all add: y_def b_def)
  with lo hi surr digits3 [OF r bnd(2,3)] show ?thesis
    by (auto simp: encode_rune.simps cs w)
qed

lemma decode4_encode:
  assumes "decode4 (byte_of c) cs = (r, w)" "(r, w) \<noteq> (rune_error, 1)"
    and "240 \<le> byte_of c" "byte_of c \<le> 244"
  shows "encode_rune r @ drop (w - 1) cs = c # cs"
proof -
  define b where "b = byte_of c"
  let ?lo = "if b = 240 then 144 else 128 :: nat" and ?hi = "if b = 244 then 143 else 191 :: nat"
  from assms(1,2) obtain c1 c2 c3 ds where cs: "cs = c1 # c2 # c3 # ds"
    and b1: "byte_in ?lo ?hi c1" and b2: "byte_in 128 191 c2" and b3: "byte_in 128 191 c3"
    and r0: "r = (((b mod 8) * 64 + byte_of c1 mod 64) * 64 + byte_of c2 mod 64) * 64
          + byte_of c3 mod 64" and w: "w = 4"
    unfolding b_def by (cases "(byte_of c, cs)" rule: decode4.cases) (auto split: if_splits)
  define a x y z where "a = b mod 8" and "x = byte_of c1 mod 64" and "y = byte_of c2 mod 64"
    and "z = byte_of c3 mod 64"
  have r: "r = ((a * 64 + x) * 64 + y) * 64 + z" using r0 by (simp add: a_def x_def y_def z_def)
  have bnd: "a < 8" "x < 64" "y < 64" "z < 64" by (simp_all add: a_def x_def y_def z_def)
  have m: "240 + a = b" using mod_base [of 30 8 b] assms(3,4) by (simp add: a_def b_def)
  have c1: "128 + x = byte_of c1"
    using mod_base [of 2 64 "byte_of c1"] b1 by (auto simp: byte_in_def x_def split: if_splits)
  have lo: "65536 \<le> r"
    using r m b1 c1 by (cases "b = 240") (auto simp: byte_in_def)
  have "a \<le> 4" using m assms(4) by (simp add: b_def)
  then have hi: "r \<le> 1114111"
    using r bnd m b1 c1 by (cases "b = 244") (auto simp: byte_in_def)
  have "byte_char (128 + x) = c1" "byte_char (128 + y) = c2" "byte_char (128 + z) = c3"
    "byte_char (240 + a) = c"
    using c1 byte_in_cont [OF b2] byte_in_cont [OF b3] m by (simp_all add: y_def z_def b_def)
  with lo hi digits4 [OF r bnd(2-4)] show ?thesis
    by (simp add: encode_rune.simps cs w)
qed

lemma decode_rune_encode:
  assumes "decode_rune c cs = (r, w)" "(r, w) \<noteq> (rune_error, 1)"
  shows "encode_rune r @ drop (w - 1) cs = c # cs"
proof -
  let ?b = "byte_of c"
  consider "?b < 128" | "194 \<le> ?b" "?b < 224" | "224 \<le> ?b" "?b < 240" | "240 \<le> ?b" "?b \<le> 244"
    using assms by (force simp: decode_rune_def Let_def split: if_splits)
  then show ?thesis
  proof cases
    case 1
    with assms(1) show ?thesis by (auto simp: decode_rune_def encode_rune.simps)
  next
    case 2
    with assms(1) have "decode2 ?b cs = (r, w)" by (simp add: decode_rune_def)
    from decode2_encode [OF this assms(2) 2] show ?thesis .
  next
    case 3
    with assms(1) have "decode3 ?b cs = (r, w)" by (simp add: decode_rune_def)
    from decode3_encode [OF this assms(2) 3] show ?thesis .
  next
    case 4
    with assms(1) have "decode4 ?b cs = (r, w)" by (simp add: decode_rune_def)
    from decode4_encode [OF this assms(2) 4] show ?thesis .
  qed
qed

text \<open>Re-encoding the runes of a valid string gives the string back.\<close>

lemma runes_encode: "valid_utf8 s \<Longrightarrow> concat (map encode_rune (runes s)) = s"
proof (induction s rule: runes.induct)
  case (2 c cs)
  obtain r w where d: "decode_rune c cs = (r, w)" by (cases "decode_rune c cs")
  with 2 have "concat (map encode_rune (runes (drop (w - 1) cs))) = drop (w - 1) cs" by simp
  with d 2 decode_rune_encode [OF d] show ?case by simp
qed simp

text \<open>Every byte of a multi-byte encoding is outside ASCII.\<close>

lemma encode_rune_high: "128 \<le> r \<Longrightarrow> b \<in> set (encode_rune r) \<Longrightarrow> 128 \<le> byte_of b"
proof -
  have "byte_of (byte_char 239) = 239" "byte_of (byte_char 191) = 191"
    "byte_of (byte_char 189) = 189" by simp_all
  moreover have "r < 2048 \<Longrightarrow> r div 64 < 32" "r < 65536 \<Longrightarrow> r div 4096 < 16"
    "\<not> 1114111 < r \<Longrightarrow> r div 262144 < 8"
    by (simp_all add: less_mult_imp_div_less)
  ultimately show "128 \<le> r \<Longrightarrow> b \<in> set (encode_rune r) \<Longrightarrow> 128 \<le> byte_of b"
    by (auto simp: encode_rune.simps split: if_splits)
qed

lemma encode_rune_not_empty [simp]: "encode_rune r \<noteq> []"
  by (simp add: encode_rune.simps)

lemma runes_ascii: "ascii s \<Longrightarrow> runes s = map byte_of s"
  by (induction s) (auto simp: ascii_def decode_rune_def)

lemma ascii_valid: "ascii s \<Longrightarrow> valid_utf8 s"
  by (induction s) (auto simp: ascii_def decode_rune_def rune_error_def)

lemma ascii_simps [simp]:
  "ascii []" "ascii (c # cs) \<longleftrightarrow> byte_of c < 128 \<and> ascii cs" "ascii (s @ t) \<longleftrightarrow> ascii s \<and> ascii t"
  by (simp_all add: ascii_def)

end
