(* ===== verification/Json.thy ===== *)
theory Json
  imports Utf8 "HOL-Library.AList"
begin

text \<open>
  The hand-written JSON helpers of the store: the array of strings kept in the columns
  \<open>mac_addrs\<close> and \<open>ip_addrs\<close> (\<open>marshalJSONArray\<close> of store.go, \<open>parseJSONStringArray\<close>,
  \<open>splitJSON\<close> and \<open>unescapeJSON\<close> of hardware.go) and the object of strings kept in
  \<open>command_logs.params\<close> (\<open>marshalJSONMap\<close> and \<open>unmarshalJSONMap\<close> of command.go).
  A Go map is an association list in the order the loop over it visits its keys. \<open>None\<close> is a
  slice-bounds panic. The index loops of the source are kept; \<open>scan_parts\<close> is a structural
  reference for \<open>splitJSON\<close>, and \<open>esc_bytes\<close> the byte-wise escaping both writers
  perform on the text they handle correctly.
\<close>

abbreviation dquote :: char where "dquote \<equiv> CHR 0x22"
abbreviation bslash :: char where "bslash \<equiv> CHR 0x5C"

section \<open>The array of strings\<close>

text \<open>One rune in \<open>marshalJSONArray\<close>: \<open>byte(ch)\<close> keeps the low eight bits of the rune.\<close>

definition array_rune :: "nat \<Rightarrow> string" where
  "array_rune r =
     (if r = 34 then [bslash, dquote] else if r = 92 then [bslash, bslash] else [byte_char r])"

definition array_body :: "string \<Rightarrow> string" where
  "array_body s = concat (map array_rune (runes s))"

definition marshalJSONArray :: "string list \<Rightarrow> string" where
  "marshalJSONArray items =
     (if items = [] then ''[]''
      else CHR ''['' #
        join_with '','' (map (\<lambda>s. dquote # array_body s @ [dquote]) items) @ [CHR '']''])"

function splitJSON_loop :: "string \<Rightarrow> nat \<Rightarrow> nat \<Rightarrow> bool \<Rightarrow> string list \<Rightarrow> string list" where
  "splitJSON_loop s i start inStr parts =
     (if i < length s then
        if s ! i = dquote \<and> (i = 0 \<or> s ! (i - 1) \<noteq> bslash) then
          if inStr
          then splitJSON_loop s (i + 1) start False (parts @ [take (i + 1 - start) (drop start s)])
          else splitJSON_loop s (i + 1) i True parts
        else splitJSON_loop s (i + 1) start inStr parts
      else parts)"
  by pat_completeness auto
termination
  by (relation "measure (\<lambda>(s, i, _). length s - i)") auto

declare splitJSON_loop.simps [simp del]

definition splitJSON :: "string \<Rightarrow> string list" where
  "splitJSON s = splitJSON_loop s 0 0 False []"

fun unescape_bytes :: "string \<Rightarrow> string" where
  "unescape_bytes [] = []"
| "unescape_bytes [c] = [c]"
| "unescape_bytes (c # d # cs) =
     (if c = bslash then d # unescape_bytes cs else c # unescape_bytes (d # cs))"

definition unescapeJSON :: "string \<Rightarrow> string" where
  "unescapeJSON s =
     unescape_bytes
       (if 2 \<le> length s \<and> hd s = dquote \<and> last s = dquote then butlast (tl s) else s)"

definition parseJSONStringArray :: "string \<Rightarrow> string list option" where
  "parseJSONStringArray s =
     (if s = '''' \<or> s = ''[]'' then Some []
      else case go_slice s 1 (int (length s) - 1) of
        None \<Rightarrow> None
      | Some inner \<Rightarrow>
          if inner = '''' then Some [] else Some (map unescapeJSON (splitJSON inner)))"

section \<open>The object of strings\<close>

text \<open>One rune in \<open>marshalJSONMap\<close>: \<open>WriteRune\<close> writes the rune's UTF-8 encoding.\<close>

definition map_rune :: "nat \<Rightarrow> string" where
  "map_rune r =
     (if r = 34 then [bslash, dquote] else if r = 92 then [bslash, bslash] else encode_rune r)"

definition map_body :: "string \<Rightarrow> string" where
  "map_body s = concat (map map_rune (runes s))"

definition map_entry :: "string \<times> string \<Rightarrow> string" where
  "map_entry kv =
     dquote # map_body (fst kv) @ [dquote, CHR '':'', dquote] @ map_body (snd kv) @ [dquote]"

definition marshalJSONMap :: "(string \<times> string) list \<Rightarrow> string" where
  "marshalJSONMap m =
     (if m = [] then ''{}''
      else CHR ''{'' # join_with '','' (map map_entry m) @ [CHR ''}''])"

definition json_space :: "char list" where
  "json_space = [CHR '' '', CHR 0x09, CHR 0x0D, CHR 0x0A, CHR '','']"

function unmarshal_loop :: "string \<Rightarrow> (string \<times> string) list \<Rightarrow> (string \<times> string) list option"
where
  "unmarshal_loop s m =
     (if s = [] then Some m
      else let s1 = trim_left json_space s in
        if length s1 < 4 \<or> hd s1 \<noteq> dquote then Some m
        else let keyEnd = index_byte (tl s1) dquote + 1 in
          case go_slice s1 1 keyEnd of
            None \<Rightarrow> None
          | Some k \<Rightarrow>
              let key = unescapeJSON k; s2 = drop (nat (keyEnd + 1)) s1 in
                if s2 = [] \<or> hd s2 \<noteq> dquote then Some m
                else let valEnd = index_byte (tl s2) dquote + 1 in
                  case go_slice s2 1 valEnd of
                    None \<Rightarrow> None
                  | Some v \<Rightarrow>
                      unmarshal_loop (drop (nat (valEnd + 1)) s2)
                        (AList.update key (unescapeJSON v) m))"
  by pat_completeness auto
termination
proof (relation "measure (\<lambda>(s, _). length s)", goal_cases)
  case (2 s m s1 keyEnd k key s2 valEnd v)
  have "length s1 \<le> length s" by (simp add: 2(2) trim_left_def length_dropWhile_le)
  moreover have "length s2 \<le> length s1" by (simp add: 2(7))
  moreover have "0 \<le> valEnd" using index_byte_ge [of "tl s2" dquote] by (simp add: 2(9))
  moreover have "s2 \<noteq> []" using 2(8) by simp
  ultimately show ?case by (cases s2) auto
qed simp

declare unmarshal_loop.simps [simp del]

definition unmarshalJSONMap :: "string \<Rightarrow> (string \<times> string) list option" where
  "unmarshalJSONMap s =
     (if s = ''{}'' \<or> s = '''' then Some []
      else case go_slice s 1 (int (length s) - 1) of
        None \<Rightarrow> None
      | Some inner \<Rightarrow> unmarshal_loop inner [])"

section \<open>Byte-wise escaping and the structural scan\<close>

definition esc_byte :: "char \<Rightarrow> string" where
  "esc_byte c = (if c = dquote \<or> c = bslash then [bslash, c] else [c])"

definition esc_bytes :: "string \<Rightarrow> string" where
  "esc_bytes s = concat (map esc_byte s)"

text \<open>
  The scan behind \<open>splitJSON\<close> on the remaining bytes: the byte before them, and the part
  being read, if a string is open.
\<close>

fun scan_parts :: "char option \<Rightarrow> string option \<Rightarrow> string \<Rightarrow> string list" where
  "scan_parts prev cur [] = []"
| "scan_parts prev None (c # cs) =
     (if c = dquote \<and> prev \<noteq> Some bslash then scan_parts (Some c) (Some [c]) cs
      else scan_parts (Some c) None cs)"
| "scan_parts prev (Some part) (c # cs) =
     (if c = dquote \<and> prev \<noteq> Some bslash then (part @ [c]) # scan_parts (Some c) None cs
      else scan_parts (Some c) (Some (part @ [c])) cs)"

lemma esc_bytes_simps [simp]:
  "esc_bytes [] = []" "esc_bytes (c # cs) = esc_byte c @ esc_bytes cs"
  "esc_bytes (s @ t) = esc_bytes s @ esc_bytes t"
  by (simp_all add: esc_bytes_def)

lemma byte_of_dquote: "byte_of dquote = 34" and byte_of_bslash: "byte_of bslash = 92"
  by (simp_all add: byte_of_def)

lemma byte_of_special: "byte_of c = 34 \<longleftrightarrow> c = dquote" "byte_of c = 92 \<longleftrightarrow> c = bslash"
proof -
  show "byte_of c = 34 \<longleftrightarrow> c = dquote" "byte_of c = 92 \<longleftrightarrow> c = bslash"
    by (metis byte_of_dquote byte_of_bslash byte_of_eq_iff)+
qed

lemma array_body_ascii: "ascii s \<Longrightarrow> array_body s = esc_bytes s"
  by (induction s)
    (auto simp: array_body_def runes_ascii array_rune_def esc_byte_def byte_of_special
      decode_rune_def)

lemma map_rune_encode:
  assumes "encode_rune r @ drop (w - 1) cs = c # cs" "decode_rune c cs = (r, w)"
    "(r, w) \<noteq> (rune_error, 1)"
  shows "map_rune r @ esc_bytes (drop (w - 1) cs) = esc_byte c @ esc_bytes cs"
proof (cases "byte_of c < 128")
  case True
  with assms(2) have "r = byte_of c" "w = 1" by (auto simp: decode_rune_def)
  with True show ?thesis
    by (auto simp: map_rune_def esc_byte_def encode_rune.simps byte_of_special)
next
  case False
  have r: "128 \<le> r"
  proof (rule ccontr)
    assume "\<not> 128 \<le> r"
    then have "encode_rune r = [byte_char r]" by (simp add: encode_rune.simps)
    with assms(1) have "c = byte_char r" by simp
    with \<open>\<not> 128 \<le> r\<close> False show False by simp
  qed
  have id: "esc_bytes t = t" if "\<forall>b \<in> set t. 128 \<le> byte_of b" for t
    using that
  proof (induction t)
    case (Cons b t)
    then have "byte_of b \<noteq> 34" "byte_of b \<noteq> 92" by auto
    with Cons show ?case by (auto simp: esc_byte_def byte_of_special)
  qed simp
  have "map_rune r = encode_rune r" using r by (simp add: map_rune_def)
  also have "\<dots> = esc_bytes (encode_rune r)" using encode_rune_high [OF r] id by simp
  finally have "map_rune r @ esc_bytes (drop (w - 1) cs) = esc_bytes (c # cs)"
    using assms(1) by (metis esc_bytes_simps(3))
  then show ?thesis by simp
qed

lemma map_body_valid: "valid_utf8 s \<Longrightarrow> map_body s = esc_bytes s"
proof (induction s rule: runes.induct)
  case (2 c cs)
  obtain r w where d: "decode_rune c cs = (r, w)" by (cases "decode_rune c cs")
  with 2 have ok: "(r, w) \<noteq> (rune_error, 1)" and v: "valid_utf8 (drop (w - 1) cs)" by auto
  from 2(1) d v have "map_body (drop (w - 1) cs) = esc_bytes (drop (w - 1) cs)" by simp
  with d map_rune_encode [OF decode_rune_encode [OF d ok] d ok] show ?case
    by (simp add: map_body_def)
qed (simp add: map_body_def)

lemma unescape_esc_bytes: "unescape_bytes (esc_bytes s) = s"
proof (induction s)
  case (Cons c s)
  have "unescape_bytes (c # esc_bytes s) = c # s" if "c \<noteq> bslash"
    using that Cons by (cases "esc_bytes s") auto
  with Cons show ?case by (auto simp: esc_byte_def)
qed simp

lemma unescapeJSON_quoted: "unescapeJSON (dquote # s @ [dquote]) = unescape_bytes s"
  by (simp add: unescapeJSON_def)

text \<open>The index loop is the structural scan of what is left of the string.\<close>

lemma splitJSON_loop_scan:
  assumes "i \<le> length s" "start \<le> i"
  shows "splitJSON_loop s i start inStr parts = parts @
    scan_parts (if i = 0 then None else Some (s ! (i - 1)))
      (if inStr then Some (take (i - start) (drop start s)) else None) (drop i s)"
  using assms
proof (induction s i start inStr parts rule: splitJSON_loop.induct)
  case (1 s i start inStr parts)
  show ?case
  proof (cases "i < length s")
    case False
    then show ?thesis using "1.prems" by (subst splitJSON_loop.simps) simp
  next
    case True
    let ?q = "s ! i = dquote \<and> (i = 0 \<or> s ! (i - 1) \<noteq> bslash)"
    have d: "drop i s = s ! i # drop (i + 1) s" using True by (simp add: Cons_nth_drop_Suc)
    have t: "take (i + 1 - start) (drop start s) = take (i - start) (drop start s) @ [s ! i]"
      using True 1(5) take_Suc_conv_app_nth [of "i - start" "drop start s"] by (simp add: Suc_diff_le)
    have t1: "take (i + 1 - i) (drop i s) = [s ! i]" using d by simp
    consider "?q" "inStr" | "?q" "\<not> inStr" | "\<not> ?q" by blast
    then show ?thesis
    proof cases
      case 1
      with "1.IH"(1) True "1.prems" d t show ?thesis
        by (auto simp: splitJSON_loop.simps [of s i])
    next
      case 2
      with "1.IH"(2) True "1.prems" d t1 show ?thesis
        by (auto simp: splitJSON_loop.simps [of s i])
    next
      case 3
      with "1.IH"(3) True "1.prems" d t show ?thesis
        by (auto simp: splitJSON_loop.simps [of s i])
    qed
  qed
qed

lemma splitJSON_scan: "splitJSON s = scan_parts None None s"
  by (simp add: splitJSON_def splitJSON_loop_scan)

section \<open>The array round trip\<close>

abbreviation quoted :: "string \<Rightarrow> string" where
  "quoted s \<equiv> dquote # esc_bytes s @ [dquote]"

text \<open>The items the array helpers keep: ASCII text that does not end in a backslash.\<close>

definition plain_item :: "string \<Rightarrow> bool" where
  "plain_item s \<longleftrightarrow> ascii s \<and> (s = [] \<or> last s \<noteq> bslash)"

lemma scan_esc_open:
  "scan_parts prev (Some part) (esc_bytes s @ rest) =
   scan_parts (if s = [] then prev else Some (last s)) (Some (part @ esc_bytes s)) rest"
  by (induction s arbitrary: prev part) (auto simp: esc_byte_def)

lemma scan_quoted:
  assumes "prev \<noteq> Some bslash" "s = [] \<or> last s \<noteq> bslash"
  shows "scan_parts prev None (quoted s @ rest) = quoted s # scan_parts (Some dquote) None rest"
  using assms by (auto simp: scan_esc_open)

lemma scan_join:
  assumes "prev \<noteq> Some bslash" "\<forall>s \<in> set items. s = [] \<or> last s \<noteq> bslash"
  shows "scan_parts prev None (join_with '','' (map quoted items)) = map quoted items"
  using assms
proof (induction items arbitrary: prev rule: induct_list012)
  case (2 s)
  then show ?case using scan_quoted [of prev s "[]"] by simp
next
  case (3 s t items)
  let ?rest = "join_with '','' (map quoted (t # items))"
  have "scan_parts prev None (quoted s @ '','' @ ?rest) =
      quoted s # scan_parts (Some dquote) None ('','' @ ?rest)"
    using 3 scan_quoted [of prev s "'','' @ ?rest"] by simp
  also have "scan_parts (Some dquote) None ('','' @ ?rest) = map quoted (t # items)"
    using 3(2) [of "Some (CHR '','')"] 3(4) by simp
  finally show ?case by simp
qed simp

lemma go_slice_inner: "go_slice (a # s @ [b]) 1 (int (length (a # s @ [b])) - 1) = Some s"
  by (simp add: go_slice_def)

lemma marshalJSONArray_plain:
  assumes "items \<noteq> []" "\<forall>s \<in> set items. ascii s"
  shows "marshalJSONArray items =
     CHR ''['' # join_with '','' (map quoted items) @ [CHR '']'']"
proof -
  have "map (\<lambda>s. dquote # array_body s @ [dquote]) items = map quoted items"
    using assms(2) by (simp add: array_body_ascii)
  then show ?thesis by (simp only: marshalJSONArray_def assms(1) if_False)
qed

lemma parse_bracketed:
  assumes "s \<noteq> []"
  shows "parseJSONStringArray (CHR ''['' # s @ [CHR '']'']) =
     Some (map unescapeJSON (splitJSON s))"
  using assms go_slice_inner [of "CHR ''[''" s "CHR '']''"]
  by (cases s) (auto simp: parseJSONStringArray_def)

lemma join_quoted_nonempty: "items \<noteq> [] \<Longrightarrow> join_with sep (map quoted items) \<noteq> []"
  by (induction items rule: induct_list012) auto

lemma array_roundtrip:
  assumes "\<forall>s \<in> set items. plain_item s"
  shows "parseJSONStringArray (marshalJSONArray items) = Some items"
proof (cases "items = []")
  case True
  then show ?thesis by (simp add: marshalJSONArray_def parseJSONStringArray_def)
next
  case False
  have "marshalJSONArray items = CHR ''['' # join_with '','' (map quoted items) @ [CHR '']'']"
    using False assms by (intro marshalJSONArray_plain) (auto simp: plain_item_def)
  moreover have "splitJSON (join_with '','' (map quoted items)) = map quoted items"
    using assms by (auto simp: splitJSON_scan plain_item_def intro!: scan_join)
  ultimately show ?thesis
    using parse_bracketed [OF join_quoted_nonempty [OF False, of "'',''"]]
    by (simp add: o_def unescapeJSON_quoted unescape_esc_bytes)
qed

text \<open>An item that ends in a backslash hides its closing quote from the reader.\<close>

lemma array_backslash_lost:
  assumes "ascii s"
  shows "parseJSONStringArray (marshalJSONArray [s @ [bslash]]) = Some []"
proof -
  have a: "ascii (s @ [bslash])" using assms by (simp add: byte_of_def)
  have "scan_parts None None (quoted (s @ [bslash])) = []"
    using scan_esc_open [of "Some dquote" "[dquote]" "s @ [bslash]" "[dquote]"] by simp
  then show ?thesis
    using marshalJSONArray_plain [of "[s @ [bslash]]"] a
      parse_bracketed [of "quoted (s @ [bslash])"]
    by (simp add: splitJSON_scan del: append_assoc esc_bytes_simps)
qed

section \<open>The map reader returns no entry\<close>

section \<open>The map reader stops at its first colon\<close>

lemma decode_rune_quote:
  assumes "decode_rune c cs = (34, w)"
  shows "c = dquote" "w = 1"
proof -
  have "(34, w) \<noteq> (rune_error, 1)" by (simp add: rune_error_def)
  from decode_rune_encode [OF assms this] have "byte_char 34 = c" by (simp add: encode_rune.simps)
  moreover have "byte_char 34 = dquote" by (metis byte_of_dquote byte_char_byte_of)
  ultimately show c: "c = dquote" by simp
  with assms show "w = 1" by (simp add: decode_rune_def byte_of_def)
qed

lemma last_rune_quote:
  "s \<noteq> [] \<Longrightarrow> last s \<noteq> dquote \<Longrightarrow> runes s \<noteq> [] \<and> last (runes s) \<noteq> 34"
proof (induction s rule: runes.induct)
  case (2 c cs)
  obtain r w where d: "decode_rune c cs = (r, w)" by (cases "decode_rune c cs")
  show ?case
  proof (cases "drop (w - 1) cs = []")
    case True
    with d 2 show ?thesis by (auto dest: decode_rune_quote split: if_splits)
  next
    case False
    then have "cs \<noteq> []" "last (drop (w - 1) cs) = last cs" by auto
    with False d 2 show ?thesis by auto
  qed
qed simp

lemma map_rune_chunk:
  assumes "r \<noteq> 34"
  shows "map_rune r \<noteq> [] \<and> dquote \<notin> set (map_rune r)"
proof -
  have "dquote \<notin> set (encode_rune r)"
  proof (cases "r < 128")
    case True
    have "byte_char r \<noteq> dquote"
    proof
      assume "byte_char r = dquote"
      then have "byte_of (byte_char r) = 34" by (simp only: byte_of_dquote)
      with True assms show False by simp
    qed
    with True show ?thesis by (simp add: encode_rune.simps)
  next
    case False
    then show ?thesis using encode_rune_high [of r dquote] by (auto simp: byte_of_dquote)
  qed
  then show ?thesis using assms by (auto simp: map_rune_def)
qed

text \<open>
  After the first quote of a written key comes a byte that is not a quote, unless the key ends
  in an escaped quote.
\<close>

lemma chunks_after_quote:
  assumes "\<forall>x \<in> set xs. x = [bslash, dquote] \<or> x \<noteq> [] \<and> dquote \<notin> set x"
    and "xs = [] \<or> last xs \<noteq> [bslash, dquote]" and "rest \<noteq> []" "hd rest \<noteq> dquote"
  shows "\<exists>p t. concat xs @ dquote # rest = p @ dquote # t \<and> dquote \<notin> set p \<and> t \<noteq> [] \<and> hd t \<noteq> dquote"
  using assms
proof (induction xs)
  case Nil
  then have "concat [] @ dquote # rest = [] @ dquote # rest \<and> dquote \<notin> set ([] :: string)
      \<and> rest \<noteq> [] \<and> hd rest \<noteq> dquote" by simp
  then show ?case by blast
next
  case (Cons x xs)
  show ?case
  proof (cases "x = [bslash, dquote]")
    case True
    with Cons.prems obtain y ys where xs: "xs = y # ys" by (cases xs) auto
    with Cons.prems have "concat xs \<noteq> [] \<and> hd (concat xs) \<noteq> dquote" by (cases y) auto
    then have "concat xs @ dquote # rest \<noteq> [] \<and> hd (concat xs @ dquote # rest) \<noteq> dquote" by simp
    moreover have "concat (x # xs) @ dquote # rest = [bslash] @ dquote # (concat xs @ dquote # rest)"
      using True by simp
    ultimately show ?thesis by fastforce
  next
    case False
    with Cons obtain p t where "concat xs @ dquote # rest = p @ dquote # t" "dquote \<notin> set p"
      "t \<noteq> []" "hd t \<noteq> dquote" by (auto split: if_splits)
    moreover from False Cons.prems have "dquote \<notin> set x" by simp
    ultimately have "concat (x # xs) @ dquote # rest = (x @ p) @ dquote # t \<and> dquote \<notin> set (x @ p)
        \<and> t \<noteq> [] \<and> hd t \<noteq> dquote" by simp
    then show ?thesis by blast
  qed
qed

lemma map_body_after_quote:
  assumes "k = [] \<or> last k \<noteq> dquote" "rest \<noteq> []" "hd rest \<noteq> dquote"
  shows "\<exists>p t. map_body k @ dquote # rest = p @ dquote # t \<and> dquote \<notin> set p \<and> t \<noteq> [] \<and> hd t \<noteq> dquote"
proof -
  have q: "map_rune 34 = [bslash, dquote]" by (simp add: map_rune_def)
  have "map_rune r = [bslash, dquote] \<or> map_rune r \<noteq> [] \<and> dquote \<notin> set (map_rune r)" for r
    using q map_rune_chunk by (cases "r = 34") simp_all
  then have a: "\<forall>x \<in> set (map map_rune (runes k)). x = [bslash, dquote] \<or> x \<noteq> [] \<and> dquote \<notin> set x"
    by simp
  have "map_rune r \<noteq> [bslash, dquote]" if "r \<noteq> 34" for r using map_rune_chunk [OF that] by auto
  then have b: "map map_rune (runes k) = [] \<or> last (map map_rune (runes k)) \<noteq> [bslash, dquote]"
    using last_rune_quote [of k] assms(1) by (cases "k = []") (auto simp: last_map)
  from chunks_after_quote [OF a b assms(2,3)] show ?thesis by (simp add: map_body_def)
qed

lemma unmarshal_loop_stops:
  assumes "k = [] \<or> last k \<noteq> dquote" "rest \<noteq> []" "hd rest \<noteq> dquote" "3 \<le> length rest"
  shows "unmarshal_loop (dquote # map_body k @ dquote # rest) m = Some m"
proof -
  let ?s = "dquote # map_body k @ dquote # rest"
  from map_body_after_quote [OF assms(1-3)] obtain p t where
    e: "map_body k @ dquote # rest = p @ dquote # t" and p: "dquote \<notin> set p"
    and t: "t \<noteq> []" "hd t \<noteq> dquote" by blast
  have s: "?s = dquote # p @ dquote # t" using e by simp
  have tr: "trim_left json_space ?s = ?s" by (simp add: trim_left_def json_space_def)
  have i: "index_byte (tl ?s) dquote + 1 = int (length p) + 1"
    using index_byte_append [OF p, of t] e by simp
  have sl: "go_slice ?s 1 (int (length p) + 1) = Some p"
    unfolding s by (simp add: go_slice_def)
  have dr: "drop (nat (int (length p) + 1 + 1)) ?s = t"
    unfolding s by (simp add: nat_add_distrib)
  have len: "\<not> length ?s < 4" using assms(4) by simp
  show ?thesis
    by (subst unmarshal_loop.simps)
      (use tr i sl dr len t in \<open>simp only: Let_def option.case list.sel list.distinct
        simp_thms if_True if_False\<close>)
qed

text \<open>
  Whatever map of parameters is written, the reader returns an empty map: after the key it
  expects the value's opening quote and finds the colon.
\<close>

lemma unmarshal_marshal:
  assumes "m \<noteq> [] \<longrightarrow> fst (hd m) = [] \<or> last (fst (hd m)) \<noteq> dquote"
  shows "unmarshalJSONMap (marshalJSONMap m) = Some []"
proof (cases m)
  case Nil
  then show ?thesis by (simp add: marshalJSONMap_def unmarshalJSONMap_def)
next
  case (Cons kv m')
  have jc: "join_with '','' (map map_entry m) =
      map_entry kv @ (if m' = [] then [] else '','' @ join_with '','' (map map_entry m'))"
    using Cons by (cases m') auto
  define rest where "rest = CHR '':'' # dquote # map_body (snd kv) @ dquote #
      (if m' = [] then [] else '','' @ join_with '','' (map map_entry m'))"
  have inner: "join_with '','' (map map_entry m) = dquote # map_body (fst kv) @ dquote # rest"
    by (simp add: jc map_entry_def rest_def)
  then have ms: "marshalJSONMap m =
      CHR ''{'' # (dquote # map_body (fst kv) @ dquote # rest) @ [CHR ''}'']"
    using Cons by (simp add: marshalJSONMap_def)
  have "unmarshalJSONMap (marshalJSONMap m) =
      unmarshal_loop (dquote # map_body (fst kv) @ dquote # rest) []"
    unfolding unmarshalJSONMap_def ms go_slice_inner by simp
  also have "\<dots> = Some []"
    using assms Cons by (intro unmarshal_loop_stops) (auto simp: rest_def)
  finally show ?thesis .
qed

interpretation array_codec: codec "\<lambda>items. \<forall>s \<in> set items. plain_item s"
  marshalJSONArray parseJSONStringArray
  by unfold_locales (rule array_roundtrip)

end
