(* ===== verification/Rfc3339.thy ===== *)
theory Rfc3339
  imports Prelude
begin

text \<open>
  The timestamps of the store. \<open>time.Now().UTC().Format(time.RFC3339)\<close> renders a second of
  Unix time as \<open>YYYY-MM-DDTHH:MM:SSZ\<close> (\<open>rfc3339\<close>; the model starts at 1970, where all
  the clock readings of the program lie), and SQLite compares the stored texts byte by byte.
  That the textual order is the order of the instants, up to the year 9999, is what every
  \<open>ORDER BY\<close> and every range filter of the store rests on.
\<close>

definition leap_year :: "nat \<Rightarrow> bool" where
  "leap_year y \<longleftrightarrow> y mod 4 = 0 \<and> (y mod 100 \<noteq> 0 \<or> y mod 400 = 0)"

definition year_days :: "nat \<Rightarrow> nat" where
  "year_days y = (if leap_year y then 366 else 365)"

definition month_days :: "nat \<Rightarrow> nat list" where
  "month_days y = [31, if leap_year y then 29 else 28, 31, 30, 31, 30, 31, 31, 30, 31, 30, 31]"

text \<open>The year and the day of the year, counting days from the first of January of year \<open>y\<close>.\<close>

function year_of :: "nat \<Rightarrow> nat \<Rightarrow> nat \<times> nat" where
  "year_of y d = (if d < year_days y then (y, d) else year_of (y + 1) (d - year_days y))"
  by pat_completeness auto
termination
  by (relation "measure snd") (auto simp: year_days_def split: if_splits)

declare year_of.simps [simp del]

text \<open>The month, counted from \<open>m\<close>, and the day of the month, from 1.\<close>

fun month_of :: "nat \<Rightarrow> nat list \<Rightarrow> nat \<Rightarrow> nat \<times> nat" where
  "month_of m [] d = (m, d + 1)"
| "month_of m (n # ns) d = (if d < n then (m, d + 1) else month_of (m + 1) ns (d - n))"

text \<open>Exactly \<open>w\<close> digits when the number fits, more when it does not.\<close>

fun pad :: "nat \<Rightarrow> nat \<Rightarrow> string" where
  "pad 0 n = (if n = 0 then [] else show_nat n)"
| "pad (Suc w) n = pad w (n div 10) @ [digit_char n]"

definition civil :: "nat \<Rightarrow> nat \<times> nat \<times> nat" where
  "civil d = (let (y, doy) = year_of 1970 d; (m, dm) = month_of 1 (month_days y) doy
     in (y, m, dm))"

definition rfc3339 :: "nat \<Rightarrow> string" where
  "rfc3339 t =
     (let (y, m, d) = civil (t div 86400); s = t mod 86400 in
      pad 4 y @ ''-'' @ pad 2 m @ ''-'' @ pad 2 d @ ''T'' @ pad 2 (s div 3600) @ '':'' @
      pad 2 (s div 60 mod 60) @ '':'' @ pad 2 (s mod 60) @ ''Z'')"

text \<open>The first second of the year 10000.\<close>

definition rfc3339_limit :: nat where
  "rfc3339_limit = 253402300800"

section \<open>Padding\<close>

lemma length_pad: "n < 10 ^ w \<Longrightarrow> length (pad w n) = w"
  by (induction w arbitrary: n) (auto simp: less_mult_imp_div_less mult.commute)

lemma digit_char_less: "digit_char m < digit_char n \<longleftrightarrow> m mod 10 < n mod 10"
proof -
  show ?thesis
    by (simp only: byte_of_less_iff [symmetric] byte_of_digit_char nat_add_left_cancel_less)
qed

lemma pad_less:
  "m < n \<Longrightarrow> n < 10 ^ w \<Longrightarrow> pad w m < pad w n"
proof (induction w arbitrary: m n)
  case (Suc w)
  have b: "m div 10 < 10 ^ w" "n div 10 < 10 ^ w"
    using Suc.prems by (auto simp: less_mult_imp_div_less mult.commute)
  then have len: "length (pad w (m div 10)) = length (pad w (n div 10))" by (simp add: length_pad)
  show ?case
  proof (cases "m div 10 < n div 10")
    case True
    from Suc.IH [OF this b(2)] len show ?thesis by (simp add: list_less_append_same)
  next
    case False
    then have e: "m div 10 = n div 10" using Suc.prems(1) div_le_mono [of m n 10] by linarith
    then have "m mod 10 < n mod 10" using Suc.prems(1) by (metis div_mult_mod_eq nat_add_left_cancel_less)
    then have "digit_char m < digit_char n" by (simp only: digit_char_less)
    with e show ?thesis by (simp add: list_less_append_same del: digit_char.simps)
  qed
qed simp

lemma pad_le: "m \<le> n \<Longrightarrow> n < 10 ^ w \<Longrightarrow> pad w m \<le> pad w n"
  using pad_less [of m n w] by (cases "m = n") auto

text \<open>The text of a field followed by more text, compared with another.\<close>

lemma pad_append_less:
  assumes "m < n \<or> m = n \<and> s < t" "n < 10 ^ w"
  shows "pad w m @ s < pad w n @ t"
proof -
  have "length (pad w m) = length (pad w n)" using assms by (auto simp: length_pad)
  then show ?thesis using assms pad_less [of m n w] by (auto simp: list_less_append_same)
qed

section \<open>The calendar is monotone\<close>

lemma year_of_bounds:
  "year_of y d = (y', d') \<Longrightarrow> y \<le> y' \<and> d' < year_days y' \<and> d' \<le> d"
proof (induction y d rule: year_of.induct)
  case (1 y d)
  then show ?case by (subst (asm) (2) year_of.simps) (fastforce split: if_splits)
qed

lemma year_of_mono:
  assumes "d1 < d2" "year_of y d1 = (y1, e1)" "year_of y d2 = (y2, e2)"
  shows "y1 < y2 \<or> y1 = y2 \<and> e1 < e2"
  using assms
proof (induction y d1 arbitrary: d2 rule: year_of.induct)
  case (1 y d1)
  show ?case
  proof (cases "d1 < year_days y")
    case True
    then have a: "y1 = y" "e1 = d1" using "1.prems"(2) by (simp_all add: year_of.simps [of y d1])
    show ?thesis
    proof (cases "d2 < year_days y")
      case True
      with a "1.prems" show ?thesis by (simp add: year_of.simps [of y d2])
    next
      case False
      then have "year_of (y + 1) (d2 - year_days y) = (y2, e2)"
        using "1.prems"(3) by (simp add: year_of.simps [of y d2])
      from year_of_bounds [OF this] a show ?thesis by simp
    qed
  next
    case False
    moreover have "\<not> d2 < year_days y" using False "1.prems"(1) by simp
    ultimately show ?thesis
      using "1.IH" [of "d2 - year_days y"] "1.prems"
      by (simp add: year_of.simps [of y d1] year_of.simps [of y d2])
  qed
qed

lemma month_of_bounds: "month_of m ns d = (m', d') \<Longrightarrow> m \<le> m' \<and> 1 \<le> d'"
  by (induction m ns d rule: month_of.induct) (auto split: if_splits)

lemma month_of_mono:
  assumes "d1 < d2" "month_of m ns d1 = (m1, e1)" "month_of m ns d2 = (m2, e2)"
  shows "m1 < m2 \<or> m1 = m2 \<and> e1 < e2"
  using assms
proof (induction m ns d1 arbitrary: d2 rule: month_of.induct)
  case (2 m n ns d1)
  show ?case
  proof (cases "d1 < n")
    case True
    with 2 month_of_bounds [of "m + 1" ns "d2 - n" m2 e2] show ?thesis
      by (auto split: if_splits)
  next
    case False
    with "2.prems" have "d1 - n < d2 - n" "month_of (m + 1) ns (d1 - n) = (m1, e1)"
      "month_of (m + 1) ns (d2 - n) = (m2, e2)" by auto
    from "2.IH" [OF False this] show ?thesis .
  qed
qed auto

text \<open>Within a year the month is at most 12 and the day at most 31.\<close>

lemma month_of_range:
  assumes "d < sum_list ns" "\<forall>n \<in> set ns. n \<le> 31" "month_of m ns d = (m', d')"
  shows "m' < m + length ns \<and> d' \<le> 31"
  using assms by (induction m ns d rule: month_of.induct) (fastforce split: if_splits)+

lemma sum_month_days: "sum_list (month_days y) = year_days y"
  by (simp add: month_days_def year_days_def)

lemma civil_fields:
  assumes "civil n = (y, m, d)"
  shows "m \<le> 12" "d \<le> 31"
proof -
  obtain doy where y: "year_of 1970 n = (y, doy)" and md: "month_of 1 (month_days y) doy = (m, d)"
    using assms by (auto simp: civil_def Let_def split: prod.splits)
  from year_of_bounds [OF y] have "doy < sum_list (month_days y)" by (simp add: sum_month_days)
  moreover have "\<forall>n \<in> set (month_days y). n \<le> 31" "length (month_days y) = 12"
    by (simp_all add: month_days_def)
  ultimately show "m \<le> 12" "d \<le> 31" using month_of_range [OF _ _ md] by auto
qed

lemma civil_mono:
  assumes "a < b" "civil a = (y1, m1, d1)" "civil b = (y2, m2, d2)"
  shows "y1 < y2 \<or> y1 = y2 \<and> (m1 < m2 \<or> m1 = m2 \<and> d1 < d2)"
proof -
  from assms obtain e1 e2 where y: "year_of 1970 a = (y1, e1)" "year_of 1970 b = (y2, e2)"
    and m: "month_of 1 (month_days y1) e1 = (m1, d1)" "month_of 1 (month_days y2) e2 = (m2, d2)"
    by (auto simp: civil_def Let_def split: prod.splits)
  from year_of_mono [OF assms(1) y] m month_of_mono show ?thesis by blast
qed

text \<open>The days before a year, counted from year 0, bound the year of a day.\<close>

definition days_before :: "nat \<Rightarrow> nat" where
  "days_before y = 365 * y + (y + 3) div 4 + (y + 399) div 400 - (y + 99) div 100"

lemma div_count:
  fixes m y :: nat
  assumes "0 < m"
  shows "(Suc y + (m - 1)) div m = (y + (m - 1)) div m + (if y mod m = 0 then 1 else 0)"
proof -
  define q r where "q = y div m" and "r = y mod m"
  have y: "y = q * m + r" and r: "r < m" using assms by (simp_all add: q_def r_def)
  have "(Suc y + (m - 1)) div m = q + 1"
    using r assms by (intro div_nat_eqI) (auto simp: y algebra_simps)
  moreover have "(y + (m - 1)) div m = (if r = 0 then q else q + 1)"
    using r assms by (intro div_nat_eqI) (auto simp: y algebra_simps)
  ultimately show ?thesis by (simp add: r_def)
qed

lemma days_before_Suc: "days_before (Suc y) = days_before y + year_days y"
proof -
  define a b c where "a = (y + 3) div 4" and "b = (y + 99) div 100" and "c = (y + 399) div 400"
  define p q r where "p = (if y mod 4 = 0 then 1 else 0 :: nat)"
    and "q = (if y mod 100 = 0 then 1 else 0 :: nat)" and "r = (if y mod 400 = 0 then 1 else 0 :: nat)"
  have s: "(Suc y + 3) div 4 = a + p" "(Suc y + 99) div 100 = b + q" "(Suc y + 399) div 400 = c + r"
    using div_count [of 4 y] div_count [of 100 y] div_count [of 400 y]
    by (simp_all add: a_def b_def c_def p_def q_def r_def)
  have "b < y + 1" unfolding b_def by (rule less_mult_imp_div_less) simp
  moreover have "q \<le> 1" by (simp add: q_def)
  ultimately have "days_before (Suc y) + q = days_before y + 365 + p + r"
    using s by (simp add: days_before_def a_def [symmetric] b_def [symmetric] c_def [symmetric])
  moreover have "year_days y + q = 365 + p + r"
  proof -
    have "y mod 400 = 0 \<Longrightarrow> y mod 100 = 0" "y mod 100 = 0 \<Longrightarrow> y mod 4 = 0"
      using mod_mod_cancel [of 100 400 y] mod_mod_cancel [of 4 100 y] by simp_all
    then show ?thesis by (auto simp: year_days_def leap_year_def p_def q_def r_def)
  qed
  ultimately show ?thesis by linarith
qed

lemma days_before_mono: "a \<le> b \<Longrightarrow> days_before a \<le> days_before b"
  by (induction b) (auto simp: days_before_Suc le_Suc_eq)

lemma year_of_days: "year_of y d = (y', d') \<Longrightarrow> days_before y + d = days_before y' + d'"
proof (induction y d rule: year_of.induct)
  case (1 y d)
  then show ?case
    by (cases "d < year_days y")
      (auto simp: year_of.simps [of y d] days_before_Suc)
qed

lemma civil_year_bound:
  assumes "d < 2932897" "civil d = (y, m, dm)"
  shows "y < 10000"
proof (rule ccontr)
  assume "\<not> y < 10000"
  obtain doy where y: "year_of 1970 d = (y, doy)"
    using assms(2) by (auto simp: civil_def Let_def split: prod.splits)
  from \<open>\<not> y < 10000\<close> have "days_before 10000 \<le> days_before y" by (intro days_before_mono) simp
  with year_of_days [OF y] assms(1) show False by (simp add: days_before_def)
qed

section \<open>The textual order is the order of the instants\<close>

lemma radix60_less:
  fixes h m x :: nat
  assumes "(h * 60 + m) * 60 + x < (h' * 60 + m') * 60 + x'" "m < 60" "m' < 60" "x < 60" "x' < 60"
  shows "h < h' \<or> h = h' \<and> (m < m' \<or> m = m' \<and> x < x')"
  using assms by simp linarith

lemma hms_less:
  fixes s t :: nat
  assumes "s < t"
  shows "s div 3600 < t div 3600 \<or> s div 3600 = t div 3600 \<and>
    (s div 60 mod 60 < t div 60 mod 60 \<or> s div 60 mod 60 = t div 60 mod 60 \<and> s mod 60 < t mod 60)"
proof (rule radix60_less)
  have d: "(x div 3600 * 60 + x div 60 mod 60) * 60 + x mod 60 = x" for x :: nat
  proof -
    have "x div 3600 * 60 + x div 60 mod 60 = x div 60"
      using div_mult_mod_eq [of "x div 60" 60] div_mult2_eq [of x 60 60] by simp
    then show ?thesis by (simp add: div_mult_mod_eq)
  qed
  show "(s div 3600 * 60 + s div 60 mod 60) * 60 + s mod 60
      < (t div 3600 * 60 + t div 60 mod 60) * 60 + t mod 60"
    by (simp only: d assms)
qed simp_all

lemma rfc3339_less:
  assumes "a < b" "b < rfc3339_limit"
  shows "rfc3339 a < rfc3339 b"
proof -
  obtain y1 m1 d1 y2 m2 d2 where c: "civil (a div 86400) = (y1, m1, d1)"
    "civil (b div 86400) = (y2, m2, d2)" by (metis prod_cases3)
  let ?s = "a mod 86400" and ?t = "b mod 86400"
  have day: "b div 86400 < 2932897" using assms(2) by (simp add: rfc3339_limit_def)
  have bnd: "y2 < 10 ^ 4" "m2 < 10 ^ 2" "d2 < 10 ^ 2"
    using civil_year_bound [OF day c(2)] civil_fields [OF c(2)] by auto
  have tb: "?t div 3600 < 10 ^ 2" "?t div 60 mod 60 < 10 ^ 2" "?t mod 60 < 10 ^ 2"
  proof -
    have "?t div 3600 < 24" by (simp add: less_mult_imp_div_less)
    moreover have "?t div 60 mod 60 < 60" "?t mod 60 < 60" by simp_all
    ultimately show "?t div 3600 < 10 ^ 2" "?t div 60 mod 60 < 10 ^ 2" "?t mod 60 < 10 ^ 2" by auto
  qed
  have lex: "y1 < y2 \<or> y1 = y2 \<and> (m1 < m2 \<or> m1 = m2 \<and> (d1 < d2 \<or> d1 = d2 \<and> ?s < ?t))"
  proof (cases "a div 86400 < b div 86400")
    case True
    from civil_mono [OF this c] show ?thesis by blast
  next
    case False
    with assms(1) have "a div 86400 = b div 86400" using div_le_mono [of a b 86400] by simp
    moreover have "?s < ?t"
      using assms(1) calculation by (metis div_mult_mod_eq nat_add_left_cancel_less)
    ultimately show ?thesis using c by simp
  qed
  have sep: "x @ u < x @ v \<longleftrightarrow> u < v" for x u v :: string by (simp add: list_less_append_same)
  show ?thesis
    unfolding rfc3339_def Let_def c prod.case
    using lex hms_less [of ?s ?t]
    by (intro pad_append_less bnd tb) (auto intro!: pad_append_less bnd tb simp: sep)
qed

lemma pad_2: "n < 100 \<Longrightarrow> pad 2 n = [digit_char (n div 10), digit_char n]"
proof -
  assume "n < 100"
  then have "n div 10 div 10 = 0" by (simp add: div_mult2_eq [symmetric])
  then show ?thesis by (simp only: numeral_2_eq_2 pad.simps simp_thms if_True append_Nil append_Cons)
qed

lemma pad_4: "n < 10000 \<Longrightarrow> pad 4 n =
    [digit_char (n div 1000), digit_char (n div 100), digit_char (n div 10), digit_char n]"
proof -
  assume "n < 10000"
  have four: "(4 :: nat) = Suc (Suc (Suc (Suc 0)))" by simp
  have d: "n div 10 div 10 = n div 100" "n div 100 div 10 = n div 1000"
    by (simp_all add: div_mult2_eq [symmetric])
  have "n div 1000 div 10 = 0" using \<open>n < 10000\<close> by (simp add: div_mult2_eq [symmetric])
  then show ?thesis by (simp only: four d pad.simps simp_thms if_True append_Nil append_Cons)
qed

lemmas rfc3339_eval = rfc3339_def civil_def year_of.simps year_days_def leap_year_def
  month_days_def pad_2 pad_4

lemma rfc3339_epoch_example: "rfc3339 1700000000 = ''2023-11-14T22:13:20Z''"
  by (simp add: rfc3339_eval)

end
