(* ===== verification/TerminalStore.thy ===== *)
theory TerminalStore
  imports Schema Json Rfc3339
begin

text \<open>
  \<open>store/terminal.go\<close>: the terminals table. Every operation takes the Unix second that
  \<open>time.Now()\<close> read, where the code reads it. The locale \<open>blocklist\<close> is the contract the server
  relies on for its admission check; it is interpreted on the SQLite operations.
\<close>

record Terminal =
  tm_session :: string
  tm_device :: string
  tm_hostname :: string
  tm_os :: string
  tm_os_version :: string
  tm_kernel :: string
  tm_client :: string
  tm_online :: bool
  tm_blocked :: bool
  tm_last_heartbeat :: string
  tm_last_seen :: string
  tm_first_seen :: string

definition nullStr :: "string option \<Rightarrow> string" where
  "nullStr ns = (case ns of Some s \<Rightarrow> s | None \<Rightarrow> [])"

definition nowUTC :: "nat \<Rightarrow> string" where
  "nowUTC now = rfc3339 now"

definition scanTerminal :: "terminal_row \<Rightarrow> Terminal" where
  "scanTerminal r = \<lparr>tm_session = t_session r, tm_device = t_device r, tm_hostname = t_hostname r,
     tm_os = t_os r, tm_os_version = t_os_version r, tm_kernel = t_kernel r, tm_client = t_client r,
     tm_online = t_online r, tm_blocked = t_blocked r,
     tm_last_heartbeat = nullStr (t_last_heartbeat r),
     tm_last_seen = nullStr (Some (t_last_seen r)),
     tm_first_seen = nullStr (Some (t_first_seen r))\<rparr>"

section \<open>Operations\<close>

text \<open>The columns that \<open>ON CONFLICT(session_id) DO UPDATE\<close> takes from the excluded row.\<close>

definition conflict_update :: "terminal_row \<Rightarrow> terminal_row \<Rightarrow> terminal_row" where
  "conflict_update ex r = r\<lparr>t_device := t_device ex, t_hostname := t_hostname ex, t_os := t_os ex,
     t_os_version := t_os_version ex, t_kernel := t_kernel ex, t_client := t_client ex,
     t_macs := t_macs ex, t_ips := t_ips ex, t_last_seen := t_last_seen ex\<rparr>"

definition upsert_row :: "terminal_row \<Rightarrow> terminal_row list \<Rightarrow> terminal_row list" where
  "upsert_row ex rows =
     (if t_session ex \<in> t_session ` set rows
      then map (\<lambda>r. if t_session r = t_session ex then conflict_update ex r else r) rows
      else rows @ [ex])"

definition UpsertTerminal ::
  "nat \<Rightarrow> string \<Rightarrow> string \<Rightarrow> string \<Rightarrow> string \<Rightarrow> string \<Rightarrow> string \<Rightarrow> string \<Rightarrow>
   string list \<Rightarrow> string list \<Rightarrow> db \<Rightarrow> (store_error + unit) \<times> db" where
  "UpsertTerminal now sessionID deviceID hostname os osVersion kernelVersion clientVersion
     macAddrs ipAddrs d =
     (let n = rfc3339 now;
          row = \<lparr>t_session = sessionID, t_device = deviceID, t_hostname = hostname, t_os = os,
             t_os_version = osVersion, t_kernel = kernelVersion, t_client = clientVersion,
             t_macs = marshalJSONArray macAddrs, t_ips = marshalJSONArray ipAddrs,
             t_first_seen = n, t_last_seen = n, t_last_heartbeat = None,
             t_online = False, t_blocked = False\<rparr>
      in exec_op (''upsert terminal '' @ sessionID)
           (\<lambda>d. d\<lparr>terminals := upsert_row row (terminals d)\<rparr>) d)"

text \<open>\<open>UPDATE terminals SET ... WHERE ...\<close>.\<close>

definition update_terminals ::
  "(terminal_row \<Rightarrow> bool) \<Rightarrow> (terminal_row \<Rightarrow> terminal_row) \<Rightarrow> db \<Rightarrow> db" where
  "update_terminals P f d = d\<lparr>terminals := map (\<lambda>r. if P r then f r else r) (terminals d)\<rparr>"

definition UpdateHeartbeat :: "nat \<Rightarrow> string \<Rightarrow> db \<Rightarrow> (store_error + unit) \<times> db" where
  "UpdateHeartbeat now sessionID =
     exec_op (''update heartbeat '' @ sessionID)
       (update_terminals (\<lambda>r. t_session r = sessionID)
          (\<lambda>r. r\<lparr>t_last_heartbeat := Some (nowUTC now), t_online := True\<rparr>))"

definition MarkOffline :: "string \<Rightarrow> db \<Rightarrow> (store_error + unit) \<times> db" where
  "MarkOffline sessionID =
     exec_op (''mark offline '' @ sessionID)
       (update_terminals (\<lambda>r. t_session r = sessionID) (\<lambda>r. r\<lparr>t_online := False\<rparr>))"

text \<open>\<open>QueryRow(...)\<close> followed by \<open>scanTerminal\<close>: the first row of the result, or \<open>ErrNoRows\<close>.\<close>

definition query_terminal ::
  "(db \<Rightarrow> terminal_row list) \<Rightarrow> db \<Rightarrow> (store_error + Terminal) \<times> db" where
  "query_terminal sel d = (case sql_exec (\<lambda>d. Inr (sel d, d)) d of
      (Inl e, d') \<Rightarrow> (Inl (StoreErr e), d')
    | (Inr [], d') \<Rightarrow> (Inl ErrNoRows, d')
    | (Inr (r # _), d') \<Rightarrow> (Inr (scanTerminal r), d'))"

definition GetTerminal :: "string \<Rightarrow> db \<Rightarrow> (store_error + Terminal) \<times> db" where
  "GetTerminal sessionID =
     query_terminal (\<lambda>d. filter (\<lambda>r. t_session r = sessionID) (terminals d))"

definition GetTerminalByDevice :: "string \<Rightarrow> db \<Rightarrow> (store_error + Terminal) \<times> db" where
  "GetTerminalByDevice deviceID =
     query_terminal (\<lambda>d. sql_limit 1
       (order_desc (eng_order (db_engine d)) t_last_seen
          (filter (\<lambda>r. t_device r = deviceID) (terminals d))))"

text \<open>The rows with \<open>rn = 1\<close> of \<open>latestExpr\<close>, and the optional \<open>AND online = ?\<close>.\<close>

definition latest_rows :: "bool option \<Rightarrow> db \<Rightarrow> terminal_row list" where
  "latest_rows online d =
     filter (\<lambda>r. case online of None \<Rightarrow> True | Some b \<Rightarrow> t_online r = b)
       (first_per_partition (eng_order (db_engine d)) t_device t_last_seen (terminals d))"

definition clamp_offset :: "int \<Rightarrow> int" where
  "clamp_offset k = (if k < 0 then 0 else k)"

definition clamp_limit :: "int \<Rightarrow> int" where
  "clamp_limit l = (if l \<le> 0 \<or> 500 < l then 50 else l)"

definition ListTerminals ::
  "bool option \<Rightarrow> int \<Rightarrow> int \<Rightarrow> db \<Rightarrow> (store_error + (Terminal list \<times> nat)) \<times> db" where
  "ListTerminals online off lim d =
     (case sql_exec (\<lambda>d. Inr (length (latest_rows online d), d)) d of
        (Inl e, d1) \<Rightarrow> (Inl (wrap_err ''count terminals'' e), d1)
      | (Inr n, d1) \<Rightarrow>
          (case sql_query (\<lambda>d. Inr (sql_limit (clamp_limit lim) (sql_offset (clamp_offset off)
                   (order_desc (eng_order (db_engine d)) t_last_seen (latest_rows online d))))) d1 of
             (Inl e, d2) \<Rightarrow> (Inl (wrap_err ''list terminals'' e), d2)
           | (Inr (_, Some e), d2) \<Rightarrow> (Inl (wrap_err ''iterate terminals'' e), d2)
           | (Inr (rs, None), d2) \<Rightarrow> (Inr (map scanTerminal rs, n), d2)))"

definition MarkBlocked :: "string \<Rightarrow> db \<Rightarrow> (store_error + unit) \<times> db" where
  "MarkBlocked deviceID =
     exec_op (''block device '' @ deviceID)
       (update_terminals (\<lambda>r. t_device r = deviceID) (\<lambda>r. r\<lparr>t_blocked := True\<rparr>))"

definition UnblockTerminal :: "string \<Rightarrow> db \<Rightarrow> (store_error + unit) \<times> db" where
  "UnblockTerminal deviceID =
     exec_op (''unblock device '' @ deviceID)
       (update_terminals (\<lambda>r. t_device r = deviceID) (\<lambda>r. r\<lparr>t_blocked := False\<rparr>))"

definition IsDeviceBlocked :: "string \<Rightarrow> db \<Rightarrow> (store_error + bool) \<times> db" where
  "IsDeviceBlocked deviceID d =
     (case sql_exec (\<lambda>d. Inr (length (filter (\<lambda>r. t_device r = deviceID \<and> t_blocked r)
                                       (terminals d)), d)) d of
        (Inl e, d') \<Rightarrow> (Inl (wrap_err (''check blocked device '' @ deviceID) e), d')
      | (Inr n, d') \<Rightarrow> (Inr (0 < n), d'))"

lemmas terminal_ops = UpsertTerminal_def UpdateHeartbeat_def MarkOffline_def GetTerminal_def
  GetTerminalByDevice_def MarkBlocked_def UnblockTerminal_def IsDeviceBlocked_def

section \<open>Updates and keys\<close>

lemma map_update_keys:
  "(\<And>r. key (f r) = key r) \<Longrightarrow> map (\<lambda>r. key (if P r then f r else r)) rows = map key rows"
  by simp

lemma update_terminals_wf:
  "(\<And>r. t_session (f r) = t_session r) \<Longrightarrow> db_wf (update_terminals P f d) = db_wf d"
  by (simp add: db_wf_def keys_ok_def refs_ok_def update_terminals_def o_def map_update_keys)

lemma conflict_update_session [simp]: "t_session (conflict_update ex r) = t_session r"
  by (simp add: conflict_update_def)

lemma upsert_row_keys:
  "map t_session (upsert_row ex rows) =
   (if t_session ex \<in> t_session ` set rows then map t_session rows
    else map t_session rows @ [t_session ex])"
  by (simp add: upsert_row_def o_def map_update_keys)

lemma upsert_row_distinct:
  "distinct (map t_session rows) \<Longrightarrow> distinct (map t_session (upsert_row ex rows))"
  by (auto simp: upsert_row_keys)

lemma upsert_row_wf:
  "db_wf d \<Longrightarrow> db_wf (d\<lparr>terminals := upsert_row ex (terminals d)\<rparr>)"
  by (simp add: db_wf_def keys_ok_def refs_ok_def upsert_row_distinct)

lemma exec_op_wf:
  assumes "exec_op ctx upd d = (r, d')" "db_wf d" "\<And>d. db_wf d \<Longrightarrow> db_wf (upd d)"
  shows "db_wf d'"
  using assms(1)
proof (cases rule: exec_op_cases)
  case (1 d1 e) then show ?thesis using assms(2) by (simp add: same_tables_wf)
next
  case (2 d1) then show ?thesis using assms(2,3) by (simp add: same_tables_wf)
qed

lemma UpsertTerminal_wf:
  "UpsertTerminal n a b c e f g h i j d = (r, d') \<Longrightarrow> db_wf d \<Longrightarrow> db_wf d'"
  unfolding UpsertTerminal_def Let_def by (erule exec_op_wf) (simp_all add: upsert_row_wf)

lemma UpdateHeartbeat_wf: "UpdateHeartbeat n s d = (r, d') \<Longrightarrow> db_wf d \<Longrightarrow> db_wf d'"
  unfolding UpdateHeartbeat_def by (erule exec_op_wf) (simp_all add: update_terminals_wf)

lemma MarkOffline_wf: "MarkOffline s d = (r, d') \<Longrightarrow> db_wf d \<Longrightarrow> db_wf d'"
  unfolding MarkOffline_def by (erule exec_op_wf) (simp_all add: update_terminals_wf)

lemma MarkBlocked_wf: "MarkBlocked v d = (r, d') \<Longrightarrow> db_wf d \<Longrightarrow> db_wf d'"
  unfolding MarkBlocked_def by (erule exec_op_wf) (simp_all add: update_terminals_wf)

lemma UnblockTerminal_wf: "UnblockTerminal v d = (r, d') \<Longrightarrow> db_wf d \<Longrightarrow> db_wf d'"
  unfolding UnblockTerminal_def by (erule exec_op_wf) (simp_all add: update_terminals_wf)

lemmas terminal_write_wf =
  UpsertTerminal_wf UpdateHeartbeat_wf MarkOffline_wf MarkBlocked_wf UnblockTerminal_wf

text \<open>The reads leave the tables alone.\<close>

lemma sql_exec_read: "sql_exec (\<lambda>d. Inr (f d, d)) d = (r, d') \<Longrightarrow> same_tables d d'"
  by (erule sql_exec_cases) auto

lemma query_terminal_same: "query_terminal sel d = (r, d') \<Longrightarrow> same_tables d d'"
  by (auto simp: query_terminal_def dest: sql_exec_read split: prod.splits sum.splits list.splits)

lemma GetTerminal_same: "GetTerminal s d = (r, d') \<Longrightarrow> same_tables d d'"
  by (simp add: GetTerminal_def query_terminal_same)

lemma GetTerminalByDevice_same: "GetTerminalByDevice s d = (r, d') \<Longrightarrow> same_tables d d'"
  by (simp add: GetTerminalByDevice_def query_terminal_same)

lemma IsDeviceBlocked_same: "IsDeviceBlocked v d = (r, d') \<Longrightarrow> same_tables d d'"
  by (auto simp: IsDeviceBlocked_def dest: sql_exec_read split: prod.splits sum.splits)

lemma ListTerminals_same: "ListTerminals f k l d = (r, d') \<Longrightarrow> same_tables d d'"
  by (auto simp: ListTerminals_def dest!: sql_exec_read sql_query_same
      split: prod.splits sum.splits option.splits intro: same_tables_trans)

lemmas terminal_read_same =
  GetTerminal_same GetTerminalByDevice_same IsDeviceBlocked_same ListTerminals_same

section \<open>What the operations do on an engine that does not fail\<close>

lemma query_terminal_works:
  "db_verdicts d = [] \<Longrightarrow> query_terminal sel d =
     ((case sel d of [] \<Rightarrow> Inl ErrNoRows | r # _ \<Rightarrow> Inr (scanTerminal r)), d)"
  by (simp add: query_terminal_def split: list.splits)

lemma GetTerminal_found:
  "db_verdicts d = [] \<Longrightarrow> keys_ok d \<Longrightarrow> r \<in> set (terminals d) \<Longrightarrow>
   GetTerminal (t_session r) d = (Inr (scanTerminal r), d)"
  by (simp add: GetTerminal_def query_terminal_works filter_key_unique keys_ok_def)

lemma GetTerminal_missing:
  "db_verdicts d = [] \<Longrightarrow> s \<notin> t_session ` set (terminals d) \<Longrightarrow>
   GetTerminal s d = (Inl ErrNoRows, d)"
  by (simp add: GetTerminal_def query_terminal_works filter_key_none)

lemma update_terminals_simps [simp]:
  "db_verdicts (update_terminals P f d) = db_verdicts d"
  "db_engine (update_terminals P f d) = db_engine d"
  "terminals (update_terminals P f d) = map (\<lambda>r. if P r then f r else r) (terminals d)"
  by (simp_all add: update_terminals_def)

text \<open>The row that an upsert leaves for its session.\<close>

definition upserted :: "terminal_row \<Rightarrow> terminal_row list \<Rightarrow> terminal_row" where
  "upserted ex rows = (case filter (\<lambda>r. t_session r = t_session ex) rows of
      [] \<Rightarrow> ex | r # _ \<Rightarrow> conflict_update ex r)"

lemma upsert_row_mem:
  assumes "distinct (map t_session rows)"
  shows "upserted ex rows \<in> set (upsert_row ex rows)" "t_session (upserted ex rows) = t_session ex"
proof -
  show "upserted ex rows \<in> set (upsert_row ex rows)"
  proof (cases "t_session ex \<in> t_session ` set rows")
    case True
    then obtain r where "r \<in> set rows" "t_session ex = t_session r" by auto
    then show ?thesis using filter_key_unique [OF assms, of r]
      by (force simp: upserted_def upsert_row_def)
  next
    case False
    then show ?thesis by (simp add: upserted_def upsert_row_def filter_key_none)
  qed
  show "t_session (upserted ex rows) = t_session ex"
    by (auto simp: upserted_def split: list.splits dest: filter_eq_ConsD)
qed

lemma upsert_row_other:
  "t_session r \<noteq> t_session ex \<Longrightarrow> r \<in> set (upsert_row ex rows) \<longleftrightarrow> r \<in> set rows"
  by (force simp: upsert_row_def)

section \<open>The blocklist contract\<close>

text \<open>
  What the admission check of \<open>Register\<close> and the operator's commands rely on: after blocking a
  device it is blocked, after unblocking it is not, other devices are not affected, and what
  happens to sessions of other kinds keeps it. \<open>known\<close> says whether the store has the device.
\<close>

primrec operate :: "(string \<Rightarrow> 's \<Rightarrow> 's) \<Rightarrow> (string \<Rightarrow> 's \<Rightarrow> 's) \<Rightarrow> (bool \<times> string) list \<Rightarrow> 's \<Rightarrow> 's"
where
  "operate bl un [] s = s"
| "operate bl un (x # xs) s = operate bl un xs (if fst x then bl (snd x) s else un (snd x) s)"

locale blocklist =
  fixes ok :: "'s \<Rightarrow> bool"
    and known :: "'s \<Rightarrow> string \<Rightarrow> bool"
    and block unblock :: "string \<Rightarrow> 's \<Rightarrow> 's"
    and blocked :: "string \<Rightarrow> 's \<Rightarrow> bool"
  assumes ok_block: "ok s \<Longrightarrow> ok (block v s)"
    and ok_unblock: "ok s \<Longrightarrow> ok (unblock v s)"
    and known_block: "ok s \<Longrightarrow> known (block v s) w = known s w"
    and known_unblock: "ok s \<Longrightarrow> known (unblock v s) w = known s w"
    and blocked_known: "ok s \<Longrightarrow> blocked v s \<Longrightarrow> known s v"
    and blocked_block: "ok s \<Longrightarrow> blocked w (block v s) = (if v = w then known s v else blocked w s)"
    and blocked_unblock: "ok s \<Longrightarrow> blocked w (unblock v s) = (v \<noteq> w \<and> blocked w s)"
begin

text \<open>The last command about a device decides, whatever came before and between.\<close>

lemma operate_ok: "ok s \<Longrightarrow> ok (operate block unblock xs s) \<and> known (operate block unblock xs s) = known s"
  by (induction xs arbitrary: s) (auto simp: ok_block ok_unblock known_block known_unblock)

lemma last_command_decides:
  assumes "ok s" "\<forall>x \<in> set ys. snd x \<noteq> v"
  shows "blocked v (operate block unblock (xs @ (b, v) # ys) s) \<longleftrightarrow> b \<and> known s v"
proof -
  have rest: "blocked v (operate block unblock ys s) = blocked v s" if "ok s" for s
    using that assms(2)
    by (induction ys arbitrary: s) (auto simp: ok_block ok_unblock blocked_block blocked_unblock)
  have app: "operate block unblock (xs @ zs) s = operate block unblock zs (operate block unblock xs s)" for zs s
    by (induction xs arbitrary: s) auto
  let ?s = "operate block unblock xs s"
  have "ok ?s" "known ?s = known s" using operate_ok assms(1) by auto
  then show ?thesis
    by (simp add: app rest ok_block ok_unblock blocked_block blocked_unblock)
qed

lemma untouched_device:
  assumes "ok s" "\<forall>x \<in> set xs. snd x \<noteq> v"
  shows "blocked v (operate block unblock xs s) = blocked v s"
  using assms
  by (induction xs arbitrary: s) (auto simp: ok_block ok_unblock blocked_block blocked_unblock)

end

definition has_device :: "db \<Rightarrow> string \<Rightarrow> bool" where
  "has_device d v \<longleftrightarrow> v \<in> t_device ` set (terminals d)"

definition no_faults :: "db \<Rightarrow> bool" where
  "no_faults d \<longleftrightarrow> db_verdicts d = []"

definition device_blocked :: "string \<Rightarrow> db \<Rightarrow> bool" where
  "device_blocked v d \<longleftrightarrow> fst (IsDeviceBlocked v d) = Inr True"

lemma device_blocked_iff:
  "no_faults d \<Longrightarrow> device_blocked v d \<longleftrightarrow> (\<exists>r \<in> set (terminals d). t_device r = v \<and> t_blocked r)"
  by (auto simp: device_blocked_def IsDeviceBlocked_def no_faults_def filter_empty_conv)

lemma block_effect:
  assumes "no_faults d"
  shows "MarkBlocked v d = (Inr (),
      update_terminals (\<lambda>r. t_device r = v) (\<lambda>r. r\<lparr>t_blocked := True\<rparr>) d)"
    and "UnblockTerminal v d = (Inr (),
      update_terminals (\<lambda>r. t_device r = v) (\<lambda>r. r\<lparr>t_blocked := False\<rparr>) d)"
  using assms by (simp_all add: no_faults_def MarkBlocked_def UnblockTerminal_def)

lemma no_faults_update [simp]: "no_faults (update_terminals P f d) = no_faults d"
  by (simp add: no_faults_def)

lemma has_device_update:
  assumes "\<And>r. t_device (f r) = t_device r"
  shows "has_device (update_terminals P f d) w = has_device d w"
proof -
  have "map t_device (terminals (update_terminals P f d)) = map t_device (terminals d)"
    by (simp add: o_def map_update_keys assms)
  then show ?thesis by (metis has_device_def set_map)
qed

lemma device_blocked_update:
  assumes "no_faults d" "\<And>r. t_device (f r) = t_device r"
  shows "device_blocked w (update_terminals (\<lambda>r. t_device r = v) f d) \<longleftrightarrow>
    (\<exists>r \<in> set (terminals d). t_device r = w \<and> (if v = w then t_blocked (f r) else t_blocked r))"
  using assms by (auto simp: device_blocked_iff)

interpretation sqlite_blocklist: blocklist no_faults has_device
  "\<lambda>v d. snd (MarkBlocked v d)" "\<lambda>v d. snd (UnblockTerminal v d)" device_blocked
proof unfold_locales
  fix d v w assume d: "no_faults d"
  show "no_faults (snd (MarkBlocked v d))" "no_faults (snd (UnblockTerminal v d))"
    "has_device (snd (MarkBlocked v d)) w = has_device d w"
    "has_device (snd (UnblockTerminal v d)) w = has_device d w"
    using d by (simp_all add: block_effect has_device_update)
  show "device_blocked w (snd (UnblockTerminal v d)) = (v \<noteq> w \<and> device_blocked w d)"
    using d by (auto simp: block_effect device_blocked_update) (auto simp: device_blocked_iff)
  show "device_blocked v d \<Longrightarrow> has_device d v"
    using d by (auto simp: device_blocked_iff has_device_def)
  show "device_blocked w (snd (MarkBlocked v d)) =
      (if v = w then has_device d v else device_blocked w d)"
    using d by (simp add: block_effect device_blocked_update)
      (auto simp: device_blocked_iff has_device_def image_iff)
qed

section \<open>Listing\<close>

text \<open>All rows a listing draws its pages from, in their order.\<close>

definition listing :: "bool option \<Rightarrow> db \<Rightarrow> Terminal list" where
  "listing online d =
     map scanTerminal (order_desc (eng_order (db_engine d)) t_last_seen (latest_rows online d))"

lemma clamp_limit_range: "1 \<le> clamp_limit l" "clamp_limit l \<le> 500"
  by (auto simp: clamp_limit_def)

lemma ListTerminals_works:
  "no_faults d \<Longrightarrow> ListTerminals online off lim d =
     (Inr (take (nat (clamp_limit lim)) (drop (nat (clamp_offset off)) (listing online d)),
           length (latest_rows online d)), d)"
  using clamp_limit_range [of lim]
  by (simp add: ListTerminals_def no_faults_def listing_def sql_limit_def sql_offset_def
      take_map drop_map)

context desc_sorter
begin

lemma latest_rows_spec:
  assumes "eng_order (db_engine d) = ord"
  shows "r \<in> set (latest_rows online d) \<Longrightarrow> r \<in> set (terminals d)"
    and "r \<in> set (latest_rows online d) \<Longrightarrow> s \<in> set (terminals d) \<Longrightarrow>
      t_device s = t_device r \<Longrightarrow> t_last_seen s \<le> t_last_seen r"
    and "r \<in> set (latest_rows (Some b) d) \<Longrightarrow> t_online r = b"
    and "distinct (map t_device (latest_rows online d))"
    and "map t_device (latest_rows None d) = remdups (map t_device (terminals d))"
  using assms set_partition partition_keys [of t_device t_last_seen "terminals d"]
  by (auto simp: latest_rows_def intro: distinct_map_filter)

lemma listing_spec:
  assumes "eng_order (db_engine d) = ord"
  shows "length (listing online d) = length (latest_rows online d)"
    and "distinct (map tm_device (listing online d))"
    and "sorted_wrt (\<lambda>t u. tm_last_seen u \<le> tm_last_seen t) (listing online d)"
    and "set (listing online d) = scanTerminal ` set (latest_rows online d)"
proof -
  have o: "tm_device o scanTerminal = t_device"
    "tm_last_seen (scanTerminal r) = t_last_seen r" for r
    by (auto simp: scanTerminal_def nullStr_def fun_eq_iff)
  show "length (listing online d) = length (latest_rows online d)"
    and "set (listing online d) = scanTerminal ` set (latest_rows online d)"
    by (simp_all add: listing_def assms)
  show "distinct (map tm_device (listing online d))"
    by (simp add: listing_def assms o distinct_order latest_rows_spec(4))
  show "sorted_wrt (\<lambda>t u. tm_last_seen u \<le> tm_last_seen t) (listing online d)"
    by (simp add: listing_def assms sorted_wrt_map o sorted_order)
qed

lemma by_device_spec:
  assumes "eng_order (db_engine d) = ord" "no_faults d" "has_device d v"
  shows "\<exists>r \<in> set (terminals d). GetTerminalByDevice v d = (Inr (scanTerminal r), d) \<and>
    t_device r = v \<and> (\<forall>s \<in> set (terminals d). t_device s = v \<longrightarrow> t_last_seen s \<le> t_last_seen r)"
proof -
  let ?rows = "filter (\<lambda>r. t_device r = v) (terminals d)"
  have ne: "?rows \<noteq> []" using assms(3) by (auto simp: has_device_def filter_empty_conv)
  then obtain r rs where rs: "order_desc ord t_last_seen ?rows = r # rs"
    by (metis order_empty neq_Nil_conv)
  then have r: "r = hd (order_desc ord t_last_seen ?rows)" by simp
  have g: "GetTerminalByDevice v d = (Inr (scanTerminal r), d)"
    using assms rs
    by (simp add: GetTerminalByDevice_def query_terminal_works no_faults_def sql_limit_def)
  have "r \<in> set ?rows" using hd_order(1) [OF ne] r by metis
  moreover have "t_last_seen s \<le> t_last_seen r" if "s \<in> set ?rows" for s
    using hd_order(2) [OF ne that] r by metis
  ultimately show ?thesis using g by auto
qed

lemma by_device_missing:
  assumes "eng_order (db_engine d) = ord" "no_faults d" "\<not> has_device d v"
  shows "GetTerminalByDevice v d = (Inl ErrNoRows, d)"
  using assms
  by (simp add: GetTerminalByDevice_def query_terminal_works no_faults_def sql_limit_def
      filter_key_none has_device_def)

end

text \<open>Without ties in the times the listing is the same for every engine.\<close>

lemma listing_unique:
  assumes "desc_sorter (eng_order (db_engine d))" "desc_sorter (eng_order e)" "distinct (map t_last_seen (terminals d))"
  shows "listing online (d\<lparr>db_engine := e\<rparr>) = listing online d"
proof -
  have l: "latest_rows online (d\<lparr>db_engine := e\<rparr>) = latest_rows online d"
    using first_per_partition_unique [OF assms] by (simp add: latest_rows_def)
  have "distinct (map t_last_seen (latest_rows online d))"
    using partition_distinct [OF assms(1,3)] by (simp add: latest_rows_def distinct_map_filter)
  from order_desc_unique [OF assms(1,2) this] show ?thesis by (simp add: listing_def l)
qed

end
