(* ===== verification/CommandStore.thy ===== *)
theory CommandStore
  imports TerminalStore
begin

text \<open>
  \<open>store/command.go\<close>: the command log. A row's \<open>status\<close> moves through the operations below; the
  map \<open>statuses\<close> is the abstract view of the table, and each operation is shown to implement
  its abstract counterpart. \<open>GetCommandLog\<close> yields \<open>None\<close> where reading a row panics.
\<close>

record log_entry =
  le_command :: string
  le_session :: string
  le_device :: string
  le_type :: command_type
  le_params :: "(string \<times> string) list"
  le_status :: string
  le_exit :: int32
  le_stdout :: string
  le_stderr :: string
  le_error :: string
  le_created :: string
  le_started :: string
  le_finished :: string

section \<open>Operations\<close>

definition cmdTypeName :: "command_type \<Rightarrow> string" where
  "cmdTypeName t = (case map_of CommandType_name t of
      Some name \<Rightarrow> name
    | None \<Rightarrow> ''COMMAND_TYPE_UNSPECIFIED_'' @ show_int (sint t))"

definition parseCommandType :: "string \<Rightarrow> command_type" where
  "parseCommandType name = (case map_of CommandType_value name of
      Some v \<Rightarrow> v | None \<Rightarrow> ct_unspecified)"

definition SaveCommandLog ::
  "nat \<Rightarrow> string \<Rightarrow> string \<Rightarrow> string \<Rightarrow> command_type \<Rightarrow> (string \<times> string) list \<Rightarrow> db \<Rightarrow>
   (store_error + unit) \<times> db" where
  "SaveCommandLog now commandID sessionID deviceID cmdType params d =
     (let row = \<lparr>c_command = commandID, c_session = sessionID, c_type = cmdTypeName cmdType,
            c_params = marshalJSONMap params, c_status = ''Pending'', c_exit = None,
            c_stdout = [], c_stderr = [], c_error = [], c_created = rfc3339 now,
            c_started = None, c_finished = None\<rparr>
      in case sql_exec (\<lambda>d. if commandID \<in> c_command ` set (commands d)
                then Inl (eng_unique (db_engine d) ''command_logs.command_id'')
                else Inr ((), d\<lparr>commands := commands d @ [row]\<rparr>)) d of
          (Inl e, d') \<Rightarrow> (Inl (wrap_err (''save command log '' @ commandID) e), d')
        | (Inr _, d') \<Rightarrow> (Inr (), d'))"

text \<open>\<open>UPDATE command_logs SET ... WHERE ...\<close>.\<close>

definition update_commands ::
  "(command_row \<Rightarrow> bool) \<Rightarrow> (command_row \<Rightarrow> command_row) \<Rightarrow> db \<Rightarrow> db" where
  "update_commands P f d = d\<lparr>commands := map (\<lambda>r. if P r then f r else r) (commands d)\<rparr>"

definition opt_text :: "string \<Rightarrow> string option" where
  "opt_text s = (if s \<noteq> [] then Some s else None)"

definition UpdateCommandResult ::
  "string \<Rightarrow> string \<Rightarrow> int32 \<Rightarrow> string \<Rightarrow> string \<Rightarrow> string \<Rightarrow> string \<Rightarrow> string \<Rightarrow> db \<Rightarrow>
   (store_error + unit) \<times> db" where
  "UpdateCommandResult commandID status exitCode out err errorMsg startedAt finishedAt =
     exec_op (''update command result '' @ commandID)
       (update_commands (\<lambda>r. c_command r = commandID)
          (\<lambda>r. r\<lparr>c_status := status, c_exit := Some exitCode, c_stdout := out, c_stderr := err,
                 c_error := errorMsg, c_started := opt_text startedAt,
                 c_finished := opt_text finishedAt\<rparr>))"

definition UpdateCommandStatus :: "string \<Rightarrow> string \<Rightarrow> db \<Rightarrow> (store_error + unit) \<times> db" where
  "UpdateCommandStatus commandID status =
     exec_op (''update command status '' @ commandID)
       (update_commands (\<lambda>r. c_command r = commandID) (\<lambda>r. r\<lparr>c_status := status\<rparr>))"

definition open_statuses :: "string list" where
  "open_statuses = [''Pending'', ''Sent'', ''Executing'']"

definition MarkCommandTimeout :: "nat \<Rightarrow> string \<Rightarrow> db \<Rightarrow> (store_error + unit) \<times> db" where
  "MarkCommandTimeout now commandID =
     exec_op (''mark command timeout '' @ commandID)
       (update_commands (\<lambda>r. c_command r = commandID \<and> c_status r \<in> set open_statuses)
          (\<lambda>r. r\<lparr>c_status := ''Timeout'', c_error := ''command timed out'',
                 c_finished := Some (nowUTC now)\<rparr>))"

text \<open>The \<open>LEFT JOIN\<close> on the session, whose key makes the match unique.\<close>

definition join_terminals :: "db \<Rightarrow> (command_row \<times> terminal_row option) list" where
  "join_terminals d =
     map (\<lambda>c. (c, find (\<lambda>t. t_session t = c_session c) (terminals d))) (commands d)"

datatype log_where = AllRows | WhereSession | WhereDevice

definition log_where_holds :: "log_where \<Rightarrow> sql_value list \<Rightarrow> command_row \<times> terminal_row option \<Rightarrow> bool"
where
  "log_where_holds w vs p = (case w of
      AllRows \<Rightarrow> True
    | WhereSession \<Rightarrow> text_eq (hd vs) (c_session (fst p))
    | WhereDevice \<Rightarrow> (case snd p of None \<Rightarrow> False | Some t \<Rightarrow> text_eq (hd vs) (t_device t)))"

definition scan_entry :: "command_row \<times> terminal_row option \<Rightarrow> log_entry option" where
  "scan_entry p = (case p of (c, t) \<Rightarrow>
     (case unmarshalJSONMap (c_params c) of
        None \<Rightarrow> None
      | Some params \<Rightarrow> Some \<lparr>le_command = c_command c, le_session = c_session c,
          le_device = (case t of None \<Rightarrow> [] | Some r \<Rightarrow> t_device r),
          le_type = parseCommandType (c_type c), le_params = params, le_status = c_status c,
          le_exit = (case c_exit c of Some n \<Rightarrow> n | None \<Rightarrow> 0), le_stdout = c_stdout c,
          le_stderr = c_stderr c, le_error = c_error c, le_created = c_created c,
          le_started = nullStr (c_started c), le_finished = nullStr (c_finished c)\<rparr>))"

fun scan_all :: "('r \<Rightarrow> 'a option) \<Rightarrow> 'r list \<Rightarrow> 'a list option" where
  "scan_all f [] = Some []"
| "scan_all f (r # rs) = (case f r of None \<Rightarrow> None | Some a \<Rightarrow> map_option ((#) a) (scan_all f rs))"

text \<open>
  The \<open>where\<close> string and the argument list as the two \<open>if\<close>s build them: the second one replaces
  the string, but appends to the arguments.
\<close>

definition log_query_where :: "string \<Rightarrow> string \<Rightarrow> log_where" where
  "log_query_where deviceID sessionID =
     (if deviceID \<noteq> [] then WhereDevice else if sessionID \<noteq> [] then WhereSession else AllRows)"

definition log_query_args :: "string \<Rightarrow> string \<Rightarrow> int \<Rightarrow> sql_value list" where
  "log_query_args deviceID sessionID limit =
     (if sessionID \<noteq> [] then [SText sessionID] else []) @
     (if deviceID \<noteq> [] then [SText deviceID] else []) @ [SInt limit]"

definition log_placeholders :: "log_where \<Rightarrow> nat" where
  "log_placeholders w = (if w = AllRows then 1 else 2)"

definition log_limit :: "int \<Rightarrow> int" where
  "log_limit l = (if l \<le> 0 \<or> 200 < l then 50 else l)"

definition GetCommandLog ::
  "string \<Rightarrow> string \<Rightarrow> int \<Rightarrow> db \<Rightarrow> (store_error + log_entry list) option \<times> db" where
  "GetCommandLog deviceID sessionID lim d =
     (let w = log_query_where deviceID sessionID;
          args = log_query_args deviceID sessionID (log_limit lim)
      in case sql_query (\<lambda>d. case eng_bind (db_engine d) (log_placeholders w) args of
             Inl e \<Rightarrow> Inl e
           | Inr vs \<Rightarrow> (case limit_value (db_engine d) (last vs) of
               Inl e \<Rightarrow> Inl e
             | Inr l \<Rightarrow> Inr (sql_limit l (order_desc (eng_order (db_engine d)) (c_created o fst)
                 (filter (log_where_holds w vs) (join_terminals d)))))) d of
          (Inl e, d') \<Rightarrow> (Some (Inl (wrap_err ''get command logs'' e)), d')
        | (Inr (rs, er), d') \<Rightarrow>
            (case scan_all scan_entry rs of
               None \<Rightarrow> (None, d')
             | Some es \<Rightarrow> (case er of
                 Some e \<Rightarrow> (Some (Inl (wrap_err ''iterate command logs'' e)), d')
               | None \<Rightarrow> (Some (Inr es), d'))))"

section \<open>Command types\<close>

definition known_type :: "command_type \<Rightarrow> bool" where
  "known_type t \<longleftrightarrow> t \<in> set (map fst CommandType_name)"

interpretation type_codec: codec known_type cmdTypeName "\<lambda>s. Some (parseCommandType s)"
  by unfold_locales
    (auto simp: known_type_def cmdTypeName_def parseCommandType_def CommandType_name_def
      CommandType_value_def)

lemma parse_unknown_type:
  assumes "\<not> known_type t"
  shows "parseCommandType (cmdTypeName t) = ct_unspecified"
proof -
  have "map_of CommandType_name t = None"
    using assms by (simp add: known_type_def map_of_eq_None_iff)
  then show ?thesis
    by (simp add: cmdTypeName_def parseCommandType_def CommandType_value_def)
qed

section \<open>The status map\<close>

definition statuses :: "db \<Rightarrow> string \<rightharpoonup> string" where
  "statuses d = map_of (map (\<lambda>c. (c_command c, c_status c)) (commands d))"

definition set_status :: "string \<Rightarrow> string \<Rightarrow> (string \<rightharpoonup> string) \<Rightarrow> (string \<rightharpoonup> string)" where
  "set_status k s m = (if m k = None then m else m(k \<mapsto> s))"

definition time_out :: "string \<Rightarrow> (string \<rightharpoonup> string) \<Rightarrow> (string \<rightharpoonup> string)" where
  "time_out k m = (case m k of
      Some s \<Rightarrow> if s \<in> set open_statuses then m(k \<mapsto> ''Timeout'') else m | None \<Rightarrow> m)"

lemma map_of_update_rows:
  "map_of (map (\<lambda>c. (key c, val c)) (map (\<lambda>r. if key r = k \<and> Q (val r) then f r else r) rows)) =
   (let m = map_of (map (\<lambda>c. (key c, val c)) rows) in
    case m k of Some v \<Rightarrow> if Q v then m(k \<mapsto> w) else m | None \<Rightarrow> m)"
  if "\<And>r. key (f r) = key r" "\<And>r. val (f r) = w" "distinct (map key rows)"
  for key :: "'r \<Rightarrow> 'k" and val :: "'r \<Rightarrow> 'v"
  using that(3)
proof (induction rows)
  case (Cons r rows)
  have none: "map_of (map (\<lambda>c. (key c, val c)) rows) (key r) = None"
    using Cons.prems by (auto simp: map_of_eq_None_iff)
  have "key x \<noteq> key r" if "x \<in> set rows" for x
    using Cons.prems that by (metis distinct.simps(2) image_eqI image_set list.simps(9))
  then have same: "map (\<lambda>r. if key r = k \<and> Q (val r) then f r else r) rows = rows" if "key r = k"
    using that by (intro map_idI) auto
  show ?case
  proof (cases "key r = k")
    case True
    then show ?thesis using same [OF True] none that(1,2)
      by (auto simp: Let_def fun_eq_iff)
  next
    case False
    then show ?thesis using Cons that(1,2)
      by (auto simp: Let_def fun_upd_twist split: option.splits)
  qed
qed simp

lemma update_commands_simps [simp]:
  "db_verdicts (update_commands P f d) = db_verdicts d"
  "terminals (update_commands P f d) = terminals d"
  "commands (update_commands P f d) = map (\<lambda>r. if P r then f r else r) (commands d)"
  "db_engine (update_commands P f d) = db_engine d"
  by (simp_all add: update_commands_def)

lemma update_commands_wf:
  "(\<And>r. c_command (f r) = c_command r) \<Longrightarrow> db_wf (update_commands P f d) = db_wf d"
  by (simp add: db_wf_def keys_ok_def refs_ok_def update_commands_def o_def map_update_keys)

lemma same_statuses: "same_tables d d' \<Longrightarrow> statuses d' = statuses d"
  by (simp add: statuses_def same_tablesD)

lemma statuses_update:
  assumes "\<And>r. c_command (f r) = c_command r" "\<And>r. c_status (f r) = w" "keys_ok d"
  shows "statuses (update_commands (\<lambda>r. c_command r = k \<and> Q (c_status r)) f d) =
    (case statuses d k of Some v \<Rightarrow> if Q v then (statuses d)(k \<mapsto> w) else statuses d
     | None \<Rightarrow> statuses d)"
proof -
  have "distinct (map c_command (commands d))" using assms(3) by (simp add: keys_ok_def)
  from map_of_update_rows [where key = c_command and val = c_status and f = f and k = k and Q = Q,
      OF assms(1,2) this]
  show ?thesis unfolding statuses_def Let_def update_commands_simps .
qed

lemma statuses_set:
  assumes "\<And>r. c_command (f r) = c_command r" "\<And>r. c_status (f r) = w" "keys_ok d"
  shows "statuses (update_commands (\<lambda>r. c_command r = k) f d) = set_status k w (statuses d)"
  using statuses_update [OF assms, where Q = "\<lambda>_. True" and k = k]
  by (auto simp: set_status_def split: option.splits)

lemma exec_op_statuses:
  assumes "exec_op ctx upd d = (Inr (), d')" "db_wf d"
    and "\<And>d1. keys_ok d1 \<Longrightarrow> statuses (upd d1) = g (statuses d1)"
  shows "statuses d' = g (statuses d)"
  using assms(1)
proof (cases rule: exec_op_cases)
  case (2 d1)
  then have "keys_ok d1" using assms(2) same_tables_wf [of d d1] by (auto simp: db_wf_def)
  with 2 assms(3) show ?thesis by (simp add: same_statuses)
qed simp

lemma UpdateCommandStatus_statuses:
  "UpdateCommandStatus k st d = (Inr (), d') \<Longrightarrow> db_wf d \<Longrightarrow>
   statuses d' = set_status k st (statuses d)"
  unfolding UpdateCommandStatus_def by (erule exec_op_statuses) (simp_all add: statuses_set)

lemma UpdateCommandResult_statuses:
  "UpdateCommandResult k st x a b c e f d = (Inr (), d') \<Longrightarrow> db_wf d \<Longrightarrow>
   statuses d' = set_status k st (statuses d)"
  unfolding UpdateCommandResult_def by (erule exec_op_statuses) (simp_all add: statuses_set)

lemma MarkCommandTimeout_statuses:
  "MarkCommandTimeout now k d = (Inr (), d') \<Longrightarrow> db_wf d \<Longrightarrow>
   statuses d' = time_out k (statuses d)"
  unfolding MarkCommandTimeout_def
  by (erule exec_op_statuses)
    (simp_all add: statuses_update [where Q = "\<lambda>s. s \<in> set open_statuses"] time_out_def)

lemma SaveCommandLog_cases:
  assumes "SaveCommandLog now k s v t ps d = (r, d')"
  obtains e where "same_tables d d'" "r = Inl e"
  | d1 where "same_tables d d1" "r = Inr ()" "k \<notin> c_command ` set (commands d)"
    "d' = d1\<lparr>commands := commands d @ [\<lparr>c_command = k, c_session = s, c_type = cmdTypeName t,
       c_params = marshalJSONMap ps, c_status = ''Pending'', c_exit = None, c_stdout = [],
       c_stderr = [], c_error = [], c_created = rfc3339 now, c_started = None,
       c_finished = None\<rparr>]\<rparr>"
  using assms
  by (auto simp: SaveCommandLog_def Let_def same_tablesD elim!: sql_exec_cases
      split: prod.splits sum.splits if_splits)

lemma SaveCommandLog_statuses:
  assumes "SaveCommandLog now k s v t ps d = (Inr (), d')" "db_wf d"
  shows "statuses d k = None \<and> statuses d' = (statuses d)(k \<mapsto> ''Pending'')"
  using assms(1)
proof (cases rule: SaveCommandLog_cases)
  case (2 d1)
  then have "statuses d k = None" by (simp add: statuses_def map_of_eq_None_iff image_image)
  with 2 show ?thesis
    by (auto simp: statuses_def map_add_def fun_eq_iff split: option.splits)
qed simp

text \<open>A failed operation leaves the status map as it was.\<close>

lemma exec_op_inl: "exec_op ctx upd d = (Inl e, d') \<Longrightarrow> same_tables d d'"
  by (auto elim: exec_op_cases)

lemma SaveCommandLog_wf:
  assumes "SaveCommandLog now k s v t ps d = (r, d')" "db_wf d"
  shows "db_wf d'"
  using assms(1)
proof (cases rule: SaveCommandLog_cases)
  case 1 with assms(2) show ?thesis by (simp add: same_tables_wf)
next
  case (2 d1)
  with assms(2) show ?thesis
    by (auto simp: db_wf_def keys_ok_def refs_ok_def same_tablesD)
qed

lemma UpdateCommandResult_wf:
  "UpdateCommandResult k st x a b c e f d = (r, d') \<Longrightarrow> db_wf d \<Longrightarrow> db_wf d'"
  unfolding UpdateCommandResult_def by (erule exec_op_wf) (simp_all add: update_commands_wf)

lemma UpdateCommandStatus_wf: "UpdateCommandStatus k st d = (r, d') \<Longrightarrow> db_wf d \<Longrightarrow> db_wf d'"
  unfolding UpdateCommandStatus_def by (erule exec_op_wf) (simp_all add: update_commands_wf)

lemma MarkCommandTimeout_wf: "MarkCommandTimeout n k d = (r, d') \<Longrightarrow> db_wf d \<Longrightarrow> db_wf d'"
  unfolding MarkCommandTimeout_def by (erule exec_op_wf) (simp_all add: update_commands_wf)

lemmas command_write_wf = SaveCommandLog_wf UpdateCommandResult_wf UpdateCommandStatus_wf
  MarkCommandTimeout_wf

lemma GetCommandLog_same: "GetCommandLog v s l d = (r, d') \<Longrightarrow> same_tables d d'"
  by (auto simp: GetCommandLog_def Let_def dest: sql_query_same
      split: prod.splits sum.splits option.splits)

section \<open>Reading the log\<close>

text \<open>An engine that binds the arguments of a statement with as many placeholders in order.\<close>

definition binds_in_order :: "sql_engine \<Rightarrow> bool" where
  "binds_in_order e \<longleftrightarrow> (\<forall>a. eng_bind e 1 [a] = Inr [a]) \<and> (\<forall>a b. eng_bind e 2 [a, b] = Inr [a, b])"

text \<open>
  An engine that, given more arguments than placeholders, refuses the statement or binds only the
  first ones, and that takes no text in \<open>ts\<close> for an integer.
\<close>

definition drops_or_refuses :: "sql_engine \<Rightarrow> string set \<Rightarrow> bool" where
  "drops_or_refuses e ts \<longleftrightarrow>
     (\<forall>a b c. (\<exists>msg. eng_bind e 2 [a, b, c] = Inl msg) \<or> eng_bind e 2 [a, b, c] = Inr [a, b]) \<and>
     (\<forall>t \<in> ts. \<exists>msg. eng_int_of_text e t = Inl msg)"

definition readable :: "db \<Rightarrow> bool" where
  "readable d \<longleftrightarrow> (\<forall>c \<in> set (commands d). unmarshalJSONMap (c_params c) \<noteq> None)"

definition entry_of :: "command_row \<times> terminal_row option \<Rightarrow> log_entry" where
  "entry_of p = the (scan_entry p)"

lemma scan_all_some: "\<forall>r \<in> set rs. f r \<noteq> None \<Longrightarrow> scan_all f rs = Some (map (the o f) rs)"
  by (induction rs) (auto split: option.splits)

lemma log_limit_range: "1 \<le> log_limit l" "log_limit l \<le> 200"
  by (auto simp: log_limit_def)

text \<open>All entries of one device, one session or of the whole log, newest first.\<close>

definition log_of :: "log_where \<Rightarrow> string \<Rightarrow> db \<Rightarrow> log_entry list" where
  "log_of w key d = map entry_of (order_desc (eng_order (db_engine d)) (c_created o fst)
     (filter (log_where_holds w [SText key]) (join_terminals d)))"

context desc_sorter
begin

lemma GetCommandLog_works:
  assumes "eng_order (db_engine d) = ord" "no_faults d" "binds_in_order (db_engine d)" "readable d"
    and "v = [] \<or> s = []"
  shows "GetCommandLog v s lim d =
    (Some (Inr (take (nat (log_limit lim)) (log_of (log_query_where v s) (v @ s) d))), d)"
proof -
  let ?w = "log_query_where v s"
  let ?rows = "order_desc ord (c_created o fst) (filter (log_where_holds ?w [SText (v @ s)]) (join_terminals d))"
  have "\<forall>p \<in> set ?rows. scan_entry p \<noteq> None"
    using assms(4) by (auto simp: join_terminals_def scan_entry_def readable_def split: option.splits)
  then have all: "scan_all scan_entry (take n ?rows) = Some (map entry_of (take n ?rows))" for n
    by (subst scan_all_some) (auto simp: entry_of_def dest: in_set_takeD)
  have bind: "eng_bind (db_engine d) (log_placeholders ?w) (log_query_args v s (log_limit lim)) =
      Inr (log_query_args v s (log_limit lim))"
    using assms(3,5) by (auto simp: binds_in_order_def log_query_where_def log_query_args_def
        log_placeholders_def)
  have sel: "filter (log_where_holds ?w (log_query_args v s l)) xs =
      filter (log_where_holds ?w [SText (v @ s)]) xs" for l xs
    using assms(5)
    by (auto simp: log_query_where_def log_query_args_def log_where_holds_def fun_eq_iff
        intro!: filter_cong split: option.splits)
  have lst: "last (log_query_args v s l) = SInt l" for l by (simp add: log_query_args_def)
  have "sql_limit (log_limit lim) ?rows = take (nat (log_limit lim)) ?rows"
    using log_limit_range(1) [of lim] by (simp add: sql_limit_def)
  then show ?thesis
    using assms(1,2)
    by (simp add: GetCommandLog_def Let_def no_faults_def bind lst limit_value_def sel all
        log_of_def take_map)
qed

lemma log_of_spec:
  assumes "eng_order (db_engine d) = ord" "readable d"
  shows "sorted_wrt (\<lambda>a b. le_created b \<le> le_created a) (log_of w k d)"
    and "mset (log_of w k d) = image_mset entry_of
      (mset (filter (log_where_holds w [SText k]) (join_terminals d)))"
proof -
  let ?rows = "filter (log_where_holds w [SText k]) (join_terminals d)"
  have created: "le_created (entry_of p) = c_created (fst p)" if "p \<in> set ?rows" for p
    using that assms(2)
    by (auto simp: entry_of_def scan_entry_def join_terminals_def readable_def split: option.splits)
  have "sorted_wrt (\<lambda>p q. c_created (fst q) \<le> c_created (fst p))
      (order_desc ord (c_created o fst) ?rows)"
    using sorted_order [of "c_created o fst" ?rows] by simp
  then have "sorted_wrt (\<lambda>p q. le_created (entry_of q) \<le> le_created (entry_of p))
      (order_desc ord (c_created o fst) ?rows)"
    by (rule sorted_wrt_mono_rel [rotated]) (simp add: created)
  then show "sorted_wrt (\<lambda>a b. le_created b \<le> le_created a) (log_of w k d)"
    by (simp add: log_of_def assms sorted_wrt_map)
  show "mset (log_of w k d) = image_mset entry_of (mset ?rows)"
    by (simp add: log_of_def assms mset_order)
qed

end

text \<open>With both ids there is one argument too many, and no entry is ever returned.\<close>

lemma GetCommandLog_both:
  assumes "v \<noteq> []" "s \<noteq> []" "drops_or_refuses (db_engine d) {v}" "no_faults d"
  shows "\<exists>e. GetCommandLog v s lim d = (Some (Inl (wrap_err ''get command logs'' e)), d)"
proof -
  have q: "log_query_where v s = WhereDevice" "log_placeholders WhereDevice = 2"
    "log_query_args v s (log_limit lim) = [SText s, SText v, SInt (log_limit lim)]"
    using assms(1,2) by (auto simp: log_query_where_def log_placeholders_def log_query_args_def)
  obtain msg where "eng_int_of_text (db_engine d) v = Inl msg"
    using assms(3) by (auto simp: drops_or_refuses_def)
  moreover have "(\<exists>msg. eng_bind (db_engine d) 2 [SText s, SText v, SInt (log_limit lim)] = Inl msg) \<or>
      eng_bind (db_engine d) 2 [SText s, SText v, SInt (log_limit lim)] = Inr [SText s, SText v]"
    using assms(3) by (simp add: drops_or_refuses_def)
  ultimately show ?thesis
    using assms(4) by (auto simp: GetCommandLog_def Let_def no_faults_def q limit_value_def)
qed

lemma reference_binds: "binds_in_order reference_engine" "drops_or_refuses reference_engine ts"
  by (simp_all add: binds_in_order_def drops_or_refuses_def reference_engine_def)

section \<open>The stored parameters\<close>

text \<open>The rows as SaveCommandLog writes them, with a first key that the reader can skip.\<close>

definition first_key_plain :: "(string \<times> string) list \<Rightarrow> bool" where
  "first_key_plain ps \<longleftrightarrow> (ps \<noteq> [] \<longrightarrow> fst (hd ps) = [] \<or> last (fst (hd ps)) \<noteq> dquote)"

definition saved_rows :: "db \<Rightarrow> bool" where
  "saved_rows d \<longleftrightarrow> (\<forall>c \<in> set (commands d). \<exists>ps. c_params c = marshalJSONMap ps \<and> first_key_plain ps)"

lemma saved_rows_unreadable: "saved_rows d \<Longrightarrow> c \<in> set (commands d) \<Longrightarrow> unmarshalJSONMap (c_params c) = Some []"
  using unmarshal_marshal unfolding saved_rows_def first_key_plain_def by metis

lemma saved_rows_save:
  assumes "saved_rows d" "first_key_plain ps"
  shows "saved_rows (snd (SaveCommandLog now k sid v t ps d))"
proof -
  obtain r d' where e: "SaveCommandLog now k sid v t ps d = (r, d')" by fastforce
  then show ?thesis
    by (cases rule: SaveCommandLog_cases) (use assms e in \<open>auto simp: saved_rows_def same_tablesD(7)\<close>)
qed

lemma scan_all_in: "scan_all f rs = Some es \<Longrightarrow> e \<in> set es \<Longrightarrow> \<exists>r \<in> set rs. f r = Some e"
  by (induction rs arbitrary: es) (auto split: option.splits)

lemma query_rows:
  assumes "sql_query body d = (Inr (rs, er), d')"
  obtains vs rs' where "body (d\<lparr>db_verdicts := vs\<rparr>) = Inr rs'" "set rs \<subseteq> set rs'"
proof -
  obtain v d1 where n: "next_verdict d = (v, d1)" by fastforce
  then obtain vs where "d1 = d\<lparr>db_verdicts := vs\<rparr>"
    by (cases d) (auto simp: next_verdict_def split: list.splits)
  then show ?thesis using assms n that
    by (auto simp: sql_query_def split: verdict.splits sum.splits dest: in_set_takeD)
qed

lemma join_verdicts: "join_terminals (d\<lparr>db_verdicts := vs\<rparr>) = join_terminals d"
  by (simp add: join_terminals_def)

context desc_sorter
begin

lemma set_limited: "set (sql_limit l (order_desc ord key (filter P xs))) \<subseteq> set xs"
  by (auto simp: sql_limit_def dest: in_set_takeD split: if_splits)

lemma saved_rows_log:
  assumes "eng_order (db_engine d) = ord" "saved_rows d" "GetCommandLog v s lim d = (Some (Inr es), d')" "e \<in> set es"
  shows "le_params e = []"
proof -
  let ?w = "log_query_where v s" and ?args = "log_query_args v s (log_limit lim)"
  let ?body = "\<lambda>d. case eng_bind (db_engine d) (log_placeholders ?w) ?args of
     Inl e \<Rightarrow> Inl e
   | Inr vs \<Rightarrow> (case limit_value (db_engine d) (last vs) of
       Inl e \<Rightarrow> Inl e
     | Inr l \<Rightarrow> Inr (sql_limit l (order_desc (eng_order (db_engine d)) (c_created o fst)
         (filter (log_where_holds ?w vs) (join_terminals d)))))"
  obtain r d1 where r: "sql_query ?body d = (r, d1)" by fastforce
  with assms(3) obtain rs er where rs: "r = Inr (rs, er)" "scan_all scan_entry rs = Some es"
    by (auto simp: GetCommandLog_def Let_def split: sum.splits option.splits)
  obtain vs rs' where "?body (d\<lparr>db_verdicts := vs\<rparr>) = Inr rs'" "set rs \<subseteq> set rs'"
    by (rule query_rows [OF r [unfolded rs(1)]])
  then have sub: "set rs \<subseteq> set (join_terminals d)"
    by (auto simp: assms(1) join_verdicts split: sum.splits dest: subsetD [OF set_limited])
  obtain p where p: "p \<in> set rs" "scan_entry p = Some e" using scan_all_in [OF rs(2) assms(4)] by blast
  then have "fst p \<in> set (commands d)" using sub by (auto simp: join_terminals_def)
  from saved_rows_unreadable [OF assms(2) this] p(2) show ?thesis
    by (cases p) (auto simp: scan_entry_def)
qed

end

end
