(* ===== verification/HardwareStore.thy ===== *)
theory HardwareStore
  imports CommandStore
begin

text \<open>
  \<open>store/hardware.go\<close>: hardware reports. A report is written in one transaction (main row, disks,
  interfaces, BIOS, board) that either takes effect as a whole or not at all, and a report id that
  is already stored is ignored. Unsigned sizes go through \<open>int64\<close> and back, which keeps the bits.
  The readers yield \<open>None\<close> where parsing an address column panics.
\<close>

section \<open>Writing a report\<close>

text \<open>\<open>INSERT OR IGNORE INTO hardware_reports\<close>: the number of rows affected.\<close>

definition insert_report :: "report_row \<Rightarrow> db \<Rightarrow> string + (nat \<times> db)" where
  "insert_report row d =
     (if r_report row \<in> r_report ` set (reports d) then Inr (0, d)
      else Inr (1, d\<lparr>reports := reports d @ [row]\<rparr>))"

definition insert_disk :: "disk_row \<Rightarrow> db \<Rightarrow> string + (unit \<times> db)" where
  "insert_disk row d = Inr ((), d\<lparr>disks := disks d @ [row]\<rparr>)"

definition insert_net :: "net_row \<Rightarrow> db \<Rightarrow> string + (unit \<times> db)" where
  "insert_net row d = Inr ((), d\<lparr>nets := nets d @ [row]\<rparr>)"

definition insert_bios :: "bios_row \<Rightarrow> db \<Rightarrow> string + (unit \<times> db)" where
  "insert_bios row d =
     (if b_report row \<in> b_report ` set (bioses d)
      then Inl (eng_unique (db_engine d) ''hardware_bios.report_id'')
      else Inr ((), d\<lparr>bioses := bioses d @ [row]\<rparr>))"

definition insert_board :: "board_row \<Rightarrow> db \<Rightarrow> string + (unit \<times> db)" where
  "insert_board row d =
     (if m_report row \<in> m_report ` set (boards d)
      then Inl (eng_unique (db_engine d) ''hardware_motherboard.report_id'')
      else Inr ((), d\<lparr>boards := boards d @ [row]\<rparr>))"

definition report_row_of :: "nat \<Rightarrow> string \<Rightarrow> string \<Rightarrow> string \<Rightarrow> hardware_info \<Rightarrow> report_row" where
  "report_row_of now reportID sessionID deviceID info =
     \<lparr>r_report = reportID, r_device = deviceID, r_session = sessionID, r_created = rfc3339 now,
      r_cpu_model = get_model (hw_cpu info), r_cpu_cores = get_cores (hw_cpu info),
      r_cpu_threads = get_threads (hw_cpu info), r_cpu_arch = get_architecture (hw_cpu info),
      r_mem_total = get_total_bytes (hw_memory info),
      r_mem_avail = get_available_bytes (hw_memory info),
      r_mem_used = get_used_bytes (hw_memory info)\<rparr>"

definition disk_row_of :: "string \<Rightarrow> disk_info \<Rightarrow> disk_row" where
  "disk_row_of reportID k = \<lparr>d_report = reportID, d_device = dk_device k, d_mount = dk_mount_point k,
     d_fs = dk_fs_type k, d_total = dk_total k, d_used = dk_used k, d_free = dk_free k\<rparr>"

definition net_row_of :: "string \<Rightarrow> net_info \<Rightarrow> net_row" where
  "net_row_of reportID n = \<lparr>n_report = reportID, n_name = nt_name n, n_mac = nt_mac_addr n,
     n_ips = marshalJSONArray (nt_ip_addrs n), n_loopback = nt_is_loopback n\<rparr>"

definition bios_row_of :: "string \<Rightarrow> bios_info \<Rightarrow> bios_row" where
  "bios_row_of reportID b = \<lparr>b_report = reportID, b_vendor = bi_vendor b, b_version = bi_version b,
     b_release = bi_release_date b\<rparr>"

definition board_row_of :: "string \<Rightarrow> motherboard_info \<Rightarrow> board_row" where
  "board_row_of reportID m = \<lparr>m_report = reportID, m_manufacturer = mb_manufacturer m,
     m_product = mb_product m, m_serial = mb_serial m\<rparr>"

text \<open>The statements after the main row, with the context of their error, in the code's order.\<close>

definition sub_statements ::
  "string \<Rightarrow> hardware_info \<Rightarrow> (string \<times> (db \<Rightarrow> string + (unit \<times> db))) list" where
  "sub_statements reportID info =
     map (\<lambda>k. (''insert disk'', insert_disk (disk_row_of reportID k))) (hw_disks info) @
     map (\<lambda>n. (''insert net'', insert_net (net_row_of reportID n))) (hw_nets info) @
     (case hw_bios info of None \<Rightarrow> []
      | Some b \<Rightarrow> [(''insert bios'', insert_bios (bios_row_of reportID b))]) @
     (case hw_motherboard info of None \<Rightarrow> []
      | Some m \<Rightarrow> [(''insert motherboard'', insert_board (board_row_of reportID m))])"

fun tx_run :: "(string \<times> (db \<Rightarrow> string + (unit \<times> db))) list \<Rightarrow> db \<Rightarrow> store_error option \<times> db" where
  "tx_run [] d = (None, d)"
| "tx_run ((ctx, body) # sts) d = (case sql_exec body d of
      (Inl e, d') \<Rightarrow> (Some (wrap_err ctx e), d')
    | (Inr _, d') \<Rightarrow> tx_run sts d')"

text \<open>
  \<open>tx.Rollback()\<close> and \<open>tx.Commit()\<close> of a transaction that began at \<open>d0\<close>; a commit that fails
  leaves nothing behind.
\<close>

definition rollback :: "db \<Rightarrow> db \<Rightarrow> db" where
  "rollback d0 d = d0\<lparr>db_verdicts := db_verdicts d\<rparr>"

definition commit :: "db \<Rightarrow> db \<Rightarrow> (store_error + unit) \<times> db" where
  "commit d0 d = (case sql_exec (\<lambda>d. Inr ((), d)) d of
      (Inl e, d') \<Rightarrow> (Inl (StoreErr e), rollback d0 d')
    | (Inr _, d') \<Rightarrow> (Inr (), d'))"

text \<open>The statements between \<open>Begin\<close> (which left \<open>d0\<close>) and the return.\<close>

definition save_in_tx :: "report_row \<Rightarrow> hardware_info \<Rightarrow> db \<Rightarrow> (store_error + unit) \<times> db" where
  "save_in_tx row info d0 =
     (case sql_exec (insert_report row) d0 of
        (Inl e, d1) \<Rightarrow> (Inl (wrap_err ''insert hardware_reports'' e), rollback d0 d1)
      | (Inr n, d1) \<Rightarrow>
          if n = 0 then commit d0 d1
          else (case tx_run (sub_statements (r_report row) info) d1 of
                  (Some err, d2) \<Rightarrow> (Inl err, rollback d0 d2)
                | (None, d2) \<Rightarrow> commit d0 d2))"

definition SaveHardwareReport ::
  "nat \<Rightarrow> string \<Rightarrow> string \<Rightarrow> report_request \<Rightarrow> db \<Rightarrow> (store_error + unit) \<times> db" where
  "SaveHardwareReport now sessionID deviceID rep d =
     (case rr_type rep of
        RT_Hardware (Some info) \<Rightarrow>
          (case sql_exec (\<lambda>d. Inr ((), d)) d of
             (Inl e, d0) \<Rightarrow> (Inl (wrap_err ''begin tx'' e), d0)
           | (Inr _, d0) \<Rightarrow>
               save_in_tx (report_row_of now (rr_report_id rep) sessionID deviceID info) info d0)
      | _ \<Rightarrow> (Inl (StoreErr (''store: report '' @ rr_report_id rep @
                           '' has no HardwareInfo payload'')), d))"

section \<open>Reading reports\<close>

definition disk_of_row :: "disk_row \<Rightarrow> disk_info" where
  "disk_of_row r = \<lparr>dk_device = d_device r, dk_mount_point = d_mount r, dk_fs_type = d_fs r,
     dk_total = d_total r, dk_used = d_used r, dk_free = d_free r\<rparr>"

text \<open>An unordered \<open>SELECT ... WHERE report_id = ?\<close>.\<close>

definition sub_rows :: "(db \<Rightarrow> 'r list) \<Rightarrow> ('r \<Rightarrow> string) \<Rightarrow> string \<Rightarrow> db \<Rightarrow> 'r list" where
  "sub_rows tbl key reportID d =
     scan_rows (eng_scan (db_engine d)) (filter (\<lambda>r. key r = reportID) (tbl d))"

text \<open>The loaders drop a query's error and keep the rows delivered so far.\<close>

definition loadDisks :: "string \<Rightarrow> db \<Rightarrow> disk_info list \<times> db" where
  "loadDisks reportID d = (case sql_query (\<lambda>d. Inr (sub_rows disks d_report reportID d)) d of
      (Inl _, d') \<Rightarrow> ([], d') | (Inr (rs, _), d') \<Rightarrow> (map disk_of_row rs, d'))"

definition net_of_row :: "net_row \<Rightarrow> net_info option" where
  "net_of_row r = (case parseJSONStringArray (n_ips r) of
      None \<Rightarrow> None
    | Some ips \<Rightarrow> Some \<lparr>nt_name = n_name r, nt_mac_addr = n_mac r, nt_ip_addrs = ips,
                        nt_is_loopback = n_loopback r\<rparr>)"

definition loadNets :: "string \<Rightarrow> db \<Rightarrow> net_info list option \<times> db" where
  "loadNets reportID d = (case sql_query (\<lambda>d. Inr (sub_rows nets n_report reportID d)) d of
      (Inl _, d') \<Rightarrow> (Some [], d') | (Inr (rs, _), d') \<Rightarrow> (scan_all net_of_row rs, d'))"

definition loadBIOS :: "string \<Rightarrow> db \<Rightarrow> bios_info option \<times> db" where
  "loadBIOS reportID d = (case sql_exec (\<lambda>d. Inr (sub_rows bioses b_report reportID d, d)) d of
      (Inr (r # _), d') \<Rightarrow> (Some \<lparr>bi_vendor = b_vendor r, bi_version = b_version r,
                                  bi_release_date = b_release r\<rparr>, d')
    | (_, d') \<Rightarrow> (None, d'))"

definition loadMotherboard :: "string \<Rightarrow> db \<Rightarrow> motherboard_info option \<times> db" where
  "loadMotherboard reportID d = (case sql_exec (\<lambda>d. Inr (sub_rows boards m_report reportID d, d)) d of
      (Inr (r # _), d') \<Rightarrow> (Some \<lparr>mb_manufacturer = m_manufacturer r, mb_product = m_product r,
                                  mb_serial = m_serial r\<rparr>, d')
    | (_, d') \<Rightarrow> (None, d'))"

text \<open>The \<open>HardwareInfo\<close> built from a main row and the four loaders, run in this order.\<close>

definition load_info :: "report_row \<Rightarrow> db \<Rightarrow> hardware_info option \<times> db" where
  "load_info r d =
     (case loadDisks (r_report r) d of (ds, d1) \<Rightarrow>
      case loadNets (r_report r) d1 of (nso, d2) \<Rightarrow>
      case nso of None \<Rightarrow> (None, d2) | Some ns \<Rightarrow>
      (case loadBIOS (r_report r) d2 of (b, d3) \<Rightarrow>
       case loadMotherboard (r_report r) d3 of (m, d4) \<Rightarrow>
        (Some \<lparr>hw_cpu = Some \<lparr>cpu_model = r_cpu_model r, cpu_cores = r_cpu_cores r,
                   cpu_threads = r_cpu_threads r, cpu_arch = r_cpu_arch r\<rparr>,
               hw_memory = Some \<lparr>mem_total = r_mem_total r, mem_avail = r_mem_avail r,
                   mem_used = r_mem_used r\<rparr>,
               hw_disks = ds, hw_nets = ns, hw_bios = b, hw_motherboard = m\<rparr>, d4)))"

definition GetLatestHardware :: "string \<Rightarrow> db \<Rightarrow> (store_error + hardware_info option) option \<times> db"
where
  "GetLatestHardware deviceID d =
     (case sql_exec (\<lambda>d. Inr (sql_limit 1 (order_desc (eng_order (db_engine d)) r_created
               (filter (\<lambda>r. r_device r = deviceID) (reports d))), d)) d of
        (Inl e, d1) \<Rightarrow> (Some (Inl (wrap_err ''get latest hardware'' e)), d1)
      | (Inr [], d1) \<Rightarrow> (Some (Inr None), d1)
      | (Inr (r # _), d1) \<Rightarrow> (case load_info r d1 of (io, d2) \<Rightarrow>
           (map_option (\<lambda>i. Inr (Some i)) io, d2)))"

record HardwareSnapshot =
  hs_report :: string
  hs_created :: string
  hs_info :: hardware_info

definition in_range :: "string \<Rightarrow> string \<Rightarrow> string \<Rightarrow> bool" where
  "in_range since until t \<longleftrightarrow>
     (if since \<noteq> [] \<and> until \<noteq> [] then since \<le> t \<and> t \<le> until
      else if since \<noteq> [] then since \<le> t
      else if until \<noteq> [] then t \<le> until
      else True)"

definition history_limit :: "int \<Rightarrow> int" where
  "history_limit l = (if l \<le> 0 then 100 else l)"

fun load_snapshots :: "report_row list \<Rightarrow> db \<Rightarrow> HardwareSnapshot list option \<times> db" where
  "load_snapshots [] d = (Some [], d)"
| "load_snapshots (r # rs) d = (case load_info r d of
      (None, d1) \<Rightarrow> (None, d1)
    | (Some i, d1) \<Rightarrow> (case load_snapshots rs d1 of (so, d2) \<Rightarrow>
        (map_option ((#) \<lparr>hs_report = r_report r, hs_created = r_created r, hs_info = i\<rparr>) so, d2)))"

definition ListHardwareReports ::
  "string \<Rightarrow> string \<Rightarrow> string \<Rightarrow> int \<Rightarrow> db \<Rightarrow>
   (store_error + HardwareSnapshot list) option \<times> db" where
  "ListHardwareReports deviceID since until lim d =
     (case sql_query (\<lambda>d. Inr (sql_limit (history_limit lim)
               (order_desc (eng_order (db_engine d)) r_created
                 (filter (\<lambda>r. r_device r = deviceID \<and> in_range since until (r_created r))
                    (reports d))))) d of
        (Inl e, d1) \<Rightarrow> (Some (Inl (wrap_err ''list hardware reports'' e)), d1)
      | (Inr (_, Some e), d1) \<Rightarrow> (Some (Inl (wrap_err ''iterate hardware'' e)), d1)
      | (Inr (rs, None), d1) \<Rightarrow> (case load_snapshots rs d1 of (so, d2) \<Rightarrow>
           (map_option Inr so, d2)))"

section \<open>All or nothing\<close>

text \<open>The tables with all rows of one report added.\<close>

definition add_report :: "report_row \<Rightarrow> hardware_info \<Rightarrow> db \<Rightarrow> db" where
  "add_report row info d = (let k = r_report row in
     d\<lparr>reports := reports d @ [row],
       disks := disks d @ map (disk_row_of k) (hw_disks info),
       nets := nets d @ map (net_row_of k) (hw_nets info),
       bioses := bioses d @ map (bios_row_of k) (case hw_bios info of None \<Rightarrow> [] | Some b \<Rightarrow> [b]),
       boards := boards d @
         map (board_row_of k) (case hw_motherboard info of None \<Rightarrow> [] | Some m \<Rightarrow> [m])\<rparr>)"

lemma tx_run_append:
  "tx_run (xs @ ys) d = (case tx_run xs d of (None, d') \<Rightarrow> tx_run ys d' | r \<Rightarrow> r)"
  by (induction xs d rule: tx_run.induct) (auto split: prod.splits sum.splits option.splits)

lemma same_tables_upd:
  assumes "same_tables d d'"
  shows "same_tables (d\<lparr>reports := a\<rparr>) (d'\<lparr>reports := a\<rparr>)"
    "same_tables (d\<lparr>disks := b\<rparr>) (d'\<lparr>disks := b\<rparr>)"
    "same_tables (d\<lparr>nets := c\<rparr>) (d'\<lparr>nets := c\<rparr>)"
    "same_tables (d\<lparr>bioses := e\<rparr>) (d'\<lparr>bioses := e\<rparr>)"
    "same_tables (d\<lparr>boards := f\<rparr>) (d'\<lparr>boards := f\<rparr>)"
  using assms by (cases d; cases d'; simp add: same_tables_def)+

lemma tx_run_disks:
  "tx_run (map (\<lambda>k. (c, insert_disk (f k))) ks) d = (None, d') \<Longrightarrow>
   same_tables (d\<lparr>disks := disks d @ map f ks\<rparr>) d'"
proof (induction ks arbitrary: d)
  case (Cons k ks)
  then obtain d1 where d1: "sql_exec (insert_disk (f k)) d = (Inr (), d1)"
    and run: "tx_run (map (\<lambda>k. (c, insert_disk (f k))) ks) d1 = (None, d')"
    by (auto split: prod.splits sum.splits)
  from d1 obtain d2 where "same_tables d d2" "d1 = d2\<lparr>disks := disks d2 @ [f k]\<rparr>"
    by (auto simp: insert_disk_def elim: sql_exec_cases)
  then show ?case using Cons.IH [OF run] same_tables_upd(2) [of d d2]
    by (auto simp: same_tablesD intro: same_tables_trans)
qed simp

lemma tx_run_nets:
  "tx_run (map (\<lambda>n. (c, insert_net (f n))) ns) d = (None, d') \<Longrightarrow>
   same_tables (d\<lparr>nets := nets d @ map f ns\<rparr>) d'"
proof (induction ns arbitrary: d)
  case (Cons n ns)
  then obtain d1 where d1: "sql_exec (insert_net (f n)) d = (Inr (), d1)"
    and run: "tx_run (map (\<lambda>n. (c, insert_net (f n))) ns) d1 = (None, d')"
    by (auto split: prod.splits sum.splits)
  from d1 obtain d2 where "same_tables d d2" "d1 = d2\<lparr>nets := nets d2 @ [f n]\<rparr>"
    by (auto simp: insert_net_def elim: sql_exec_cases)
  then show ?case using Cons.IH [OF run] same_tables_upd(3) [of d d2]
    by (auto simp: same_tablesD intro: same_tables_trans)
qed simp

lemma insert_bios_exec:
  "sql_exec (insert_bios r) d = (Inr u, d') \<Longrightarrow> same_tables (d\<lparr>bioses := bioses d @ [r]\<rparr>) d'"
  by (erule sql_exec_cases)
    (auto simp: insert_bios_def same_tablesD same_tables_upd split: if_splits)

lemma insert_board_exec:
  "sql_exec (insert_board r) d = (Inr u, d') \<Longrightarrow> same_tables (d\<lparr>boards := boards d @ [r]\<rparr>) d'"
  by (erule sql_exec_cases)
    (auto simp: insert_board_def same_tablesD same_tables_upd split: if_splits)

lemma tx_run_tail:
  assumes "tx_run ((case bo of None \<Rightarrow> [] | Some b \<Rightarrow> [(c1, insert_bios (f b))]) @
      (case mo of None \<Rightarrow> [] | Some m \<Rightarrow> [(c2, insert_board (g m))])) d = (None, d')"
  shows "same_tables (d\<lparr>bioses := bioses d @ map f (case bo of None \<Rightarrow> [] | Some b \<Rightarrow> [b]),
      boards := boards d @ map g (case mo of None \<Rightarrow> [] | Some m \<Rightarrow> [m])\<rparr>) d'"
proof -
  from assms obtain d1
    where d1: "tx_run (case bo of None \<Rightarrow> [] | Some b \<Rightarrow> [(c1, insert_bios (f b))]) d = (None, d1)"
      and run: "tx_run (case mo of None \<Rightarrow> [] | Some m \<Rightarrow> [(c2, insert_board (g m))]) d1 = (None, d')"
    by (auto simp: tx_run_append split: prod.splits option.splits)
  have s1: "same_tables (d\<lparr>bioses := bioses d @ map f (case bo of None \<Rightarrow> [] | Some b \<Rightarrow> [b])\<rparr>) d1"
    using d1 by (cases bo) (auto dest: insert_bios_exec split: prod.splits sum.splits)
  have s2: "same_tables (d1\<lparr>boards := boards d1 @ map g (case mo of None \<Rightarrow> [] | Some m \<Rightarrow> [m])\<rparr>) d'"
    using run by (cases mo) (auto dest: insert_board_exec split: prod.splits sum.splits)
  have bd: "boards d1 = boards d" using same_tablesD(6) [OF s1] by simp
  show ?thesis using same_tables_trans [OF same_tables_upd(5) [OF s1] s2 [unfolded bd]] by simp
qed

lemma tx_run_sub:
  assumes "tx_run (sub_statements (r_report row) info) (d\<lparr>reports := reports d @ [row]\<rparr>) = (None, d')"
  shows "same_tables (add_report row info d) d'"
proof -
  let ?k = "r_report row"
  let ?d = "d\<lparr>reports := reports d @ [row]\<rparr>"
  from assms obtain d1 d2
    where r1: "tx_run (map (\<lambda>k. (''insert disk'', insert_disk (disk_row_of ?k k))) (hw_disks info)) ?d = (None, d1)"
      and r2: "tx_run (map (\<lambda>n. (''insert net'', insert_net (net_row_of ?k n))) (hw_nets info)) d1 = (None, d2)"
      and r3: "tx_run ((case hw_bios info of None \<Rightarrow> []
          | Some b \<Rightarrow> [(''insert bios'', insert_bios (bios_row_of ?k b))]) @
        (case hw_motherboard info of None \<Rightarrow> []
          | Some m \<Rightarrow> [(''insert motherboard'', insert_board (board_row_of ?k m))])) d2 = (None, d')"
    by (auto simp: sub_statements_def tx_run_append split: prod.splits option.splits)
  note s1 = tx_run_disks [OF r1] and s2 = tx_run_nets [OF r2] and s3 = tx_run_tail [OF r3]
  have "same_tables (?d\<lparr>disks := disks ?d @ map (disk_row_of ?k) (hw_disks info),
      nets := nets d1 @ map (net_row_of ?k) (hw_nets info)\<rparr>) d2"
    using same_tables_upd(3) [OF s1] s2 same_tables_trans by blast
  note s12 = this
  have e: "nets d1 = nets d" "bioses d2 = bioses d" "boards d2 = boards d"
    using same_tablesD [OF s1] same_tablesD [OF s12] by simp_all
  have "same_tables (add_report row info d) (d2\<lparr>
      bioses := bioses d @ map (bios_row_of ?k) (case hw_bios info of None \<Rightarrow> [] | Some b \<Rightarrow> [b]),
      boards := boards d @ map (board_row_of ?k) (case hw_motherboard info of None \<Rightarrow> [] | Some m \<Rightarrow> [m])\<rparr>)"
    using same_tables_upd(5) [OF same_tables_upd(4) [OF s12]] by (simp add: add_report_def Let_def e)
  then show ?thesis using s3 [unfolded e] by (rule same_tables_trans)
qed

lemma rollback_same: "same_tables d0 (rollback d0 d')"
  by (simp add: rollback_def)

lemma commit_cases:
  assumes "commit d0 d = (r, d')"
  obtains e where "r = Inl e" "same_tables d0 d'" | "r = Inr ()" "same_tables d d'"
  using assms
  by (auto simp: commit_def rollback_same dest: sql_exec_read split: prod.splits sum.splits)

lemma add_report_same:
  "same_tables d d' \<Longrightarrow> same_tables (add_report row info d) (add_report row info d')"
  by (cases d; cases d') (simp add: same_tables_def add_report_def Let_def)

lemma insert_report_exec:
  assumes "sql_exec (insert_report row) d = (m, d')"
  obtains (failed) e where "m = Inl e"
  | (known) "m = Inr 0" "r_report row \<in> r_report ` set (reports d)" "same_tables d d'"
  | (fresh) d1 where "m = Inr 1" "r_report row \<notin> r_report ` set (reports d)" "same_tables d d1"
      "d' = d1\<lparr>reports := reports d1 @ [row]\<rparr>"
  using assms
proof (cases rule: sql_exec_cases)
  case (2 d1 a)
  then have "reports d1 = reports d" by (simp add: same_tablesD)
  then show thesis using 2 known fresh by (simp add: insert_report_def split: if_splits)
qed (auto intro: failed)

text \<open>What the transaction can do: fail and change nothing, ignore a known id, or add every row.\<close>

lemma save_in_tx_cases:
  assumes "save_in_tx row info d = (r, d')"
  obtains (failed) e where "r = Inl e" "same_tables d d'"
  | (duplicate) "r = Inr ()" "r_report row \<in> r_report ` set (reports d)" "same_tables d d'"
  | (added) "r = Inr ()" "r_report row \<notin> r_report ` set (reports d)"
      "same_tables (add_report row info d) d'"
proof -
  obtain m d1 where m: "sql_exec (insert_report row) d = (m, d1)" by fastforce
  then show thesis
  proof (cases rule: insert_report_exec)
    case (failed e)
    then show thesis using assms m that(1) rollback_same by (auto simp: save_in_tx_def)
  next
    case known
    then have "commit d d1 = (r, d')" using assms m by (simp add: save_in_tx_def)
    then show thesis using known that(1,2) same_tables_trans by (auto elim!: commit_cases)
  next
    case (fresh d2)
    obtain e d3 where run: "tx_run (sub_statements (r_report row) info) d1 = (e, d3)" by fastforce
    show thesis
    proof (cases e)
      case (Some err)
      then show thesis using assms m fresh(1) run that(1) rollback_same
        by (auto simp: save_in_tx_def)
    next
      case None
      with run fresh have "same_tables (add_report row info d) d3"
        by (metis add_report_same same_tables_trans tx_run_sub)
      moreover have "commit d d3 = (r, d')"
        using assms m fresh(1) run None by (simp add: save_in_tx_def)
      ultimately show thesis using fresh(2) that(1,3) same_tables_trans
        by (auto elim!: commit_cases)
    qed
  qed
qed

lemma SaveHardwareReport_cases:
  assumes "SaveHardwareReport now sid v rep d = (r, d')"
  obtains (failed) e where "r = Inl e" "same_tables d d'"
  | (duplicate) "r = Inr ()" "rr_report_id rep \<in> r_report ` set (reports d)" "same_tables d d'"
  | (added) info where "r = Inr ()" "rr_type rep = RT_Hardware (Some info)"
      "rr_report_id rep \<notin> r_report ` set (reports d)"
      "same_tables (add_report (report_row_of now (rr_report_id rep) sid v info) info d) d'"
proof (cases "\<exists>info. rr_type rep = RT_Hardware (Some info)")
  case False
  then show thesis using assms failed
    by (auto simp: SaveHardwareReport_def split: report_type.splits option.splits)
next
  case True
  then obtain info where info: "rr_type rep = RT_Hardware (Some info)" by blast
  let ?row = "report_row_of now (rr_report_id rep) sid v info"
  have row: "r_report ?row = rr_report_id rep" by (simp add: report_row_of_def)
  obtain b d0 where b: "sql_exec (\<lambda>d. Inr ((), d)) d = (b, d0)" by fastforce
  note s0 = sql_exec_read [OF b]
  show thesis
  proof (cases b)
    case (Inl e)
    then show thesis using assms b info s0 failed by (auto simp: SaveHardwareReport_def)
  next
    case (Inr u)
    then have "save_in_tx ?row info d0 = (r, d')"
      using assms b info by (simp add: SaveHardwareReport_def)
    then show thesis
    proof (cases rule: save_in_tx_cases)
      case (failed e) then show thesis using that(1) s0 same_tables_trans by blast
    next
      case duplicate then show thesis using that(2) s0 same_tables_trans
        by (simp add: row same_tablesD(2) [OF s0])
    next
      case added then show thesis using that(3) info s0 add_report_same same_tables_trans
        by (simp add: row same_tablesD(2) [OF s0]) blast
    qed
  qed
qed

section \<open>Keys and references\<close>

lemma row_of_keys [simp]:
  "d_report (disk_row_of k x) = k" "n_report (net_row_of k y) = k"
  "b_report (bios_row_of k z) = k" "m_report (board_row_of k w) = k"
  "r_report (report_row_of now k sid v info) = k" "r_device (report_row_of now k sid v info) = v"
  "r_created (report_row_of now k sid v info) = rfc3339 now"
  by (simp_all add: disk_row_of_def net_row_of_def bios_row_of_def board_row_of_def
      report_row_of_def)

lemma add_report_simps [simp]:
  "reports (add_report row info d) = reports d @ [row]"
  "disks (add_report row info d) = disks d @ map (disk_row_of (r_report row)) (hw_disks info)"
  "nets (add_report row info d) = nets d @ map (net_row_of (r_report row)) (hw_nets info)"
  "bioses (add_report row info d) = bioses d @
     map (bios_row_of (r_report row)) (case hw_bios info of None \<Rightarrow> [] | Some b \<Rightarrow> [b])"
  "boards (add_report row info d) = boards d @
     map (board_row_of (r_report row)) (case hw_motherboard info of None \<Rightarrow> [] | Some m \<Rightarrow> [m])"
  "terminals (add_report row info d) = terminals d"
  "commands (add_report row info d) = commands d"
  "db_engine (add_report row info d) = db_engine d"
  "db_verdicts (add_report row info d) = db_verdicts d"
  by (simp_all add: add_report_def Let_def)

lemma add_report_wf:
  assumes "db_wf d" "r_report row \<notin> r_report ` set (reports d)"
  shows "db_wf (add_report row info d)"
proof -
  have new: "r_report row \<notin> b_report ` set (bioses d)" "r_report row \<notin> m_report ` set (boards d)"
    using assms by (auto simp: db_wf_def refs_ok_def Let_def)
  have "keys_ok (add_report row info d)"
    using assms new by (auto simp: db_wf_def keys_ok_def split: option.splits)
  moreover have "refs_ok (add_report row info d)"
    using assms(1) by (auto simp: db_wf_def refs_ok_def Let_def split: option.splits)
  ultimately show ?thesis by (simp add: db_wf_def)
qed

lemma SaveHardwareReport_wf:
  assumes "SaveHardwareReport now sid v rep d = (r, d')" "db_wf d"
  shows "db_wf d'"
  using assms(1)
proof (cases rule: SaveHardwareReport_cases)
  case (added info)
  then show ?thesis using assms(2) by (simp add: same_tables_wf add_report_wf)
qed (use assms(2) in \<open>simp_all add: same_tables_wf\<close>)

section \<open>What is read back\<close>

text \<open>The stored form of a payload: absent CPU and memory blocks come back as zero blocks.\<close>

definition stored_info :: "hardware_info \<Rightarrow> hardware_info" where
  "stored_info info = info\<lparr>
     hw_cpu := Some \<lparr>cpu_model = get_model (hw_cpu info), cpu_cores = get_cores (hw_cpu info),
       cpu_threads = get_threads (hw_cpu info), cpu_arch = get_architecture (hw_cpu info)\<rparr>,
     hw_memory := Some \<lparr>mem_total = get_total_bytes (hw_memory info),
       mem_avail = get_available_bytes (hw_memory info), mem_used = get_used_bytes (hw_memory info)\<rparr>\<rparr>"

definition plain_nets :: "hardware_info \<Rightarrow> bool" where
  "plain_nets info \<longleftrightarrow> (\<forall>n \<in> set (hw_nets info). \<forall>s \<in> set (nt_ip_addrs n). plain_item s)"

text \<open>Equal up to the order of disks and interfaces, which the queries leave to the engine.\<close>

definition same_hardware :: "hardware_info \<Rightarrow> hardware_info \<Rightarrow> bool" where
  "same_hardware a b \<longleftrightarrow> hw_cpu a = hw_cpu b \<and> hw_memory a = hw_memory b \<and>
     hw_bios a = hw_bios b \<and> hw_motherboard a = hw_motherboard b \<and>
     mset (hw_disks a) = mset (hw_disks b) \<and> mset (hw_nets a) = mset (hw_nets b)"

lemma disk_row_roundtrip [simp]: "disk_of_row (disk_row_of k x) = x"
  by (simp add: disk_of_row_def disk_row_of_def)

lemma net_row_roundtrip:
  "\<forall>s \<in> set (nt_ip_addrs n). plain_item s \<Longrightarrow> net_of_row (net_row_of k n) = Some n"
  by (simp add: net_of_row_def net_row_of_def array_codec.dec_enc)

context row_scanner
begin

lemma loaders_fresh:
  assumes "eng_scan (db_engine d) = sc" "no_faults d" "db_wf d" "plain_nets info"
    and "r_report row \<notin> r_report ` set (reports d)"
  defines "d' \<equiv> add_report row info d"
  shows "\<exists>ds. loadDisks (r_report row) d' = (ds, d') \<and> mset ds = mset (hw_disks info)"
    and "\<exists>ns. loadNets (r_report row) d' = (Some ns, d') \<and> mset ns = mset (hw_nets info)"
    and "loadBIOS (r_report row) d' = (hw_bios info, d')"
    and "loadMotherboard (r_report row) d' = (hw_motherboard info, d')"
proof -
  let ?k = "r_report row"
  have e: "eng_scan (db_engine d') = sc" "db_verdicts d' = []"
    using assms by (simp_all add: d'_def no_faults_def)
  have fresh: "?k \<notin> d_report ` set (disks d)" "?k \<notin> n_report ` set (nets d)"
    "?k \<notin> b_report ` set (bioses d)" "?k \<notin> m_report ` set (boards d)"
    using assms(3,5) by (auto simp: db_wf_def refs_ok_def Let_def)
  have "sub_rows disks d_report ?k d' = scan_rows sc (map (disk_row_of ?k) (hw_disks info))"
    by (simp add: sub_rows_def assms(1) d'_def filter_key_none fresh)
  then have "loadDisks ?k d' = (map disk_of_row (scan_rows sc (map (disk_row_of ?k) (hw_disks info))), d')"
    by (simp add: loadDisks_def e)
  moreover have "mset (map disk_of_row (scan_rows sc (map (disk_row_of ?k) (hw_disks info)))) =
      mset (hw_disks info)"
    by (simp add: mset_scan multiset.map_comp o_def)
  ultimately show "\<exists>ds. loadDisks ?k d' = (ds, d') \<and> mset ds = mset (hw_disks info)" by blast
  let ?nr = "scan_rows sc (map (net_row_of ?k) (hw_nets info))"
  have "sub_rows nets n_report ?k d' = ?nr"
    by (simp add: sub_rows_def assms(1) d'_def filter_key_none fresh)
  then have ln: "loadNets ?k d' = (scan_all net_of_row ?nr, d')"
    by (simp add: loadNets_def e)
  have nr: "net_of_row (net_row_of ?k n) = Some n" if "n \<in> set (hw_nets info)" for n
    using that assms(4) by (simp add: plain_nets_def net_row_roundtrip)
  then have "scan_all net_of_row ?nr = Some (map (the o net_of_row) ?nr)"
    by (intro scan_all_some) auto
  moreover have "mset (map (the o net_of_row) ?nr) = mset (hw_nets info)"
  proof -
    have "mset (map (the o net_of_row) ?nr) =
        image_mset (\<lambda>n. the (net_of_row (net_row_of ?k n))) (mset (hw_nets info))"
      by (simp add: mset_scan multiset.map_comp o_def)
    also have "\<dots> = image_mset (\<lambda>n. n) (mset (hw_nets info))"
      by (rule image_mset_cong) (simp add: nr)
    finally show ?thesis by simp
  qed
  ultimately show "\<exists>ns. loadNets ?k d' = (Some ns, d') \<and> mset ns = mset (hw_nets info)"
    using ln by auto
  have "sub_rows bioses b_report ?k d' =
      map (bios_row_of ?k) (case hw_bios info of None \<Rightarrow> [] | Some b \<Rightarrow> [b])"
    by (simp add: sub_rows_def assms(1) d'_def filter_key_none fresh split: option.split)
  then show "loadBIOS ?k d' = (hw_bios info, d')"
    by (simp add: loadBIOS_def e bios_row_of_def split: option.split)
  have "sub_rows boards m_report ?k d' =
      map (board_row_of ?k) (case hw_motherboard info of None \<Rightarrow> [] | Some m \<Rightarrow> [m])"
    by (simp add: sub_rows_def assms(1) d'_def filter_key_none fresh split: option.split)
  then show "loadMotherboard ?k d' = (hw_motherboard info, d')"
    by (simp add: loadMotherboard_def e board_row_of_def split: option.split)
qed

end

text \<open>The report just written is the one read back, when its time is the latest of its device.\<close>

lemma latest_after_add:
  assumes eng: "desc_sorter (eng_order (db_engine d))" "row_scanner (eng_scan (db_engine d))"
    and d: "no_faults d" "db_wf d" "r_report row \<notin> r_report ` set (reports d)" "plain_nets info"
    and row: "row = report_row_of now k sid v info"
    and newest: "\<forall>r \<in> set (reports d). r_device r = v \<longrightarrow> r_created r < rfc3339 now"
  shows "\<exists>hw. GetLatestHardware v (add_report row info d) =
      (Some (Inr (Some hw)), add_report row info d) \<and> same_hardware hw (stored_info info)"
proof -
  note ds = desc_sorter.hd_order [OF eng(1)] and dn = desc_sorter.order_empty [OF eng(1)]
  let ?d = "add_report row info d"
  let ?rows = "filter (\<lambda>r. r_device r = v) (reports ?d)"
  let ?o = "order_desc (eng_order (db_engine d)) r_created ?rows"
  have ne: "?rows \<noteq> []" using row by auto
  have "hd ?o = row"
  proof (rule ccontr)
    assume "hd ?o \<noteq> row"
    then have "hd ?o \<in> set (reports d)" "r_device (hd ?o) = v"
      using ds(1) [OF ne, of r_created] by auto
    then have "r_created (hd ?o) < r_created row" using newest row by auto
    moreover have "r_created row \<le> r_created (hd ?o)"
      using ds(2) [OF ne, of row r_created] row by auto
    ultimately show False by simp
  qed
  then obtain rs where o: "?o = row # rs" using ne dn by (metis list.collapse)
  obtain dl where l1: "loadDisks (r_report row) ?d = (dl, ?d)" "mset dl = mset (hw_disks info)"
    using row_scanner.loaders_fresh(1) [OF eng(2) refl d(1,2,4,3)] by blast
  obtain nl where l2: "loadNets (r_report row) ?d = (Some nl, ?d)" "mset nl = mset (hw_nets info)"
    using row_scanner.loaders_fresh(2) [OF eng(2) refl d(1,2,4,3)] by blast
  note l3 = row_scanner.loaders_fresh(3,4) [OF eng(2) refl d(1,2,4,3)]
  have "GetLatestHardware v ?d = (map_option (\<lambda>i. Inr (Some i)) (fst (load_info row ?d)), snd (load_info row ?d))"
    using d(1) o by (simp add: GetLatestHardware_def no_faults_def sql_limit_def split: prod.split)
  then show ?thesis
    using l1 l2 l3 by (simp add: load_info_def same_hardware_def stored_info_def row report_row_of_def)
qed

text \<open>A save on an engine that does not fail, for an id that is new.\<close>

lemma tx_run_disks_works:
  "db_verdicts d = [] \<Longrightarrow>
   tx_run (map (\<lambda>k. (c, insert_disk (f k))) ks) d = (None, d\<lparr>disks := disks d @ map f ks\<rparr>)"
  by (induction ks arbitrary: d) (simp_all add: insert_disk_def)

lemma tx_run_nets_works:
  "db_verdicts d = [] \<Longrightarrow>
   tx_run (map (\<lambda>n. (c, insert_net (f n))) ns) d = (None, d\<lparr>nets := nets d @ map f ns\<rparr>)"
  by (induction ns arbitrary: d) (simp_all add: insert_net_def)

lemma save_report_works:
  assumes "no_faults d" "db_wf d" "rr_type rep = RT_Hardware (Some info)"
    and "rr_report_id rep \<notin> r_report ` set (reports d)"
  shows "SaveHardwareReport now sid v rep d =
    (Inr (), add_report (report_row_of now (rr_report_id rep) sid v info) info d)"
proof -
  let ?k = "rr_report_id rep"
  have fresh: "?k \<notin> b_report ` set (bioses d)" "?k \<notin> m_report ` set (boards d)"
    using assms(2,4) by (auto simp: db_wf_def refs_ok_def Let_def)
  then show ?thesis
    using assms(1,3,4)
    by (simp add: SaveHardwareReport_def save_in_tx_def insert_report_def no_faults_def
        sub_statements_def tx_run_append tx_run_disks_works tx_run_nets_works insert_bios_def
        insert_board_def commit_def add_report_def Let_def split: option.splits)
qed

section \<open>History\<close>

lemma load_snapshots_keys:
  "load_snapshots rs d = (Some ss, d') \<Longrightarrow>
   map hs_report ss = map r_report rs \<and> map hs_created ss = map r_created rs"
  by (induction rs arbitrary: d d' ss) (auto split: prod.splits option.splits)

text \<open>Whatever the engine does, a history that is returned is one of the device, in the range, newest first.\<close>

lemma history_rows:
  assumes "desc_sorter (eng_order (db_engine d))"
    and "ListHardwareReports v since until lim d = (Some (Inr ss), d')"
  obtains rs where "map hs_report ss = map r_report rs" "map hs_created ss = map r_created rs"
    "length rs \<le> nat (history_limit lim)"
    "\<forall>r \<in> set rs. r \<in> set (reports d) \<and> r_device r = v \<and> in_range since until (r_created r)"
    "sorted_wrt (\<lambda>r s. r_created s \<le> r_created r) rs"
    "distinct (map r_report (reports d)) \<longrightarrow> distinct (map r_report rs)"
proof -
  let ?f = "filter (\<lambda>r. r_device r = v \<and> in_range since until (r_created r)) (reports d)"
  let ?o = "order_desc (eng_order (db_engine d)) r_created ?f"
  let ?n = "nat (history_limit lim)"
  have lim: "0 \<le> history_limit lim" by (simp add: history_limit_def)
  from assms(2) obtain rs d1 where
    q: "sql_query (\<lambda>d. Inr (sql_limit (history_limit lim)
          (order_desc (eng_order (db_engine d)) r_created
             (filter (\<lambda>r. r_device r = v \<and> in_range since until (r_created r)) (reports d))))) d =
        (Inr (rs, None), d1)"
    and l: "load_snapshots rs d1 = (Some ss, d')"
    by (auto simp: ListHardwareReports_def split: prod.splits sum.splits option.splits)
  have "rs = take ?n ?o"
    using q lim by (auto simp: sql_query_def sql_limit_def next_verdict_def
        split: prod.splits verdict.splits list.splits)
  moreover have "sorted_wrt (\<lambda>r s. r_created s \<le> r_created r) (take ?n ?o)"
    using desc_sorter.sorted_order [OF assms(1)] by (rule sorted_wrt_take)
  moreover have "set (take ?n ?o) \<subseteq> set ?f"
    using desc_sorter.set_order [OF assms(1), of r_created ?f] set_take_subset by fast
  moreover have "distinct (map r_report (take ?n ?o))" if "distinct (map r_report (reports d))"
    using desc_sorter.distinct_order [OF assms(1) distinct_map_filter [OF that], where key = r_created]
    by (simp flip: take_map)
  ultimately show thesis using load_snapshots_keys [OF l] by (intro that [of rs]) auto
qed

lemma same_tables_store_reads:
  "loadDisks k d = (a, d') \<Longrightarrow> same_tables d d'" "loadNets k d = (b, d') \<Longrightarrow> same_tables d d'"
  "loadBIOS k d = (c, d') \<Longrightarrow> same_tables d d'" "loadMotherboard k d = (e, d') \<Longrightarrow> same_tables d d'"
  by (auto simp: loadDisks_def loadNets_def loadBIOS_def loadMotherboard_def
      dest: sql_query_same sql_exec_read split: prod.splits sum.splits list.splits)

lemma load_info_same: "load_info r d = (io, d') \<Longrightarrow> same_tables d d'"
  by (auto simp: load_info_def dest!: same_tables_store_reads split: prod.splits option.splits
      intro: same_tables_trans)

lemma load_snapshots_same: "load_snapshots rs d = (so, d') \<Longrightarrow> same_tables d d'"
proof (induction rs arbitrary: d d' so)
  case (Cons r rs)
  then show ?case
    by (auto split: prod.splits option.splits dest!: load_info_same intro: same_tables_trans)
qed simp

lemma GetLatestHardware_same: "GetLatestHardware v d = (r, d') \<Longrightarrow> same_tables d d'"
  by (auto simp: GetLatestHardware_def dest!: sql_exec_read load_info_same
      split: prod.splits sum.splits list.splits intro: same_tables_trans)

lemma ListHardwareReports_same: "ListHardwareReports v a b l d = (r, d') \<Longrightarrow> same_tables d d'"
  by (auto simp: ListHardwareReports_def dest!: sql_query_same load_snapshots_same
      split: prod.splits sum.splits option.splits intro: same_tables_trans)

end
