(* ===== verification/Connection.thy ===== *)
theory Connection
  imports Proto "HOL-Library.AList"
begin

text \<open>
  \<open>connection.go\<close>: the registry of sessions. The Go map \<open>sessions\<close> is an association list with
  distinct keys; a loop over it takes the order of its visits as an argument. A channel
  \<open>chan *proto.Command\<close> of capacity 32 is the list of its elements, \<open>DisconnectCh\<close> the flag whether
  it is closed, a stream its number. Times are nanoseconds since 1970, and every operation runs
  under the manager's lock, so each is one atomic step.

  The locale \<open>fifo_queue\<close> is the contract of the command queue, the locale \<open>registry\<close> that of the
  session map; both are interpreted on the definitions here.
\<close>

section \<open>Bounded channels\<close>

definition cmdQueueCapacity :: nat where
  "cmdQueueCapacity = 32"

text \<open>A non-blocking send (\<open>select\<close> with a default case) and a receive.\<close>

definition chan_send :: "nat \<Rightarrow> 'a \<Rightarrow> 'a list \<Rightarrow> 'a list option" where
  "chan_send n x q = (if length q < n then Some (q @ [x]) else None)"

definition chan_recv :: "'a list \<Rightarrow> ('a \<times> 'a list) option" where
  "chan_recv q = (case q of [] \<Rightarrow> None | x # xs \<Rightarrow> Some (x, xs))"

datatype 'a queue_op = Put 'a | Take

primrec queue_run ::
  "('a \<Rightarrow> 'q \<Rightarrow> 'q option) \<Rightarrow> ('q \<Rightarrow> ('a \<times> 'q) option) \<Rightarrow> 'a queue_op list \<Rightarrow>
   'q \<times> 'a list \<times> 'a list \<Rightarrow> 'q \<times> 'a list \<times> 'a list" where
  "queue_run snd' rcv [] st = st"
| "queue_run snd' rcv (x # xs) st = (case st of (q, acc, del) \<Rightarrow>
     queue_run snd' rcv xs
       (case x of
          Put a \<Rightarrow> (case snd' a q of Some q' \<Rightarrow> (q', acc @ [a], del) | None \<Rightarrow> st)
        | Take \<Rightarrow> (case rcv q of Some (a, q') \<Rightarrow> (q', acc, del @ [a]) | None \<Rightarrow> st)))"

locale fifo_queue =
  fixes items :: "'q \<Rightarrow> 'a list"
    and cap :: nat
    and put :: "'a \<Rightarrow> 'q \<Rightarrow> 'q option"
    and tak :: "'q \<Rightarrow> ('a \<times> 'q) option"
  assumes put_room: "length (items q) < cap \<Longrightarrow> \<exists>q'. put x q = Some q' \<and> items q' = items q @ [x]"
    and put_full: "cap \<le> length (items q) \<Longrightarrow> put x q = None"
    and tak_none: "items q = [] \<Longrightarrow> tak q = None"
    and tak_some: "items q = x # xs \<Longrightarrow> \<exists>q'. tak q = Some (x, q') \<and> items q' = xs"
begin

lemma put_some: "put x q = Some q' \<Longrightarrow> items q' = items q @ [x] \<and> length (items q) < cap"
  using put_room put_full by (metis leI option.distinct(1) option.inject)

lemma tak_cases: "tak q = Some (x, q') \<Longrightarrow> items q = x # items q'"
  using tak_none tak_some by (metis list.exhaust option.distinct(1) option.inject prod.inject)

text \<open>
  Whatever the interleaving of sends and receives: what was accepted is what was delivered
  followed by what is still queued, in the same order, and the capacity is never exceeded.
\<close>

lemma run_fifo:
  assumes "queue_run put tak ops (q, acc, del) = (q', acc', del')"
    and "acc = del @ items q" "length (items q) \<le> cap"
  shows "acc' = del' @ items q' \<and> length (items q') \<le> cap"
  using assms
proof (induction ops arbitrary: q acc del)
  case (Cons x xs)
  show ?case
  proof (cases x)
    case (Put a)
    show ?thesis
    proof (cases "put a q")
      case None
      then show ?thesis using Cons Put by simp
    next
      case (Some q1)
      then show ?thesis using Cons.prems Put put_some [OF Some] Cons.IH [of q1 "acc @ [a]" del]
        by simp
    qed
  next
    case Take
    show ?thesis
    proof (cases "tak q")
      case None
      then show ?thesis using Cons Take by simp
    next
      case (Some p)
      obtain a q1 where p: "p = (a, q1)" by (cases p)
      show ?thesis using Cons.prems Take Some p tak_cases [of q a q1] Cons.IH [of q1 acc "del @ [a]"]
        by simp
    qed
  qed
qed simp

lemma run_from_empty:
  assumes "queue_run put tak ops (q, [], []) = (q', acc, del)" "items q = []"
  shows "acc = del @ items q'" "length (items q') \<le> cap"
  using run_fifo [OF assms(1)] assms(2) by auto

end

interpretation cmd_queue: fifo_queue "\<lambda>q. q" cmdQueueCapacity "chan_send cmdQueueCapacity" chan_recv
  by unfold_locales (auto simp: chan_send_def chan_recv_def)

section \<open>Sessions\<close>

record client_conn =
  cc_session :: string
  cc_device :: string
  cc_hostname :: string
  cc_os :: string
  cc_os_version :: string
  cc_client_version :: string
  cc_macs :: "string list"
  cc_ips :: "string list"
  cc_stream :: "nat option"
  cc_closed :: bool
  cc_queue :: "command list"
  cc_last_heartbeat :: int
  cc_online :: bool
  cc_connected_at :: int

record conn_manager =
  cm_sessions :: "(string \<times> client_conn) list"
  cm_max :: int

definition NewConnectionManager :: conn_manager where
  "NewConnectionManager = \<lparr>cm_sessions = [], cm_max = 0\<rparr>"

definition SetMaxConns :: "int \<Rightarrow> conn_manager \<Rightarrow> conn_manager" where
  "SetMaxConns n cm = cm\<lparr>cm_max := n\<rparr>"

definition Add :: "client_conn \<Rightarrow> conn_manager \<Rightarrow> conn_manager" where
  "Add conn cm = cm\<lparr>cm_sessions := AList.update (cc_session conn)
     (conn\<lparr>cc_closed := False, cc_queue := []\<rparr>) (cm_sessions cm)\<rparr>"

definition Remove :: "string \<Rightarrow> conn_manager \<Rightarrow> conn_manager" where
  "Remove sid cm = cm\<lparr>cm_sessions := AList.delete sid (cm_sessions cm)\<rparr>"

definition Get :: "string \<Rightarrow> conn_manager \<Rightarrow> client_conn option" where
  "Get sid cm = map_of (cm_sessions cm) sid"

definition Count :: "conn_manager \<Rightarrow> nat" where
  "Count cm = length (cm_sessions cm)"

definition IsFull :: "conn_manager \<Rightarrow> bool" where
  "IsFull cm \<longleftrightarrow> 0 < cm_max cm \<and> cm_max cm \<le> int (Count cm)"

text \<open>A write through the pointer that the map holds; nothing happens without an entry.\<close>

definition upd_conn :: "string \<Rightarrow> (client_conn \<Rightarrow> client_conn) \<Rightarrow> conn_manager \<Rightarrow> conn_manager" where
  "upd_conn sid f cm = (case Get sid cm of
      None \<Rightarrow> cm
    | Some c \<Rightarrow> cm\<lparr>cm_sessions := AList.update sid (f c) (cm_sessions cm)\<rparr>)"

definition Kick :: "string \<Rightarrow> conn_manager \<Rightarrow> conn_manager" where
  "Kick sid = upd_conn sid (\<lambda>c. if cc_online c then c\<lparr>cc_closed := True\<rparr> else c)"

definition RecordHeartbeat :: "int \<Rightarrow> string \<Rightarrow> conn_manager \<Rightarrow> conn_manager" where
  "RecordHeartbeat now sid = upd_conn sid (\<lambda>c. c\<lparr>cc_last_heartbeat := now, cc_online := True\<rparr>)"

definition cm_MarkOffline :: "string \<Rightarrow> conn_manager \<Rightarrow> conn_manager" where
  "cm_MarkOffline sid = upd_conn sid (\<lambda>c. c\<lparr>cc_online := False\<rparr>)"

definition SetStream :: "int \<Rightarrow> string \<Rightarrow> nat \<Rightarrow> conn_manager \<Rightarrow> conn_manager" where
  "SetStream now sid st =
     upd_conn sid (\<lambda>c. c\<lparr>cc_stream := Some st, cc_online := True, cc_last_heartbeat := now\<rparr>)"

definition GetStream :: "string \<Rightarrow> conn_manager \<Rightarrow> nat option" where
  "GetStream sid cm = (case Get sid cm of
      None \<Rightarrow> None | Some c \<Rightarrow> if cc_online c then cc_stream c else None)"

definition ClearStream :: "string \<Rightarrow> conn_manager \<Rightarrow> conn_manager" where
  "ClearStream sid = upd_conn sid (\<lambda>c. c\<lparr>cc_stream := None, cc_online := False\<rparr>)"

text \<open>\<open>now.Sub(t)\<close>: the difference, saturated to the range of \<open>time.Duration\<close>.\<close>

definition time_sub :: "int \<Rightarrow> int \<Rightarrow> int" where
  "time_sub a b = max (- (2 ^ 63)) (min (2 ^ 63 - 1) (a - b))"

definition expired :: "int \<Rightarrow> int \<Rightarrow> client_conn \<Rightarrow> bool" where
  "expired now timeout c \<longleftrightarrow> cc_online c \<and> timeout < time_sub now (cc_last_heartbeat c)"

text \<open>
  One tick of \<open>HeartbeatChecker\<close>: \<open>ids\<close> is the order in which the loop visits the map, \<open>cb\<close> the
  callback with the state it works on.
\<close>

fun heartbeat_scan ::
  "int \<Rightarrow> int \<Rightarrow> (string \<Rightarrow> 's \<Rightarrow> 's) option \<Rightarrow> string list \<Rightarrow> conn_manager \<times> 's \<Rightarrow> conn_manager \<times> 's"
where
  "heartbeat_scan now timeout cb [] st = st"
| "heartbeat_scan now timeout cb (sid # ids) st = (case st of (cm, s) \<Rightarrow>
     heartbeat_scan now timeout cb ids
       (case Get sid cm of
          None \<Rightarrow> (cm, s)
        | Some c \<Rightarrow> if expired now timeout c
            then (cm_MarkOffline sid cm, (case cb of None \<Rightarrow> s | Some f \<Rightarrow> f sid s))
            else (cm, s)))"

text \<open>\<open>kickDeviceSessions\<close> of server.go, which works on the manager's fields under its lock.\<close>

fun kick_sessions :: "string \<Rightarrow> string list \<Rightarrow> conn_manager \<Rightarrow> conn_manager" where
  "kick_sessions device [] cm = cm"
| "kick_sessions device (sid # ids) cm =
     kick_sessions device ids
       (upd_conn sid (\<lambda>c. if cc_device c = device \<and> cc_online c then c\<lparr>cc_closed := True\<rparr> else c) cm)"

section \<open>Invariant\<close>

definition cm_ok :: "conn_manager \<Rightarrow> bool" where
  "cm_ok cm \<longleftrightarrow> distinct (map fst (cm_sessions cm)) \<and>
     (\<forall>(sid, c) \<in> set (cm_sessions cm). cc_session c = sid \<and> length (cc_queue c) \<le> cmdQueueCapacity)"

definition ids_of :: "conn_manager \<Rightarrow> string set" where
  "ids_of cm = fst ` set (cm_sessions cm)"

lemma Get_upd_conn:
  "Get k (upd_conn sid f cm) = (if k = sid then map_option f (Get sid cm) else Get k cm)"
  by (auto simp: upd_conn_def Get_def update_conv' split: option.splits)

lemma Get_Add:
  "Get k (Add c cm) = (if k = cc_session c then Some (c\<lparr>cc_closed := False, cc_queue := []\<rparr>) else Get k cm)"
  by (simp add: Add_def Get_def update_conv')

lemma Get_Remove: "Get k (Remove sid cm) = (if k = sid then None else Get k cm)"
  by (simp add: Remove_def Get_def delete_conv')

lemma cm_max_simps [simp]:
  "cm_max (upd_conn sid f cm) = cm_max cm" "cm_max (Add c cm) = cm_max cm"
  "cm_max (Remove sid cm) = cm_max cm"
  by (auto simp: upd_conn_def Add_def Remove_def split: option.splits)

lemma Get_ids: "Get sid cm \<noteq> None \<longleftrightarrow> sid \<in> ids_of cm"
  by (simp add: Get_def ids_of_def map_of_eq_None_iff)

lemma ids_upd_conn [simp]: "ids_of (upd_conn sid f cm) = ids_of cm"
  by (rule set_eqI) (simp add: Get_upd_conn flip: Get_ids)

lemma ids_Add: "ids_of (Add c cm) = insert (cc_session c) (ids_of cm)"
  by (simp add: ids_of_def Add_def dom_update)

lemma cm_distinct:
  assumes "distinct (map fst (cm_sessions cm))"
  shows "distinct (map fst (cm_sessions (upd_conn sid f cm)))"
    and "distinct (map fst (cm_sessions (Add c cm)))"
    and "distinct (map fst (cm_sessions (Remove sid cm)))"
  using assms by (auto simp: upd_conn_def Add_def Remove_def distinct_update distinct_delete
      split: option.splits)

lemma Count_ids: "distinct (map fst (cm_sessions cm)) \<Longrightarrow> Count cm = card (ids_of cm)"
  by (metis Count_def ids_of_def distinct_card length_map set_map)

lemma cm_okI:
  "distinct (map fst (cm_sessions cm)) \<Longrightarrow>
   (\<And>sid c. Get sid cm = Some c \<Longrightarrow> cc_session c = sid \<and> length (cc_queue c) \<le> cmdQueueCapacity) \<Longrightarrow>
   cm_ok cm"
  by (auto simp: cm_ok_def Get_def)

lemma cm_okD:
  assumes "cm_ok cm"
  shows "distinct (map fst (cm_sessions cm))"
    and "Get sid cm = Some c \<Longrightarrow> cc_session c = sid"
    and "Get sid cm = Some c \<Longrightarrow> length (cc_queue c) \<le> cmdQueueCapacity"
  using assms by (auto simp: cm_ok_def Get_def dest: map_of_SomeD)

lemma cm_ok_new: "cm_ok NewConnectionManager"
  by (simp add: cm_ok_def NewConnectionManager_def)

lemma cm_ok_upd:
  assumes "cm_ok cm"
    and "\<And>c. Get sid cm = Some c \<Longrightarrow>
      cc_session (f c) = cc_session c \<and> length (cc_queue (f c)) \<le> cmdQueueCapacity"
  shows "cm_ok (upd_conn sid f cm)"
  using assms cm_okD [OF assms(1)]
  by (intro cm_okI cm_distinct) (auto simp: Get_upd_conn split: if_splits)

lemma cm_ok_upd_keep:
  "cm_ok cm \<Longrightarrow> (\<And>c. cc_session (f c) = cc_session c \<and> cc_queue (f c) = cc_queue c) \<Longrightarrow>
   cm_ok (upd_conn sid f cm)"
  using cm_okD(3) [of cm sid] by (intro cm_ok_upd) auto

lemma cm_ok_Add: "cm_ok cm \<Longrightarrow> cm_ok (Add c cm)"
  using cm_okD [of cm] by (intro cm_okI cm_distinct) (auto simp: Get_Add split: if_splits)

lemma cm_ok_Remove: "cm_ok cm \<Longrightarrow> cm_ok (Remove sid cm)"
  using cm_okD [of cm] by (intro cm_okI cm_distinct) (auto simp: Get_Remove split: if_splits)

lemma cm_ok_ops:
  assumes "cm_ok cm"
  shows "cm_ok (Kick sid cm)" "cm_ok (RecordHeartbeat now sid cm)" "cm_ok (cm_MarkOffline sid cm)"
    "cm_ok (SetStream now sid st cm)" "cm_ok (ClearStream sid cm)" "cm_ok (SetMaxConns n cm)"
  unfolding Kick_def RecordHeartbeat_def cm_MarkOffline_def SetStream_def ClearStream_def
  using assms cm_okD(3) [OF assms]
  by (auto intro!: cm_ok_upd) (simp add: cm_ok_def SetMaxConns_def)

section \<open>The registry contract\<close>

text \<open>
  What the handlers rely on: a write reaches the entry of its key and no other, an insertion
  replaces the entry. Loops over the map are folds of writes, and their result does not depend
  on the order of the visits.
\<close>

definition modify_all :: "('k \<Rightarrow> ('v \<Rightarrow> 'v) \<Rightarrow> 's \<Rightarrow> 's) \<Rightarrow> ('v \<Rightarrow> 'v) \<Rightarrow> 'k list \<Rightarrow> 's \<Rightarrow> 's" where
  "modify_all md f ks s = fold (\<lambda>k. md k f) ks s"

locale registry =
  fixes get :: "'k \<Rightarrow> 's \<Rightarrow> 'v option"
    and modify :: "'k \<Rightarrow> ('v \<Rightarrow> 'v) \<Rightarrow> 's \<Rightarrow> 's"
  assumes get_modify: "get k (modify j f s) = (if k = j then map_option f (get j s) else get k s)"
begin

lemma modify_other: "k \<noteq> j \<Longrightarrow> get k (modify j f s) = get k s"
  by (simp add: get_modify)

lemma get_modify_all:
  assumes "\<And>v. f (f v) = f v"
  shows "get k (modify_all modify f ks s) = (if k \<in> set ks then map_option f (get k s) else get k s)"
  unfolding modify_all_def
  by (induction ks arbitrary: s) (auto simp: get_modify option.map_comp o_def assms)

lemma modify_all_order:
  assumes "\<And>v. f (f v) = f v" "set ks = set js"
  shows "get k (modify_all modify f ks s) = get k (modify_all modify f js s)"
  by (simp add: get_modify_all assms)

end

interpretation sessions: registry Get upd_conn
  by unfold_locales (simp add: Get_upd_conn)

definition kick_conn :: "string \<Rightarrow> client_conn \<Rightarrow> client_conn" where
  "kick_conn device c =
     (if cc_device c = device \<and> cc_online c then c\<lparr>cc_closed := True\<rparr> else c)"

lemma kick_sessions_fold: "kick_sessions device ids cm = modify_all upd_conn (kick_conn device) ids cm"
  by (induction ids arbitrary: cm) (simp_all add: modify_all_def kick_conn_def [abs_def])

lemma Get_kick_sessions:
  "Get k (kick_sessions device ids cm) =
   (if k \<in> set ids then map_option (kick_conn device) (Get k cm) else Get k cm)"
  unfolding kick_sessions_fold by (rule sessions.get_modify_all) (simp add: kick_conn_def)

lemma length_update_present: "map_of al k = Some v \<Longrightarrow> length (AList.update k w al) = length al"
  by (induction al) auto

lemma Count_upd_conn [simp]: "Count (upd_conn sid f cm) = Count cm"
  by (auto simp: upd_conn_def Count_def Get_def length_update_present split: option.splits)

lemma kick_sessions_count: "Count (kick_sessions device ids cm) = Count cm"
  by (induction ids arbitrary: cm) simp_all

lemma kick_sessions_simps [simp]:
  "cm_max (kick_sessions device ids cm) = cm_max cm"
  "ids_of (kick_sessions device ids cm) = ids_of cm"
  by (induction ids arbitrary: cm) simp_all

section \<open>The heartbeat scan\<close>

definition offline_if :: "(client_conn \<Rightarrow> bool) \<Rightarrow> client_conn \<Rightarrow> client_conn" where
  "offline_if P c = (if P c then c\<lparr>cc_online := False\<rparr> else c)"

lemma scan_step:
  "heartbeat_scan now timeout cb (sid # ids) (cm, s) =
   heartbeat_scan now timeout cb ids
     (upd_conn sid (offline_if (expired now timeout)) cm,
      (case Get sid cm of None \<Rightarrow> s | Some c \<Rightarrow>
         if expired now timeout c then (case cb of None \<Rightarrow> s | Some f \<Rightarrow> f sid s) else s))"
  by (auto simp: cm_MarkOffline_def upd_conn_def offline_if_def Get_def update_triv
      split: option.splits)

lemma scan_modify:
  "fst (heartbeat_scan now timeout cb ids (cm, s)) =
   modify_all upd_conn (offline_if (expired now timeout)) ids cm"
  by (induction ids arbitrary: cm s) (simp_all add: scan_step modify_all_def del: heartbeat_scan.simps(2))

lemma Get_scan:
  "Get k (fst (heartbeat_scan now timeout cb ids (cm, s))) =
   (if k \<in> set ids then map_option (offline_if (expired now timeout)) (Get k cm) else Get k cm)"
  unfolding scan_modify
  by (rule sessions.get_modify_all) (simp add: offline_if_def expired_def)

lemma cm_ok_modify_all:
  "cm_ok cm \<Longrightarrow> (\<And>c. cc_session (f c) = cc_session c \<and> cc_queue (f c) = cc_queue c) \<Longrightarrow>
   cm_ok (modify_all upd_conn f ids cm)"
  unfolding modify_all_def by (induction ids arbitrary: cm) (simp_all add: cm_ok_upd_keep)

lemma cm_ok_kick_sessions: "cm_ok cm \<Longrightarrow> cm_ok (kick_sessions device ids cm)"
  unfolding kick_sessions_fold by (rule cm_ok_modify_all) (auto simp: kick_conn_def)

lemma scan_ok: "cm_ok cm \<Longrightarrow> cm_ok (fst (heartbeat_scan now timeout cb ids (cm, s)))"
  unfolding scan_modify by (rule cm_ok_modify_all) (auto simp: offline_if_def)

lemma modify_all_simps [simp]:
  "ids_of (modify_all upd_conn f ids cm) = ids_of cm" "cm_max (modify_all upd_conn f ids cm) = cm_max cm"
  unfolding modify_all_def by (induction ids arbitrary: cm) simp_all

text \<open>The callback runs once for every session that has just expired, and for no other.\<close>

lemma scan_callbacks:
  "distinct ids \<Longrightarrow>
   snd (heartbeat_scan now timeout (Some f) ids (cm, s)) =
   fold f (filter (\<lambda>k. case Get k cm of None \<Rightarrow> False | Some c \<Rightarrow> expired now timeout c) ids) s"
proof (induction ids arbitrary: cm s)
  case (Cons sid ids)
  let ?cm = "upd_conn sid (offline_if (expired now timeout)) cm"
  have "Get k ?cm = Get k cm" if "k \<in> set ids" for k
    using Cons.prems that by (auto simp: Get_upd_conn)
  then have f: "filter (\<lambda>k. case Get k ?cm of None \<Rightarrow> False | Some c \<Rightarrow> expired now timeout c) ids =
      filter (\<lambda>k. case Get k cm of None \<Rightarrow> False | Some c \<Rightarrow> expired now timeout c) ids"
    by (intro filter_cong) auto
  show ?case using Cons
    by (simp add: scan_step f del: heartbeat_scan.simps(2) split: option.splits)
qed simp

end
