(* ===== verification/CommandFlow.thy ===== *)
theory CommandFlow
  imports HardwareStore Connection
begin

text \<open>
  The server's state and \<open>command.go\<close>: sending a command, the consumer goroutine of a channel, the
  timeout watcher and the result handler. The state holds the registry, the database, the
  registrations that have passed their checks and not yet been added, the open \<open>Channel\<close> handlers by stream number, the running timeout watchers, the messages sent on each
  stream, and the command lines of the server's log (\<open>queued\<close>, \<open>sent\<close>, \<open>consumer send failed\<close>),
  which nothing reads.

  One round of the consumer is two atomic steps, because the client may answer between them: the
  send, and the update of the status to \<open>Sent\<close>. Fresh identifiers, clock readings and whether
  \<open>stream.Send\<close> succeeds are arguments.
\<close>

datatype stream_error = StatusErr grpc_status | RecvErr string

text \<open>
  An open handler: \<open>ch_unmarked\<close> is the command its consumer has sent and not yet marked,
  \<open>ch_result\<close> what the receive loop returned, if it has.
\<close>

record channel =
  ch_session :: string
  ch_unmarked :: "command option"
  ch_result :: "stream_error option option"

datatype command_line =
    LogQueued string command
  | LogSent string command
  | LogDropped string command

record server =
  sv_cm :: conn_manager
  sv_db :: db
  sv_admitted :: "handshake_request list"
  sv_chans :: "(nat \<times> channel) list"
  sv_timers :: "(string \<times> int64) list"
  sv_out :: "(nat \<times> server_message) list"
  sv_log :: "command_line list"

text \<open>\<open>err.Error()\<close>.\<close>

definition err_text :: "store_error \<Rightarrow> string" where
  "err_text e = (case e of ErrNoRows \<Rightarrow> ''sql: no rows in result set'' | StoreErr m \<Rightarrow> m)"

definition internal_error :: "string \<Rightarrow> store_error \<Rightarrow> grpc_status" where
  "internal_error what e = \<lparr>st_code = Internal, st_message = what @ '': '' @ err_text e\<rparr>"

text \<open>Running a store operation on the server's database.\<close>

definition on_db :: "(db \<Rightarrow> 'a \<times> db) \<Rightarrow> server \<Rightarrow> 'a \<times> server" where
  "on_db f s = (case f (sv_db s) of (a, d) \<Rightarrow> (a, s\<lparr>sv_db := d\<rparr>))"

text \<open>The update of a status whose error is ignored or only logged.\<close>

definition set_command_status :: "string \<Rightarrow> string \<Rightarrow> server \<Rightarrow> server" where
  "set_command_status k st s = snd (on_db (UpdateCommandStatus k st) s)"

section \<open>Sending a command\<close>

definition enqueue :: "string \<Rightarrow> command \<Rightarrow> conn_manager \<Rightarrow> conn_manager option" where
  "enqueue sid cmd cm = (case Get sid cm of
      None \<Rightarrow> None
    | Some c \<Rightarrow> (case chan_send cmdQueueCapacity cmd (cc_queue c) of
        None \<Rightarrow> None
      | Some q \<Rightarrow> Some (upd_conn sid (\<lambda>c. c\<lparr>cc_queue := q\<rparr>) cm)))"

definition default_timeout_sec :: int64 where
  "default_timeout_sec = 30"

definition queue_full_message :: string where
  "queue_full_message = ''command queue full '' @ map byte_char [226, 128, 148] @ '' retry later''"

definition build_command :: "string \<Rightarrow> send_command_request \<Rightarrow> nat \<Rightarrow> command" where
  "build_command uuid req unix =
     \<lparr>cd_id = uuid, cd_type = sc_type req, cd_params = sc_params req,
      cd_timeout_sec = (if sc_timeout_sec req \<le>s 0 then default_timeout_sec else sc_timeout_sec req),
      cd_created_at_unix = of_nat unix\<rparr>"

definition refused :: "string \<Rightarrow> string \<Rightarrow> send_command_response" where
  "refused k msg = \<lparr>sr_ok = False, sr_command_id = k, sr_message = msg\<rparr>"

definition SendCommand ::
  "string \<Rightarrow> nat \<Rightarrow> nat \<Rightarrow> send_command_request \<Rightarrow> server \<Rightarrow>
   (grpc_status + send_command_response) \<times> server" where
  "SendCommand uuid now unix req s =
     (if sc_device_id req = []
      then (Inl \<lparr>st_code = InvalidArgument, st_message = ''device_id is required''\<rparr>, s)
      else if sc_type req = ct_unspecified
      then (Inl \<lparr>st_code = InvalidArgument, st_message = ''command type is required''\<rparr>, s)
      else case on_db (GetTerminalByDevice (sc_device_id req)) s of
        (Inl _, s1) \<Rightarrow> (Inr (refused [] ''device not found''), s1)
      | (Inr t, s1) \<Rightarrow>
          (case Get (tm_session t) (sv_cm s1) of
             None \<Rightarrow> (Inr (refused [] ''terminal is offline''), s1)
           | Some conn \<Rightarrow>
               if \<not> cc_online conn then (Inr (refused [] ''terminal is offline''), s1)
               else case on_db (SaveCommandLog now uuid (tm_session t) (sc_device_id req)
                                  (sc_type req) (sc_params req)) s1 of
                 (Inl e, s2) \<Rightarrow> (Inl (internal_error ''save command log failed'' e), s2)
               | (Inr _, s2) \<Rightarrow>
                   (let cmd = build_command uuid req unix in
                    case enqueue (tm_session t) cmd (sv_cm s2) of
                      None \<Rightarrow> (Inr (refused uuid queue_full_message),
                               set_command_status uuid ''Failed'' s2)
                    | Some cm' \<Rightarrow>
                        (Inr \<lparr>sr_ok = True, sr_command_id = uuid, sr_message = ''queued''\<rparr>,
                         s2\<lparr>sv_cm := cm',
                            sv_log := sv_log s2 @ [LogQueued (tm_session t) cmd]\<rparr>))))"

section \<open>The consumer\<close>

text \<open>
  \<open>time.Duration(cmd.GetTimeoutSec()) * time.Second\<close> in nanoseconds, a 64-bit product that wraps,
  and the default for a result that is not positive.
\<close>

definition timeout_ns :: "int64 \<Rightarrow> int64" where
  "timeout_ns sec = (let t = sec * 1000000000 in if t \<le>s 0 then 30000000000 else t)"

definition set_channel :: "nat \<Rightarrow> channel \<Rightarrow> server \<Rightarrow> server" where
  "set_channel st ch s = s\<lparr>sv_chans := AList.update st ch (sv_chans s)\<rparr>"

definition command_message :: "command \<Rightarrow> server_message" where
  "command_message cmd = \<lparr>sm_seq = 0, sm_payload = SP_Command cmd\<rparr>"

text \<open>The receive from the queue and \<open>stream.Send\<close>, which \<open>ok\<close> says to succeed or not.\<close>

definition consumer_send :: "nat \<Rightarrow> bool \<Rightarrow> server \<Rightarrow> server" where
  "consumer_send st ok s = (case map_of (sv_chans s) st of
      None \<Rightarrow> s
    | Some ch \<Rightarrow> if ch_unmarked ch \<noteq> None then s else
        (case Get (ch_session ch) (sv_cm s) of
           None \<Rightarrow> s
         | Some c \<Rightarrow> (case chan_recv (cc_queue c) of
             None \<Rightarrow> s
           | Some (cmd, q) \<Rightarrow>
               (let s1 = s\<lparr>sv_cm := upd_conn (ch_session ch) (\<lambda>c. c\<lparr>cc_queue := q\<rparr>) (sv_cm s)\<rparr> in
                if ok
                then set_channel st (ch\<lparr>ch_unmarked := Some cmd\<rparr>)
                       (s1\<lparr>sv_out := sv_out s @ [(st, command_message cmd)],
                           sv_log := sv_log s @ [LogSent (ch_session ch) cmd]\<rparr>)
                else set_command_status (cd_id cmd) ''Failed''
                       (s1\<lparr>sv_log := sv_log s @ [LogDropped (ch_session ch) cmd]\<rparr>)))))"

text \<open>\<open>UpdateCommandStatus(..., "Sent")\<close> and the start of the watcher.\<close>

definition consumer_mark :: "nat \<Rightarrow> server \<Rightarrow> server" where
  "consumer_mark st s = (case map_of (sv_chans s) st of
      None \<Rightarrow> s
    | Some ch \<Rightarrow> (case ch_unmarked ch of
        None \<Rightarrow> s
      | Some cmd \<Rightarrow>
          (let s1 = set_command_status (cd_id cmd) ''Sent'' s in
           set_channel st (ch\<lparr>ch_unmarked := None\<rparr>)
             (s1\<lparr>sv_timers := sv_timers s @ [(cd_id cmd, timeout_ns (cd_timeout_sec cmd))]\<rparr>))))"

text \<open>One round of the loop when nothing comes between.\<close>

definition commandConsumer :: "nat \<Rightarrow> bool \<Rightarrow> server \<Rightarrow> server" where
  "commandConsumer st ok s = consumer_mark st (consumer_send st ok s)"

text \<open>A watcher whose time has come: it runs once and ends.\<close>

definition watchCommandTimeout :: "nat \<Rightarrow> string \<Rightarrow> server \<Rightarrow> server" where
  "watchCommandTimeout now k s = (case find (\<lambda>t. fst t = k) (sv_timers s) of
      None \<Rightarrow> s
    | Some t \<Rightarrow> snd (on_db (MarkCommandTimeout now k) (s\<lparr>sv_timers := remove1 t (sv_timers s)\<rparr>)))"

section \<open>Results and the log\<close>

text \<open>
  \<open>formatUnixTime\<close>; for seconds so far in the future that the standard library's own 64-bit sum
  wraps, the text is unspecified here.
\<close>

definition formatUnixTime :: "int64 \<Rightarrow> string" where
  "formatUnixTime unix = (if unix \<le>s 0 then [] else rfc3339 (nat (sint unix)))"

definition handleCommandResult :: "string \<Rightarrow> command_result \<Rightarrow> server \<Rightarrow> server" where
  "handleCommandResult sid res s =
     snd (on_db (UpdateCommandResult (cr_id res) (cr_status res) (cr_exit_code res)
            (cr_stdout res) (cr_stderr res) (cr_error_message res)
            (formatUnixTime (cr_started_at_unix res)) (formatUnixTime (cr_finished_at_unix res))) s)"

definition pb_entry :: "log_entry \<Rightarrow> command_log_entry" where
  "pb_entry e = \<lparr>ce_id = le_command e, ce_session_id = le_session e, ce_device_id = le_device e,
     ce_type = le_type e, ce_params = le_params e, ce_status = le_status e,
     ce_exit_code = le_exit e, ce_stdout = le_stdout e, ce_stderr = le_stderr e,
     ce_error_message = le_error e, ce_created_at = le_created e, ce_started_at = le_started e,
     ce_finished_at = le_finished e\<rparr>"

definition server_GetCommandLog ::
  "get_command_log_request \<Rightarrow> server \<Rightarrow> (grpc_status + command_log_entry list) option \<times> server"
where
  "server_GetCommandLog req s =
     (let limit = sint (gl_limit req); lim = (if limit \<le> 0 \<or> 200 < limit then 50 else limit) in
      case on_db (GetCommandLog (gl_device_id req) (gl_session_id req) lim) s of
        (None, s1) \<Rightarrow> (None, s1)
      | (Some (Inl e), s1) \<Rightarrow> (Some (Inl (internal_error ''get command log failed'' e)), s1)
      | (Some (Inr es), s1) \<Rightarrow> (Some (Inr (map pb_entry es)), s1))"

end
