(* ===== verification/Server.thy ===== *)
theory Server
  imports CommandFlow
begin

text \<open>
  \<open>server.go\<close>: the RPC handlers, and the transition system of the server in which calls
  interleave. A \<open>Register\<close> call is two steps, its checks and its effects. A \<open>Channel\<close> call is
  split into its opening, each turn of the receive loop, the consumer's two steps, and the return
  with its deferred calls, which waits for the consumer. The other calls are one step each;
  \<open>Interleaving\<close> takes all of them apart.
\<close>

section \<open>Register\<close>

text \<open>
  The admission checks. An error of the blocklist query is only logged, and admission goes on.
\<close>

definition admit :: "handshake_request \<Rightarrow> server \<Rightarrow> (grpc_status + handshake_response) option \<times> server"
where
  "admit req s =
     (if IsFull (sv_cm s)
      then (Some (Inl \<lparr>st_code = ResourceExhausted, st_message = ''server at capacity''\<rparr>), s)
      else case on_db (IsDeviceBlocked (hs_device_id req)) s of
        (Inr True, s1) \<Rightarrow> (Some (Inr \<lparr>hr_ok = False, hr_session_id = [], hr_server_time = [],
            hr_message = ''device is blocked''\<rparr>), s1)
      | (_, s1) \<Rightarrow> (None, s1))"

definition new_conn :: "string \<Rightarrow> int \<Rightarrow> handshake_request \<Rightarrow> client_conn" where
  "new_conn sid ns req = \<lparr>cc_session = sid, cc_device = hs_device_id req,
     cc_hostname = hs_hostname req, cc_os = hs_os req, cc_os_version = hs_os_version req,
     cc_client_version = hs_client_version req, cc_macs = hs_mac_addrs req,
     cc_ips = hs_ip_addrs req, cc_stream = None, cc_closed = False, cc_queue = [],
     cc_last_heartbeat = - 62135596800 * 10 ^ 9, cc_online = False, cc_connected_at = ns\<rparr>"

text \<open>What follows the checks: the session is added, then persisted; a failure to persist is logged.\<close>

definition enrol ::
  "string \<Rightarrow> nat \<Rightarrow> int \<Rightarrow> string \<Rightarrow> handshake_request \<Rightarrow> server \<Rightarrow> handshake_response \<times> server"
where
  "enrol uuid now ns serverTime req s =
     (let s1 = s\<lparr>sv_cm := Add (new_conn uuid ns req) (sv_cm s)\<rparr>;
          s2 = snd (on_db (UpsertTerminal now uuid (hs_device_id req) (hs_hostname req) (hs_os req)
                 (hs_os_version req) (hs_kernel_version req) (hs_client_version req)
                 (hs_mac_addrs req) (hs_ip_addrs req)) s1)
      in (\<lparr>hr_ok = True, hr_session_id = uuid, hr_server_time = serverTime,
           hr_message = ''welcome to TeamX''\<rparr>, s2))"

definition Register ::
  "string \<Rightarrow> nat \<Rightarrow> int \<Rightarrow> string \<Rightarrow> handshake_request \<Rightarrow> server \<Rightarrow>
   (grpc_status + handshake_response) \<times> server" where
  "Register uuid now ns serverTime req s = (case admit req s of
      (Some r, s1) \<Rightarrow> (r, s1)
    | (None, s1) \<Rightarrow> (case enrol uuid now ns serverTime req s1 of (r, s2) \<Rightarrow> (Inr r, s2)))"

section \<open>Channel\<close>

text \<open>The incoming metadata, if there is any: lower-case keys with their values.\<close>

definition extractSessionID :: "(string \<times> string list) list option \<Rightarrow> grpc_status + string" where
  "extractSessionID md = (case md of
      None \<Rightarrow> Inl \<lparr>st_code = Unauthenticated, st_message =
                 ''metadata required '' @ map byte_char [226, 128, 148] @ '' provide session-id''\<rparr>
    | Some m \<Rightarrow> (case map_of m ''session-id'' of
        Some (sid # _) \<Rightarrow> Inr sid
      | _ \<Rightarrow> Inl \<lparr>st_code = Unauthenticated, st_message = ''session-id header required''\<rparr>))"

definition session_not_found :: "string \<Rightarrow> grpc_status" where
  "session_not_found sid = \<lparr>st_code = NotFound, st_message =
     ''session '' @ sid @ '' not found '' @ map byte_char [226, 128, 148] @ '' call Register first''\<rparr>"

definition Channel_open ::
  "nat \<Rightarrow> int \<Rightarrow> (string \<times> string list) list option \<Rightarrow> server \<Rightarrow> grpc_status option \<times> server" where
  "Channel_open st ns md s = (case extractSessionID md of
      Inl e \<Rightarrow> (Some e, s)
    | Inr sid \<Rightarrow> (case Get sid (sv_cm s) of
        None \<Rightarrow> (Some (session_not_found sid), s)
      | Some _ \<Rightarrow> (None, set_channel st \<lparr>ch_session = sid, ch_unmarked = None, ch_result = None\<rparr>
                    (s\<lparr>sv_cm := SetStream ns sid st (sv_cm s)\<rparr>))))"

definition handleHeartbeat :: "nat \<Rightarrow> int \<Rightarrow> bool \<Rightarrow> nat \<Rightarrow> string \<Rightarrow> server \<Rightarrow> server" where
  "handleHeartbeat now ns ok st sid s =
     (let s1 = s\<lparr>sv_cm := RecordHeartbeat ns sid (sv_cm s)\<rparr>;
          s2 = snd (on_db (UpdateHeartbeat now sid) s1);
          ack = \<lparr>sm_seq = 0, sm_payload = SP_HeartbeatAck \<lparr>ha_server_time_unix = of_nat now\<rparr>\<rparr>
      in if ok then s2\<lparr>sv_out := sv_out s2 @ [(st, ack)]\<rparr> else s2)"

definition handleReport :: "nat \<Rightarrow> string \<Rightarrow> string \<Rightarrow> report_request \<Rightarrow> server \<Rightarrow> server" where
  "handleReport now sid device rep s = (case rr_type rep of
      RT_Hardware _ \<Rightarrow> snd (on_db (SaveHardwareReport now sid device rep) s)
    | _ \<Rightarrow> s)"

text \<open>What \<open>stream.Recv\<close> delivers.\<close>

datatype recv_result = RecvMsg client_message | RecvEof | RecvError string

definition loop_returns :: "nat \<Rightarrow> channel \<Rightarrow> stream_error option \<Rightarrow> server \<Rightarrow> server" where
  "loop_returns st ch r s = set_channel st (ch\<lparr>ch_result := Some r\<rparr>) s"

text \<open>One turn of the receive loop that takes the message branch.\<close>

definition Channel_recv :: "nat \<Rightarrow> int \<Rightarrow> bool \<Rightarrow> nat \<Rightarrow> recv_result \<Rightarrow> server \<Rightarrow> server" where
  "Channel_recv now ns ok st r s = (case map_of (sv_chans s) st of
      None \<Rightarrow> s
    | Some ch \<Rightarrow> if ch_result ch \<noteq> None then s else
        (case r of
           RecvEof \<Rightarrow> loop_returns st ch None s
         | RecvError e \<Rightarrow> loop_returns st ch (Some (RecvErr e)) s
         | RecvMsg m \<Rightarrow> (case cm_payload m of
             CP_Heartbeat hb \<Rightarrow> handleHeartbeat now ns ok st (ch_session ch) s
           | CP_ReportRequest rep \<Rightarrow> (case Get (ch_session ch) (sv_cm s) of
               None \<Rightarrow> s | Some c \<Rightarrow> handleReport now (ch_session ch) (cc_device c) rep s)
           | CP_CommandResult res \<Rightarrow> handleCommandResult (ch_session ch) res s
           | CP_Unset \<Rightarrow> s)))"

definition kicked_status :: grpc_status where
  "kicked_status = \<lparr>st_code = PermissionDenied, st_message = ''kicked by admin''\<rparr>"

text \<open>A turn that takes the \<open>DisconnectCh\<close> branch, which is ready once that channel is closed.\<close>

definition Channel_kicked :: "nat \<Rightarrow> server \<Rightarrow> server" where
  "Channel_kicked st s = (case map_of (sv_chans s) st of
      None \<Rightarrow> s
    | Some ch \<Rightarrow> if ch_result ch \<noteq> None then s else
        (case Get (ch_session ch) (sv_cm s) of
           None \<Rightarrow> s
         | Some c \<Rightarrow> if cc_closed c then loop_returns st ch (Some (StatusErr kicked_status)) s else s))"

text \<open>
  The return: after the loop has returned and the consumer is not inside a round, the deferred
  function clears the stream and marks the session offline in the store.
\<close>

definition Channel_close :: "nat \<Rightarrow> server \<Rightarrow> server" where
  "Channel_close st s = (case map_of (sv_chans s) st of
      None \<Rightarrow> s
    | Some ch \<Rightarrow> if ch_result ch = None \<or> ch_unmarked ch \<noteq> None then s
        else snd (on_db (MarkOffline (ch_session ch))
               (s\<lparr>sv_cm := ClearStream (ch_session ch) (sv_cm s),
                  sv_chans := AList.delete st (sv_chans s)\<rparr>)))"

section \<open>Queries\<close>

definition terminal_summary_of :: "Terminal \<Rightarrow> terminal_summary" where
  "terminal_summary_of t = \<lparr>ts_session_id = tm_session t, ts_hostname = tm_hostname t,
     ts_os = tm_os t, ts_os_version = tm_os_version t, ts_client_version = tm_client t,
     ts_online = tm_online t, ts_last_heartbeat = tm_last_heartbeat t,
     ts_last_seen_at = tm_last_seen t, ts_device_id = tm_device t, ts_blocked = tm_blocked t\<rparr>"

definition page_size :: "int \<Rightarrow> int" where
  "page_size n = (if n \<le> 0 \<or> 500 < n then 50 else n)"

definition page_number :: "int \<Rightarrow> int" where
  "page_number n = (if n < 1 then 1 else n)"

definition server_ListTerminals ::
  "list_terminals_request \<Rightarrow> server \<Rightarrow> (grpc_status + list_terminals_response) \<times> server" where
  "server_ListTerminals req s =
     (let size = page_size (sint (lt_page_size req));
          off = (page_number (sint (lt_page req)) - 1) * size
      in case on_db (ListTerminals (lt_online_filter req) off size) s of
           (Inl e, s1) \<Rightarrow> (Inl (internal_error ''list terminals failed'' e), s1)
         | (Inr (ts, n), s1) \<Rightarrow> (Inr \<lparr>lr_terminals = map terminal_summary_of ts,
                                     lr_total_count = of_nat n\<rparr>, s1))"

definition server_GetTerminal ::
  "get_terminal_request \<Rightarrow> server \<Rightarrow> (grpc_status + get_terminal_response) option \<times> server" where
  "server_GetTerminal req s =
     (case on_db (if gt_device_id req \<noteq> [] then GetTerminalByDevice (gt_device_id req)
                  else GetTerminal (gt_session_id req)) s of
        (Inl ErrNoRows, s1) \<Rightarrow>
          (Some (Inl \<lparr>st_code = NotFound, st_message = ''terminal not found''\<rparr>), s1)
      | (Inl e, s1) \<Rightarrow> (Some (Inl (internal_error ''get terminal failed'' e)), s1)
      | (Inr t, s1) \<Rightarrow> (case on_db (GetLatestHardware (tm_device t)) s1 of
          (None, s2) \<Rightarrow> (None, s2)
        | (Some hw, s2) \<Rightarrow> (Some (Inr \<lparr>gr_summary = terminal_summary_of t,
            gr_latest_hardware = (case hw of Inl _ \<Rightarrow> None | Inr h \<Rightarrow> h)\<rparr>), s2)))"

definition GetTerminalHistory ::
  "get_terminal_history_request \<Rightarrow> server \<Rightarrow>
   (grpc_status + get_terminal_history_response) option \<times> server" where
  "GetTerminalHistory req s =
     (let n = sint (gh_limit req); lim = (if n \<le> 0 \<or> 500 < n then 100 else n) in
      case on_db (ListHardwareReports (gh_device_id req) (gh_since req) (gh_until req) lim) s of
        (None, s1) \<Rightarrow> (None, s1)
      | (Some (Inl e), s1) \<Rightarrow> (Some (Inl (internal_error ''list hardware reports failed'' e)), s1)
      | (Some (Inr ss), s1) \<Rightarrow> (Some (Inr \<lparr>gy_device_id = gh_device_id req,
          gy_snapshots = map (\<lambda>h. \<lparr>sn_report_id = hs_report h, sn_created_at = hs_created h,
                                   sn_info = hs_info h\<rparr>) ss\<rparr>), s1))"

section \<open>Administration\<close>

definition DisconnectTerminal :: "string \<Rightarrow> server \<Rightarrow> admin_response \<times> server" where
  "DisconnectTerminal sid s = (case Get sid (sv_cm s) of
      Some c \<Rightarrow> if cc_online c
        then (\<lparr>ar_ok = True, ar_message = ''kicked''\<rparr>, s\<lparr>sv_cm := Kick sid (sv_cm s)\<rparr>)
        else (\<lparr>ar_ok = False, ar_message = ''session not found or offline''\<rparr>, s)
    | None \<Rightarrow> (\<lparr>ar_ok = False, ar_message = ''session not found or offline''\<rparr>, s))"

text \<open>\<open>ids\<close> is the order in which \<open>kickDeviceSessions\<close> visits the map.\<close>

definition BlockTerminal :: "string \<Rightarrow> string list \<Rightarrow> server \<Rightarrow> (grpc_status + admin_response) \<times> server"
where
  "BlockTerminal device ids s = (case on_db (MarkBlocked device) s of
      (Inl e, s1) \<Rightarrow> (Inl (internal_error ''block failed'' e), s1)
    | (Inr _, s1) \<Rightarrow> (Inr \<lparr>ar_ok = True, ar_message = ''blocked''\<rparr>,
                      s1\<lparr>sv_cm := kick_sessions device ids (sv_cm s1)\<rparr>))"

definition server_UnblockTerminal :: "string \<Rightarrow> server \<Rightarrow> (grpc_status + admin_response) \<times> server"
where
  "server_UnblockTerminal device s = (case on_db (UnblockTerminal device) s of
      (Inl e, s1) \<Rightarrow> (Inl (internal_error ''unblock failed'' e), s1)
    | (Inr _, s1) \<Rightarrow> (Inr \<lparr>ar_ok = True, ar_message = ''unblocked''\<rparr>, s1))"

definition TransferFile :: grpc_status where
  "TransferFile = \<lparr>st_code = Unimplemented,
     st_message = ''TransferFile is not yet implemented (Phase 7)''\<rparr>"

text \<open>A tick of the checker with the callback that \<open>main\<close> installs.\<close>

definition heartbeat_tick :: "int \<Rightarrow> int \<Rightarrow> string list \<Rightarrow> server \<Rightarrow> server" where
  "heartbeat_tick ns timeout ids s =
     (case heartbeat_scan ns timeout (Some (\<lambda>sid d. snd (MarkOffline sid d))) ids (sv_cm s, sv_db s) of
        (cm, d) \<Rightarrow> s\<lparr>sv_cm := cm, sv_db := d\<rparr>)"

section \<open>Runs\<close>

datatype event =
    EvAdmit handshake_request
  | EvEnrol string nat int string handshake_request
  | EvOpen nat int "(string \<times> string list) list option"
  | EvRecv nat int bool nat recv_result
  | EvKicked nat
  | EvClose nat
  | EvSend nat bool
  | EvMark nat
  | EvTimeout nat string
  | EvCommand string nat nat send_command_request
  | EvDisconnect string
  | EvBlock string "string list"
  | EvUnblock string
  | EvTick int int "string list"

fun exec_event :: "event \<Rightarrow> server \<Rightarrow> server" where
  "exec_event (EvAdmit req) s = (case admit req s of
      (Some _, s1) \<Rightarrow> s1 | (None, s1) \<Rightarrow> s1\<lparr>sv_admitted := sv_admitted s1 @ [req]\<rparr>)"
| "exec_event (EvEnrol uuid now ns t req) s =
     (if req \<in> set (sv_admitted s)
      then snd (enrol uuid now ns t req (s\<lparr>sv_admitted := remove1 req (sv_admitted s)\<rparr>)) else s)"
| "exec_event (EvOpen st ns md) s = snd (Channel_open st ns md s)"
| "exec_event (EvRecv now ns ok st r) s = Channel_recv now ns ok st r s"
| "exec_event (EvKicked st) s = Channel_kicked st s"
| "exec_event (EvClose st) s = Channel_close st s"
| "exec_event (EvSend st ok) s = consumer_send st ok s"
| "exec_event (EvMark st) s = consumer_mark st s"
| "exec_event (EvTimeout now k) s = watchCommandTimeout now k s"
| "exec_event (EvCommand uuid now unix req) s = snd (SendCommand uuid now unix req s)"
| "exec_event (EvDisconnect sid) s = snd (DisconnectTerminal sid s)"
| "exec_event (EvBlock device ids) s = snd (BlockTerminal device ids s)"
| "exec_event (EvUnblock device) s = snd (server_UnblockTerminal device s)"
| "exec_event (EvTick ns timeout ids) s = heartbeat_tick ns timeout ids s"

text \<open>
  What the environment guarantees: a new session id (a random UUID) and a new stream number have not
  been used before, a command id neither, and a loop over the map visits each of its keys once.
\<close>

fun allowed :: "event \<Rightarrow> server \<Rightarrow> bool" where
  "allowed (EvEnrol uuid now ns t req) s \<longleftrightarrow>
     uuid \<notin> ids_of (sv_cm s) \<and> uuid \<notin> t_session ` set (terminals (sv_db s))"
| "allowed (EvOpen st ns md) s \<longleftrightarrow> st \<notin> fst ` set (sv_chans s)"
| "allowed (EvBlock device ids) s \<longleftrightarrow> distinct ids \<and> set ids = ids_of (sv_cm s)"
| "allowed (EvTick ns timeout ids) s \<longleftrightarrow> distinct ids \<and> set ids = ids_of (sv_cm s)"
| "allowed (EvCommand uuid now unix req) s \<longleftrightarrow> uuid \<notin> c_command ` set (commands (sv_db s))"
| "allowed _ s \<longleftrightarrow> True"

definition start_server :: "conn_manager \<Rightarrow> db \<Rightarrow> server" where
  "start_server cm d = \<lparr>sv_cm = cm, sv_db = d, sv_admitted = [], sv_chans = [], sv_timers = [], sv_out = [], sv_log = []\<rparr>"

text \<open>\<open>main\<close> of \<open>cmd/server\<close>: the limit is set when the flag is positive.\<close>

definition server_main :: "int \<Rightarrow> db \<Rightarrow> server" where
  "server_main maxConns d = start_server
     (if 0 < maxConns then SetMaxConns maxConns NewConnectionManager else NewConnectionManager) d"

text \<open>The states that a server can reach that starts with \<open>maxConns\<close> and a database.\<close>

inductive reachable :: "int \<Rightarrow> db \<Rightarrow> server \<Rightarrow> bool" for m d0 where
  start: "reachable m d0 (start_server (SetMaxConns m NewConnectionManager) d0)"
| step: "reachable m d0 s \<Longrightarrow> allowed ev s \<Longrightarrow> reachable m d0 (exec_event ev s)"

inductive steps :: "server \<Rightarrow> server \<Rightarrow> bool" where
  none: "steps s s"
| more: "steps s t \<Longrightarrow> allowed ev t \<Longrightarrow> steps s (exec_event ev t)"

fun run_events :: "event list \<Rightarrow> server \<Rightarrow> server" where
  "run_events [] s = s"
| "run_events (e # es) s = run_events es (exec_event e s)"

fun allowed_run :: "event list \<Rightarrow> server \<Rightarrow> bool" where
  "allowed_run [] s \<longleftrightarrow> True"
| "allowed_run (e # es) s \<longleftrightarrow> allowed e s \<and> allowed_run es (exec_event e s)"

section \<open>The database along a run\<close>

lemma on_db_simps [simp]:
  "snd (on_db f s) = s\<lparr>sv_db := snd (f (sv_db s))\<rparr>" "fst (on_db f s) = fst (f (sv_db s))"
  by (simp_all add: on_db_def split: prod.split)

lemma on_db_eq: "on_db f s = (fst (f (sv_db s)), s\<lparr>sv_db := snd (f (sv_db s))\<rparr>)"
  by (simp add: on_db_def split: prod.split)

lemma set_command_status_eq:
  "set_command_status k st s = s\<lparr>sv_db := snd (UpdateCommandStatus k st (sv_db s))\<rparr>"
  by (simp add: set_command_status_def)

definition safe_on :: "(db \<Rightarrow> bool) \<Rightarrow> (db \<Rightarrow> 'a \<times> db) \<Rightarrow> bool" where
  "safe_on P f \<longleftrightarrow> (\<forall>d. P d \<longrightarrow> P (snd (f d)))"

lemma safe_onD: "safe_on P f \<Longrightarrow> P d \<Longrightarrow> P (snd (f d))"
  by (simp add: safe_on_def)

lemma db_ops_safe:
  "safe_on db_wf (IsDeviceBlocked v)" "safe_on db_wf (GetTerminalByDevice v)"
  "safe_on db_wf (UpsertTerminal now a v b c e f g x y)" "safe_on db_wf (MarkOffline a)"
  "safe_on db_wf (UpdateHeartbeat now a)" "safe_on db_wf (SaveHardwareReport now a v rep)"
  "safe_on db_wf (UpdateCommandResult k st n b c e f g)" "safe_on db_wf (UpdateCommandStatus k st)"
  "safe_on db_wf (MarkCommandTimeout now k)" "safe_on db_wf (SaveCommandLog now k a v t ps)"
  "safe_on db_wf (MarkBlocked v)" "safe_on db_wf (UnblockTerminal v)"
  unfolding safe_on_def
  by (metis (no_types, opaque_lifting) prod.collapse same_tables_wf terminal_read_same
      terminal_write_wf command_write_wf SaveHardwareReport_wf)+

end
