(* ===== verification/ServerRuns.thy ===== *)
theory ServerRuns
  imports Server
begin

text \<open>
  What holds in every state a server can reach: the registry and the database stay well formed,
  an entry keeps its session and device and stays closed once it is closed, no entry ever goes
  away, and the command queues lose, duplicate and reorder nothing. Every event changes the
  registry in one of the three ways of \<open>cm_change\<close>, so these facts need no case analysis of
  their own.
\<close>

section \<open>How events change the registry\<close>

text \<open>An entry keeps its identity, and it stays closed.\<close>

definition conn_kept :: "client_conn \<Rightarrow> client_conn \<Rightarrow> bool" where
  "conn_kept c c' \<longleftrightarrow> cc_session c' = cc_session c \<and> cc_device c' = cc_device c \<and>
     (cc_closed c \<longrightarrow> cc_closed c')"

definition tame :: "(client_conn \<Rightarrow> client_conn) \<Rightarrow> bool" where
  "tame f \<longleftrightarrow> (\<forall>c. conn_kept c (f c))"

lemma conn_kept_refl [simp]: "conn_kept c c"
  by (simp add: conn_kept_def)

lemma conn_kept_trans: "conn_kept a b \<Longrightarrow> conn_kept b c \<Longrightarrow> conn_kept a c"
  by (simp add: conn_kept_def)

lemma Get_in_ids: "Get k cm = Some c \<Longrightarrow> k \<in> ids_of cm"
  using Get_ids by fastforce

lemma in_ids_Get: "k \<in> ids_of cm \<Longrightarrow> \<exists>c. Get k cm = Some c"
  using Get_ids by fastforce

inductive cm_change :: "conn_manager \<Rightarrow> conn_manager \<Rightarrow> bool" where
  same: "cm_change cm cm"
| wr: "tame f \<Longrightarrow> cm_change cm (modify_all upd_conn f ids cm)"
| new: "cc_session c \<notin> ids_of cm \<Longrightarrow> cm_change cm (Add c cm)"

lemma cm_change_upd: "tame f \<Longrightarrow> cm_change cm (upd_conn k f cm)"
  using cm_change.wr [of f cm "[k]"] by (simp add: modify_all_def)

lemma tame_writes:
  "tame (\<lambda>c. c\<lparr>cc_queue := q\<rparr>)" "tame (\<lambda>c. c\<lparr>cc_online := b\<rparr>)"
  "tame (\<lambda>c. if cc_online c then c\<lparr>cc_closed := True\<rparr> else c)"
  "tame (\<lambda>c. c\<lparr>cc_last_heartbeat := t, cc_online := b\<rparr>)"
  "tame (\<lambda>c. c\<lparr>cc_stream := x, cc_online := b, cc_last_heartbeat := t\<rparr>)"
  "tame (\<lambda>c. c\<lparr>cc_stream := x, cc_online := b\<rparr>)"
  "tame (kick_conn device)" "tame (offline_if P)"
  by (simp_all add: tame_def conn_kept_def kick_conn_def offline_if_def)

lemma Get_modify_all_tame:
  assumes "tame f" "Get k cm = Some c"
  shows "\<exists>c'. Get k (modify_all upd_conn f ids cm) = Some c' \<and> conn_kept c c'"
  using assms(2) unfolding modify_all_def
proof (induction ids arbitrary: cm c)
  case (Cons i ids)
  let ?c = "if k = i then f c else c"
  have "Get k (upd_conn i f cm) = Some ?c" using Cons.prems by (auto simp: Get_upd_conn)
  moreover have "conn_kept c ?c" using assms(1) by (simp add: tame_def)
  ultimately have "\<exists>c'. Get k (fold (\<lambda>k. upd_conn k f) ids (upd_conn i f cm)) = Some c' \<and>
      conn_kept ?c c'" "conn_kept c ?c" using Cons.IH by blast+
  then show ?case by (auto intro: conn_kept_trans)
qed simp

definition entry_kept :: "conn_manager \<Rightarrow> conn_manager \<Rightarrow> bool" where
  "entry_kept cm cm' \<longleftrightarrow> cm_max cm' = cm_max cm \<and>
     (\<forall>k c. Get k cm = Some c \<longrightarrow> (\<exists>c'. Get k cm' = Some c' \<and> conn_kept c c'))"

lemma cm_change_kept: "cm_change cm cm' \<Longrightarrow> entry_kept cm cm'"
proof (induction rule: cm_change.induct)
  case (new c cm)
  then have "k \<noteq> cc_session c" if "Get k cm = Some x" for k x using Get_in_ids [OF that] by auto
  then show ?case by (auto simp: entry_kept_def Get_Add)
qed (auto simp: entry_kept_def Get_modify_all_tame)

lemma entry_kept_trans: "entry_kept a b \<Longrightarrow> entry_kept b c \<Longrightarrow> entry_kept a c"
  unfolding entry_kept_def by (metis conn_kept_trans)

lemma entry_kept_ids: "entry_kept cm cm' \<Longrightarrow> ids_of cm \<subseteq> ids_of cm'"
  by (auto simp: entry_kept_def dest!: in_ids_Get intro: Get_in_ids)

section \<open>The registry of each event\<close>

lemma cm_Register [simp]: "sv_cm (snd (admit req s)) = sv_cm s"
  by (auto simp: admit_def on_db_eq split: prod.splits sum.splits bool.splits)

lemma cm_enrol: "sv_cm (snd (enrol uuid now ns t req s)) = Add (new_conn uuid ns req) (sv_cm s)"
  by (simp add: enrol_def Let_def)

lemma cm_set_channel [simp]: "sv_cm (set_channel st ch s) = sv_cm s"
  by (simp add: set_channel_def)

lemma cm_set_command_status [simp]: "sv_cm (set_command_status k x s) = sv_cm s"
  by (simp add: set_command_status_eq)

lemma cm_Channel_open: "cm_change (sv_cm s) (sv_cm (snd (Channel_open st ns md s)))"
  by (auto simp: Channel_open_def SetStream_def split: sum.splits option.splits
      intro: cm_change_upd tame_writes cm_change.same)

lemma cm_Channel_recv: "cm_change (sv_cm s) (sv_cm (Channel_recv now ns ok st r s))"
  by (auto simp: Channel_recv_def loop_returns_def handleHeartbeat_def handleReport_def
      handleCommandResult_def Let_def RecordHeartbeat_def
      split: option.splits recv_result.splits client_payload.splits report_type.splits
      intro: cm_change_upd tame_writes cm_change.same)

lemma cm_Channel_kicked [simp]: "sv_cm (Channel_kicked st s) = sv_cm s"
  by (auto simp: Channel_kicked_def loop_returns_def split: option.splits)

lemma cm_Channel_close: "cm_change (sv_cm s) (sv_cm (Channel_close st s))"
  by (auto simp: Channel_close_def ClearStream_def split: option.splits
      intro: cm_change_upd tame_writes cm_change.same)

lemma cm_consumer_send: "cm_change (sv_cm s) (sv_cm (consumer_send st ok s))"
  by (auto simp: consumer_send_def Let_def split: option.splits
      intro: cm_change_upd tame_writes cm_change.same)

lemma cm_consumer_mark [simp]: "sv_cm (consumer_mark st s) = sv_cm s"
  by (auto simp: consumer_mark_def Let_def split: option.splits)

lemma cm_timeout [simp]: "sv_cm (watchCommandTimeout now k s) = sv_cm s"
  by (auto simp: watchCommandTimeout_def split: option.splits)

text \<open>The branches of \<open>SendCommand\<close>: it queues the command on the device's session or leaves the registry.\<close>

lemma SendCommand_cases:
  obtains (unchanged) "sv_cm (snd (SendCommand uuid now unix req s)) = sv_cm s"
      "sv_log (snd (SendCommand uuid now unix req s)) = sv_log s"
  | (queued) sid cmd c where "Get sid (sv_cm s) = Some c" "cc_online c"
      "length (cc_queue c) < cmdQueueCapacity" "cmd = build_command uuid req unix"
      "sv_cm (snd (SendCommand uuid now unix req s)) =
         upd_conn sid (\<lambda>d. d\<lparr>cc_queue := cc_queue c @ [cmd]\<rparr>) (sv_cm s)"
      "sv_log (snd (SendCommand uuid now unix req s)) = sv_log s @ [LogQueued sid cmd]"
proof -
  let ?r = "SendCommand uuid now unix req s"
  have "(sv_cm (snd ?r) = sv_cm s \<and> sv_log (snd ?r) = sv_log s) \<or>
    (\<exists>sid c. Get sid (sv_cm s) = Some c \<and> cc_online c \<and> length (cc_queue c) < cmdQueueCapacity \<and>
       sv_cm (snd ?r) = upd_conn sid (\<lambda>d. d\<lparr>cc_queue := cc_queue c @ [build_command uuid req unix]\<rparr>) (sv_cm s) \<and>
       sv_log (snd ?r) = sv_log s @ [LogQueued sid (build_command uuid req unix)])"
    by (auto simp: SendCommand_def on_db_eq enqueue_def chan_send_def Let_def set_command_status_eq
        split: sum.splits option.splits if_splits)
  then show thesis using unchanged queued by blast
qed

lemma cm_SendCommand: "cm_change (sv_cm s) (sv_cm (snd (SendCommand uuid now unix req s)))"
  by (rule SendCommand_cases [of uuid now unix req s])
    (auto intro: cm_change_upd tame_writes cm_change.same)

lemma cm_DisconnectTerminal: "cm_change (sv_cm s) (sv_cm (snd (DisconnectTerminal sid s)))"
  by (auto simp: DisconnectTerminal_def Kick_def split: option.splits
      intro: cm_change_upd tame_writes cm_change.same)

lemma cm_BlockTerminal: "cm_change (sv_cm s) (sv_cm (snd (BlockTerminal device ids s)))"
  by (auto simp: BlockTerminal_def on_db_eq kick_sessions_fold split: sum.splits
      intro: cm_change.intros tame_writes)

lemma cm_Unblock [simp]: "sv_cm (snd (server_UnblockTerminal device s)) = sv_cm s"
  by (auto simp: server_UnblockTerminal_def on_db_eq split: sum.splits)

lemma cm_tick: "sv_cm (heartbeat_tick ns timeout ids s) =
    modify_all upd_conn (offline_if (expired ns timeout)) ids (sv_cm s)"
  using scan_modify [of ns timeout _ ids "sv_cm s" "sv_db s"]
  by (simp add: heartbeat_tick_def split: prod.split) (metis fst_conv)

theorem event_registry:
  "allowed ev s \<Longrightarrow> cm_change (sv_cm s) (sv_cm (exec_event ev s))"
proof (cases ev)
  case (EvAdmit req)
  then show ?thesis using cm_Register [of req s]
    by (cases "admit req s") (auto intro: cm_change.same split: option.splits)
next
  case (EvEnrol uuid now ns t req)
  assume "allowed ev s"
  with EvEnrol show ?thesis
    using cm_change.new [of "new_conn uuid ns req" "sv_cm s"]
    by (auto simp: cm_enrol new_conn_def intro: cm_change.same)
next
  case (EvTick ns timeout ids)
  then show ?thesis by (simp add: cm_tick cm_change.wr tame_writes)
qed (simp_all add: cm_Channel_open cm_Channel_recv cm_Channel_close cm_consumer_send cm_SendCommand
    cm_DisconnectTerminal cm_BlockTerminal cm_change.same)

lemma steps_kept: "steps s t \<Longrightarrow> entry_kept (sv_cm s) (sv_cm t)"
proof (induction rule: steps.induct)
  case (none s)
  show ?case using cm_change_kept [OF cm_change.same] .
next
  case (more s t ev)
  then show ?case using cm_change_kept event_registry entry_kept_trans by blast
qed

section \<open>Well-formedness\<close>

lemma cm_change_ok:
  assumes "cm_change cm cm'" "cm_ok cm"
    and "\<And>k c. Get k cm' = Some c \<Longrightarrow> length (cc_queue c) \<le> cmdQueueCapacity"
  shows "cm_ok cm'"
  using assms
proof (induction rule: cm_change.induct)
  case (wr f cm ids)
  have d: "distinct (map fst (cm_sessions (modify_all upd_conn f ids cm)))"
    using cm_okD(1) [OF wr(2)] unfolding modify_all_def
    by (induction ids arbitrary: cm) (simp_all add: cm_distinct)
  have "cc_session c = k" if c: "Get k (modify_all upd_conn f ids cm) = Some c" for k c
  proof -
    have "k \<in> ids_of cm" using Get_in_ids [OF c] by simp
    then obtain c0 where c0: "Get k cm = Some c0" using in_ids_Get by blast
    then have "conn_kept c0 c" using Get_modify_all_tame [OF wr(1) c0, of ids] c by auto
    then show ?thesis using cm_okD(2) [OF wr(2) c0] by (simp add: conn_kept_def)
  qed
  with d wr(3) show ?case by (intro cm_okI) auto
qed (auto intro: cm_ok_Add)

text \<open>The database of each event stays well formed.\<close>

lemmas server_step_defs = admit_def enrol_def Channel_open_def Channel_recv_def loop_returns_def
  handleHeartbeat_def handleReport_def handleCommandResult_def Channel_kicked_def Channel_close_def
  consumer_send_def consumer_mark_def watchCommandTimeout_def SendCommand_def
  DisconnectTerminal_def BlockTerminal_def server_UnblockTerminal_def set_channel_def Let_def

lemmas db_safe = db_ops_safe [THEN safe_onD]

lemma db_tick: "sv_db (heartbeat_tick ns timeout ids s) =
    snd (heartbeat_scan ns timeout (Some (\<lambda>sid d. snd (MarkOffline sid d))) ids (sv_cm s, sv_db s))"
  by (simp add: heartbeat_tick_def split: prod.split)

lemma scan_db_wf: "db_wf d \<Longrightarrow>
   db_wf (snd (heartbeat_scan ns timeout (Some (\<lambda>sid d. snd (MarkOffline sid d))) ids (cm, d)))"
  by (induction ids arbitrary: cm d)
    (simp_all add: scan_step db_safe split: option.splits del: heartbeat_scan.simps(2))

lemma event_db_wf:
  assumes "db_wf (sv_db s)"
  shows "db_wf (sv_db (exec_event ev s))"
proof (cases ev)
  case (EvAdmit req)
  then show ?thesis using assms
    by (auto simp: admit_def on_db_eq db_safe split: prod.splits option.splits sum.splits bool.splits)
next
  case (EvTick ns timeout ids)
  then show ?thesis using assms by (simp add: db_tick scan_db_wf)
next
  case (EvCommand uuid now unix req)
  then show ?thesis using assms
    by (auto simp: SendCommand_def Let_def on_db_eq set_command_status_eq db_safe
        split: sum.splits option.splits)
next
  case (EvRecv now ns ok st r)
  then show ?thesis using assms
    by (auto simp: Channel_recv_def loop_returns_def handleHeartbeat_def handleReport_def
        handleCommandResult_def set_channel_def Let_def db_safe
        split: option.splits recv_result.splits client_payload.splits report_type.splits)
qed (use assms in \<open>auto simp: server_step_defs on_db_eq set_command_status_eq db_safe
      split: option.splits sum.splits\<close>)

section \<open>The command queues\<close>

text \<open>The commands of a session in the log: queued, and taken from the queue (sent or dropped).\<close>

fun queued_of :: "string \<Rightarrow> command_line list \<Rightarrow> command list" where
  "queued_of sid [] = []"
| "queued_of sid (LogQueued k c # ls) = (if k = sid then [c] else []) @ queued_of sid ls"
| "queued_of sid (LogSent k c # ls) = queued_of sid ls"
| "queued_of sid (LogDropped k c # ls) = queued_of sid ls"

fun taken_of :: "string \<Rightarrow> command_line list \<Rightarrow> command list" where
  "taken_of sid [] = []"
| "taken_of sid (LogQueued k c # ls) = taken_of sid ls"
| "taken_of sid (LogSent k c # ls) = (if k = sid then [c] else []) @ taken_of sid ls"
| "taken_of sid (LogDropped k c # ls) = (if k = sid then [c] else []) @ taken_of sid ls"

lemma log_append [simp]:
  "queued_of sid (xs @ ys) = queued_of sid xs @ queued_of sid ys"
  "taken_of sid (xs @ ys) = taken_of sid xs @ taken_of sid ys"
  by (induction xs rule: queued_of.induct) simp_all

definition waiting :: "string \<Rightarrow> conn_manager \<Rightarrow> command list" where
  "waiting sid cm = (case Get sid cm of None \<Rightarrow> [] | Some c \<Rightarrow> cc_queue c)"

definition queues_ok :: "server \<Rightarrow> bool" where
  "queues_ok s \<longleftrightarrow> (\<forall>sid. queued_of sid (sv_log s) = taken_of sid (sv_log s) @ waiting sid (sv_cm s) \<and>
     length (waiting sid (sv_cm s)) \<le> cmdQueueCapacity)"

text \<open>Events that only touch other fields of the entries.\<close>

definition keeps_queue :: "(client_conn \<Rightarrow> client_conn) \<Rightarrow> bool" where
  "keeps_queue f \<longleftrightarrow> (\<forall>c. cc_queue (f c) = cc_queue c)"

lemma keeps_queue_writes:
  "keeps_queue (\<lambda>c. c\<lparr>cc_online := b\<rparr>)"
  "keeps_queue (\<lambda>c. if cc_online c then c\<lparr>cc_closed := True\<rparr> else c)"
  "keeps_queue (\<lambda>c. c\<lparr>cc_last_heartbeat := t, cc_online := b\<rparr>)"
  "keeps_queue (\<lambda>c. c\<lparr>cc_stream := x, cc_online := b, cc_last_heartbeat := t\<rparr>)"
  "keeps_queue (\<lambda>c. c\<lparr>cc_stream := x, cc_online := b\<rparr>)"
  "keeps_queue (kick_conn device)" "keeps_queue (offline_if P)"
  by (simp_all add: keeps_queue_def kick_conn_def offline_if_def)

lemma waiting_upd: "keeps_queue f \<Longrightarrow> waiting sid (upd_conn k f cm) = waiting sid cm"
  by (auto simp: waiting_def Get_upd_conn keeps_queue_def split: option.splits)

lemma waiting_modify_all: "keeps_queue f \<Longrightarrow> waiting sid (modify_all upd_conn f ids cm) = waiting sid cm"
  unfolding modify_all_def by (induction ids arbitrary: cm) (simp_all add: waiting_upd)

lemma waiting_set:
  "waiting sid (upd_conn k (\<lambda>c. c\<lparr>cc_queue := q\<rparr>) cm) =
   (if sid = k \<and> k \<in> ids_of cm then q else waiting sid cm)"
  by (auto simp: waiting_def Get_upd_conn dest: Get_in_ids in_ids_Get split: option.splits)

lemma waiting_Add: "cc_session c \<notin> ids_of cm \<Longrightarrow> waiting sid (Add c cm) = waiting sid cm"
  by (auto simp: waiting_def Get_Add dest: Get_in_ids split: option.splits)

text \<open>A step of the consumer: nothing, or the head of the queue goes out or is dropped.\<close>

lemma consumer_send_cases:
  obtains (idle) "consumer_send st ok s = s"
  | (taken) ch c cmd q where "map_of (sv_chans s) st = Some ch" "Get (ch_session ch) (sv_cm s) = Some c"
      "cc_queue c = cmd # q"
      "sv_cm (consumer_send st ok s) = upd_conn (ch_session ch) (\<lambda>c. c\<lparr>cc_queue := q\<rparr>) (sv_cm s)"
      "sv_log (consumer_send st ok s) =
         sv_log s @ [if ok then LogSent (ch_session ch) cmd else LogDropped (ch_session ch) cmd]"
proof -
  have "consumer_send st ok s = s \<or>
    (\<exists>ch c cmd q. map_of (sv_chans s) st = Some ch \<and> Get (ch_session ch) (sv_cm s) = Some c \<and>
      cc_queue c = cmd # q \<and>
      sv_cm (consumer_send st ok s) = upd_conn (ch_session ch) (\<lambda>c. c\<lparr>cc_queue := q\<rparr>) (sv_cm s) \<and>
      sv_log (consumer_send st ok s) =
        sv_log s @ [if ok then LogSent (ch_session ch) cmd else LogDropped (ch_session ch) cmd])"
    by (auto simp: consumer_send_def chan_recv_def Let_def set_channel_def set_command_status_eq
        split: option.splits list.splits)
  then show thesis using idle taken by blast
qed

lemma queues_same:
  "queues_ok s \<Longrightarrow> sv_log t = sv_log s \<Longrightarrow> (\<And>sid. waiting sid (sv_cm t) = waiting sid (sv_cm s)) \<Longrightarrow>
   queues_ok t"
  by (simp add: queues_ok_def)

definition moves_commands :: "event \<Rightarrow> bool" where
  "moves_commands ev = (case ev of EvSend _ _ \<Rightarrow> True | EvCommand _ _ _ _ \<Rightarrow> True | _ \<Rightarrow> False)"

lemma event_other_queues:
  assumes "allowed ev s" "\<not> moves_commands ev"
  shows "sv_log (exec_event ev s) = sv_log s \<and> waiting sid (sv_cm (exec_event ev s)) = waiting sid (sv_cm s)"
proof (cases ev)
  case (EvAdmit req)
  then show ?thesis
    by (auto simp: admit_def on_db_eq split: prod.splits option.splits sum.splits bool.splits)
next
  case (EvEnrol uuid now ns t req)
  then show ?thesis using assms waiting_Add [of "new_conn uuid ns req" "sv_cm s"]
    by (simp add: enrol_def Let_def new_conn_def)
next
  case (EvRecv now ns ok st r)
  then show ?thesis
    by (auto simp: Channel_recv_def loop_returns_def handleHeartbeat_def handleReport_def
        handleCommandResult_def set_channel_def Let_def RecordHeartbeat_def waiting_upd
        keeps_queue_writes
        split: option.splits recv_result.splits client_payload.splits report_type.splits)
next
  case (EvTick ns timeout ids)
  moreover have "sv_log (heartbeat_tick ns timeout ids s) = sv_log s"
    by (simp add: heartbeat_tick_def split: prod.split)
  ultimately show ?thesis by (simp add: cm_tick waiting_modify_all keeps_queue_writes)
qed (use assms in \<open>auto simp: moves_commands_def Channel_open_def Channel_kicked_def Channel_close_def
      consumer_mark_def watchCommandTimeout_def DisconnectTerminal_def BlockTerminal_def
      server_UnblockTerminal_def set_channel_def Let_def loop_returns_def on_db_eq
      set_command_status_eq SetStream_def ClearStream_def Kick_def kick_sessions_fold waiting_upd
      waiting_modify_all keeps_queue_writes
      split: option.splits sum.splits\<close>)

lemma event_queues:
  assumes "queues_ok s" "allowed ev s"
  shows "queues_ok (exec_event ev s)"
proof (cases "moves_commands ev")
  case False
  then show ?thesis using event_other_queues [OF assms(2)] queues_same [OF assms(1)] by blast
next
  case True
  then consider (send) st ok where "ev = EvSend st ok"
    | (cmd) uuid now unix req where "ev = EvCommand uuid now unix req"
    by (auto simp: moves_commands_def split: event.splits)
  then show ?thesis
  proof cases
    case send
    show ?thesis
    proof (cases rule: consumer_send_cases [of st ok s])
      case idle
      then show ?thesis using assms(1) send by simp
    next
      case (taken ch c cmd q)
      have w: "waiting (ch_session ch) (sv_cm s) = cmd # q" using taken(2,3) by (simp add: waiting_def)
      then have len: "length (cmd # q) \<le> cmdQueueCapacity"
        using assms(1) unfolding queues_ok_def by metis
      show ?thesis using assms(1) send taken w len Get_in_ids [OF taken(2)]
        by (auto simp: queues_ok_def waiting_set)
    qed
  next
    case cmd
    show ?thesis
    proof (cases rule: SendCommand_cases [of uuid now unix req s])
      case unchanged
      then show ?thesis using assms(1) cmd queues_same [of s "snd (SendCommand uuid now unix req s)"]
        by simp
    next
      case (queued sid x c)
      have "waiting sid (sv_cm s) = cc_queue c" using queued(1) by (simp add: waiting_def)
      then show ?thesis using assms(1) cmd queued Get_in_ids [OF queued(1)]
        by (auto simp: queues_ok_def waiting_set)
    qed
  qed
qed

section \<open>The invariant of reachable states\<close>

definition chans_ok :: "server \<Rightarrow> bool" where
  "chans_ok s \<longleftrightarrow> distinct (map fst (sv_chans s)) \<and>
     (\<forall>st ch. map_of (sv_chans s) st = Some ch \<longrightarrow> ch_session ch \<in> ids_of (sv_cm s))"

definition server_ok :: "server \<Rightarrow> bool" where
  "server_ok s \<longleftrightarrow> cm_ok (sv_cm s) \<and> db_wf (sv_db s) \<and> queues_ok s \<and> chans_ok s"

text \<open>How an event changes the list of open handlers.\<close>

inductive chans_change :: "string set \<Rightarrow> (nat \<times> channel) list \<Rightarrow> (nat \<times> channel) list \<Rightarrow> bool"
  for ids where
  kept: "chans_change ids chs chs"
| put: "ch_session ch \<in> ids \<or> (\<exists>ch0. map_of chs st = Some ch0 \<and> ch_session ch = ch_session ch0) \<Longrightarrow>
    chans_change ids chs (AList.update st ch chs)"
| closed: "chans_change ids chs (AList.delete st chs)"

lemma chans_set_status [simp]: "sv_chans (set_command_status k x s) = sv_chans s"
  by (simp add: set_command_status_eq)

lemma event_chans:
  "chans_change (ids_of (sv_cm s)) (sv_chans s) (sv_chans (exec_event ev s))"
proof (cases ev)
  case (EvAdmit req)
  then show ?thesis
    by (auto simp: admit_def on_db_eq intro: chans_change.kept
        split: prod.splits option.splits sum.splits bool.splits)
next
  case (EvOpen st ns md)
  then show ?thesis
    by (auto simp: Channel_open_def set_channel_def split: sum.splits option.splits
        intro!: chans_change.put chans_change.kept dest: Get_in_ids)
next
  case (EvTick ns timeout ids)
  then show ?thesis by (simp add: heartbeat_tick_def chans_change.kept split: prod.split)
next
  case (EvRecv now ns ok st r)
  then show ?thesis
    by (auto simp: Channel_recv_def loop_returns_def handleHeartbeat_def handleReport_def
        handleCommandResult_def set_channel_def Let_def
        intro: chans_change.intros
        split: option.splits recv_result.splits client_payload.splits report_type.splits)
next
  case (EvCommand uuid now unix req)
  then show ?thesis
    by (auto simp: SendCommand_def Let_def on_db_eq chans_change.kept split: sum.splits option.splits)
qed (auto simp: server_step_defs on_db_eq intro: chans_change.intros split: option.splits sum.splits)

lemma chans_change_ok:
  assumes "chans_change ids chs chs'" "distinct (map fst chs)"
    and "\<forall>st ch. map_of chs st = Some ch \<longrightarrow> ch_session ch \<in> ids"
  shows "distinct (map fst chs') \<and> (\<forall>st ch. map_of chs' st = Some ch \<longrightarrow> ch_session ch \<in> ids)"
  using assms
  by (induction rule: chans_change.induct)
    (auto simp: update_conv' delete_conv' distinct_update distinct_delete)

theorem event_ok:
  assumes "server_ok s" "allowed ev s"
  shows "server_ok (exec_event ev s)"
proof -
  let ?t = "exec_event ev s"
  have q: "queues_ok ?t" using assms event_queues by (simp add: server_ok_def)
  have change: "cm_change (sv_cm s) (sv_cm ?t)" using event_registry assms(2) by blast
  have "length (cc_queue c) \<le> cmdQueueCapacity" if "Get k (sv_cm ?t) = Some c" for k c
    using q that unfolding queues_ok_def waiting_def by (metis option.simps(5))
  then have cm: "cm_ok (sv_cm ?t)" using cm_change_ok [OF change] assms(1) by (simp add: server_ok_def)
  have "chans_ok ?t"
    using chans_change_ok [OF event_chans [of s ev]] assms(1) entry_kept_ids [OF cm_change_kept [OF change]]
    by (auto simp: server_ok_def chans_ok_def)
  with cm q show ?thesis using event_db_wf assms(1) by (simp add: server_ok_def)
qed

lemma start_ok: "db_wf d \<Longrightarrow> server_ok (start_server (SetMaxConns m NewConnectionManager) d)"
  by (simp add: server_ok_def start_server_def queues_ok_def chans_ok_def waiting_def Get_def
      cm_ok_def SetMaxConns_def NewConnectionManager_def)

lemma reachable_ok: "reachable m d s \<Longrightarrow> db_wf d \<Longrightarrow> server_ok s"
  by (induction rule: reachable.induct) (auto intro: start_ok event_ok)

lemma steps_ok: "steps s t \<Longrightarrow> server_ok s \<Longrightarrow> server_ok t"
  by (induction rule: steps.induct) (auto intro: event_ok)

lemma steps_trans: "steps s t \<Longrightarrow> steps t u \<Longrightarrow> steps s u"
  by (rotate_tac, induction rule: steps.induct) (auto intro: steps.more)

text \<open>What \<open>main\<close> starts, with any value of its flag, is one of these servers.\<close>

lemma server_main_reachable: "reachable (max m 0) d (server_main m d)"
proof (cases "0 < m")
  case True
  then show ?thesis using reachable.start [of m d] by (simp add: server_main_def max_def)
next
  case False
  have "SetMaxConns 0 NewConnectionManager = NewConnectionManager"
    by (simp add: SetMaxConns_def NewConnectionManager_def)
  then show ?thesis using False reachable.start [of 0 d] by (simp add: server_main_def max_def)
qed

lemma allowed_run_steps: "allowed_run es s \<Longrightarrow> steps s (run_events es s)"
proof (induction es arbitrary: s)
  case (Cons e es)
  then have "steps s (exec_event e s)" "steps (exec_event e s) (run_events es (exec_event e s))"
    using steps.more [OF steps.none] by simp_all
  then show ?case by (simp add: steps_trans)
qed (simp add: steps.none)

lemma reachable_steps: "reachable m d s \<Longrightarrow> steps s t \<Longrightarrow> reachable m d t"
  by (rotate_tac, induction rule: steps.induct) (auto intro: reachable.step)

text \<open>The number of sessions never falls, so a full server stays full.\<close>

lemma steps_count:
  assumes "steps s t" "server_ok s"
  shows "Count (sv_cm s) \<le> Count (sv_cm t)"
proof -
  have "distinct (map fst (cm_sessions (sv_cm s)))" "distinct (map fst (cm_sessions (sv_cm t)))"
    using assms steps_ok cm_okD(1) unfolding server_ok_def by blast+
  moreover have "card (ids_of (sv_cm s)) \<le> card (ids_of (sv_cm t))"
    by (rule card_mono [OF _ entry_kept_ids [OF steps_kept [OF assms(1)]]]) (simp add: ids_of_def)
  ultimately show ?thesis by (simp add: Count_ids)
qed

lemma steps_full:
  assumes "steps s t" "server_ok s" "IsFull (sv_cm s)"
  shows "IsFull (sv_cm t)"
  using steps_count [OF assms(1,2)] steps_kept [OF assms(1)] assms(3)
  by (auto simp: IsFull_def entry_kept_def)

lemma steps_closed:
  assumes "steps s t" "Get sid (sv_cm s) = Some c" "cc_closed c"
  shows "\<exists>c'. Get sid (sv_cm t) = Some c' \<and> cc_closed c' \<and> cc_device c' = cc_device c"
  using steps_kept [OF assms(1)] assms(2,3) unfolding entry_kept_def conn_kept_def by metis

end
