(* ===== verification/Lifecycle.thy ===== *)
theory Lifecycle
  imports ServerRuns
begin

text \<open>
  The life of a command across the store, the queue, the consumer and the watcher: what
  \<open>SendCommand\<close> answers on every branch, which commands are watched, how the recorded status
  moves, and the interleaving in which a result is overwritten.
\<close>

section \<open>Answers of SendCommand\<close>

lemma no_faults_same: "no_faults d \<Longrightarrow> same_tables d d' \<Longrightarrow> db_verdicts d' = [] \<Longrightarrow> d' = d"
  by (cases d; cases d') (simp add: no_faults_def same_tables_def)

lemma by_device_read: "no_faults d \<Longrightarrow> GetTerminalByDevice v d = (fst (GetTerminalByDevice v d), d)"
  by (simp add: GetTerminalByDevice_def query_terminal_works no_faults_def)

lemma save_works:
  "no_faults d \<Longrightarrow> k \<notin> c_command ` set (commands d) \<Longrightarrow>
   SaveCommandLog now k sid v t ps d =
     (Inr (), d\<lparr>commands := commands d @ [\<lparr>c_command = k, c_session = sid, c_type = cmdTypeName t,
        c_params = marshalJSONMap ps, c_status = ''Pending'', c_exit = None, c_stdout = [],
        c_stderr = [], c_error = [], c_created = rfc3339 now, c_started = None,
        c_finished = None\<rparr>]\<rparr>)"
  by (simp add: SaveCommandLog_def no_faults_def)

lemma statuses_append:
  assumes "c_command r \<notin> c_command ` set (commands d)"
  shows "statuses (d\<lparr>commands := commands d @ [r]\<rparr>) = (statuses d)(c_command r \<mapsto> c_status r)"
proof -
  have "statuses d (c_command r) = None"
    using assms by (simp add: statuses_def map_of_eq_None_iff image_image)
  then show ?thesis by (auto simp: statuses_def map_add_def fun_eq_iff split: option.splits)
qed

lemma no_faults_ops [simp]:
  "no_faults (update_commands P f d) = no_faults d"
  "no_faults (d\<lparr>commands := cs\<rparr>) = no_faults d"
  by (simp_all add: no_faults_def)

lemma status_op_works:
  "no_faults d \<Longrightarrow> UpdateCommandStatus k st d =
     (Inr (), update_commands (\<lambda>r. c_command r = k) (\<lambda>r. r\<lparr>c_status := st\<rparr>) d)"
  by (simp add: UpdateCommandStatus_def no_faults_def)

lemma timeout_op_works:
  "no_faults d \<Longrightarrow> fst (MarkCommandTimeout now k d) = Inr () \<and> no_faults (snd (MarkCommandTimeout now k d))"
  by (simp add: MarkCommandTimeout_def no_faults_def)

lemma result_op_works:
  "no_faults d \<Longrightarrow> fst (UpdateCommandResult k st x a b c e f d) = Inr () \<and>
     no_faults (snd (UpdateCommandResult k st x a b c e f d))"
  by (simp add: UpdateCommandResult_def no_faults_def)

text \<open>The status map after each of the server's writes, when the engine does not fail.\<close>

lemma statuses_set_command_status:
  assumes "no_faults (sv_db s)" "db_wf (sv_db s)"
  shows "statuses (sv_db (set_command_status k st s)) = set_status k st (statuses (sv_db s))"
    and "no_faults (sv_db (set_command_status k st s))"
    and "db_wf (sv_db (set_command_status k st s))"
  using assms UpdateCommandStatus_statuses [of k st "sv_db s"]
  by (auto simp: set_command_status_eq status_op_works db_safe)
    (simp add: update_commands_wf)

lemma statuses_result:
  assumes "no_faults (sv_db s)" "db_wf (sv_db s)"
  shows "statuses (sv_db (handleCommandResult sid res s)) =
      set_status (cr_id res) (cr_status res) (statuses (sv_db s))"
    and "no_faults (sv_db (handleCommandResult sid res s))"
    and "db_wf (sv_db (handleCommandResult sid res s))"
proof -
  let ?op = "UpdateCommandResult (cr_id res) (cr_status res) (cr_exit_code res) (cr_stdout res)
    (cr_stderr res) (cr_error_message res) (formatUnixTime (cr_started_at_unix res))
    (formatUnixTime (cr_finished_at_unix res)) (sv_db s)"
  have ok: "fst ?op = Inr ()" "no_faults (snd ?op)" using result_op_works [OF assms(1)] by auto
  then have eq: "?op = (Inr (), snd ?op)" by (metis prod.collapse)
  show "statuses (sv_db (handleCommandResult sid res s)) =
      set_status (cr_id res) (cr_status res) (statuses (sv_db s))"
    using UpdateCommandResult_statuses [OF eq assms(2)] by (simp add: handleCommandResult_def)
  show "no_faults (sv_db (handleCommandResult sid res s))"
    using ok by (simp add: handleCommandResult_def)
  show "db_wf (sv_db (handleCommandResult sid res s))"
    using assms(2) by (simp add: handleCommandResult_def db_safe)
qed

lemma statuses_watch:
  assumes "no_faults (sv_db s)" "db_wf (sv_db s)" "k \<in> fst ` set (sv_timers s)"
  shows "statuses (sv_db (watchCommandTimeout now k s)) = time_out k (statuses (sv_db s))"
proof -
  obtain t where t: "find (\<lambda>t. fst t = k) (sv_timers s) = Some t"
    using assms(3) by (metis (mono_tags, lifting) find_None_iff image_iff not_None_eq)
  let ?op = "MarkCommandTimeout now k (sv_db s)"
  have "?op = (Inr (), snd ?op)" using timeout_op_works [OF assms(1)] by (metis prod.collapse)
  from MarkCommandTimeout_statuses [OF this assms(2)] show ?thesis
    by (simp add: watchCommandTimeout_def t)
qed

section \<open>What is watched\<close>

text \<open>The commands that the log shows as sent on some stream.\<close>

definition sent_ids :: "command_line list \<Rightarrow> string set" where
  "sent_ids ls = {cd_id c |k c. LogSent k c \<in> set ls}"

definition held_ids :: "(nat \<times> channel) list \<Rightarrow> string set" where
  "held_ids chs = {cd_id cmd |st ch cmd. map_of chs st = Some ch \<and> ch_unmarked ch = Some cmd}"

definition watched_ok :: "server \<Rightarrow> bool" where
  "watched_ok s \<longleftrightarrow> fst ` set (sv_timers s) \<union> held_ids (sv_chans s) \<subseteq> sent_ids (sv_log s)"

lemma held_update:
  "held_ids (AList.update st ch chs) \<subseteq>
   held_ids chs \<union> (case ch_unmarked ch of None \<Rightarrow> {} | Some c \<Rightarrow> {cd_id c})"
  by (auto simp: held_ids_def update_conv' split: option.splits if_splits)

lemma held_kept:
  "map_of chs st = Some ch0 \<Longrightarrow> ch_unmarked ch = ch_unmarked ch0 \<Longrightarrow>
   held_ids (AList.update st ch chs) \<subseteq> held_ids chs"
  by (auto simp: held_ids_def update_conv' split: if_splits)

lemma held_none: "ch_unmarked ch = None \<Longrightarrow> held_ids (AList.update st ch chs) \<subseteq> held_ids chs"
  using held_update [of st ch chs] by simp

lemma held_some:
  "ch_unmarked ch = Some c \<Longrightarrow> held_ids (AList.update st ch chs) \<subseteq> held_ids chs \<union> {cd_id c}"
  using held_update [of st ch chs] by simp

lemma held_delete: "held_ids (AList.delete st chs) \<subseteq> held_ids chs"
  by (auto simp: held_ids_def delete_conv' split: if_splits)

lemma held_in: "map_of chs st = Some ch \<Longrightarrow> ch_unmarked ch = Some c \<Longrightarrow> cd_id c \<in> held_ids chs"
  by (auto simp: held_ids_def)

lemma sent_ids_mono: "set xs \<subseteq> set ys \<Longrightarrow> sent_ids xs \<subseteq> sent_ids ys"
  by (auto simp: sent_ids_def)

lemma sent_ids_append [simp]: "sent_ids (xs @ ys) = sent_ids xs \<union> sent_ids ys"
  by (auto simp: sent_ids_def)

lemma sent_ids_sent: "cd_id c \<in> sent_ids [LogSent k c]"
  by (auto simp: sent_ids_def)

lemma log_grows:
  assumes "allowed ev s"
  shows "set (sv_log s) \<subseteq> set (sv_log (exec_event ev s))"
proof (cases "moves_commands ev")
  case False
  then show ?thesis using event_other_queues [OF assms] by simp
next
  case True
  then consider (send) st ok where "ev = EvSend st ok"
    | (cmd) uuid now unix req where "ev = EvCommand uuid now unix req"
    by (auto simp: moves_commands_def split: event.splits)
  then show ?thesis
  proof cases
    case send
    then show ?thesis by (cases rule: consumer_send_cases [of st ok s]) auto
  next
    case cmd
    then show ?thesis by (cases rule: SendCommand_cases [of uuid now unix req s]) auto
  qed
qed

text \<open>Timers start in \<open>consumer_mark\<close> only, and handlers hold a command only after its send.\<close>

definition watch_change :: "server \<Rightarrow> server \<Rightarrow> bool" where
  "watch_change s t \<longleftrightarrow>
     fst ` set (sv_timers t) \<subseteq> fst ` set (sv_timers s) \<union> held_ids (sv_chans s) \<and>
     held_ids (sv_chans t) \<subseteq> held_ids (sv_chans s) \<union> sent_ids (sv_log t)"

lemma watch_change_same: "sv_timers t = sv_timers s \<Longrightarrow> sv_chans t = sv_chans s \<Longrightarrow> watch_change s t"
  by (auto simp: watch_change_def)

lemma watch_change_held:
  "sv_timers t = sv_timers s \<Longrightarrow> held_ids (sv_chans t) \<subseteq> held_ids (sv_chans s) \<Longrightarrow> watch_change s t"
  by (auto simp: watch_change_def)

lemma watch_change_ok:
  assumes "watch_change s t" "watched_ok s" "set (sv_log s) \<subseteq> set (sv_log t)"
  shows "watched_ok t"
  using assms(1,2) sent_ids_mono [OF assms(3)] unfolding watch_change_def watched_ok_def by blast

lemma timers_set_status [simp]: "sv_timers (set_command_status k x s) = sv_timers s"
  "sv_log (set_command_status k x s) = sv_log s"
  by (simp_all add: set_command_status_eq)

lemma remove1_keys: "fst ` set (remove1 x xs) \<subseteq> fst ` set xs"
  using set_remove1_subset by fast

lemma watch_send: "watch_change s (consumer_send st ok s)"
proof -
  have "watch_change s (set_channel st (ch\<lparr>ch_unmarked := Some cmd\<rparr>)
      (s\<lparr>sv_cm := cm, sv_out := out, sv_log := sv_log s @ [LogSent k cmd]\<rparr>))" for ch cmd cm out k
    using held_some [of "ch\<lparr>ch_unmarked := Some cmd\<rparr>" cmd st "sv_chans s"] sent_ids_sent [of cmd k]
    by (auto simp: watch_change_def set_channel_def)
  then show ?thesis
    by (auto simp: consumer_send_def Let_def intro!: watch_change_same split: option.splits)
qed

lemma watch_mark: "watch_change s (consumer_mark st s)"
proof (cases "map_of (sv_chans s) st")
  case (Some ch)
  show ?thesis
  proof (cases "ch_unmarked ch")
    case None
    then show ?thesis using Some by (simp add: consumer_mark_def watch_change_same)
  next
    case unm: (Some cmd)
    then show ?thesis
      using Some held_in [OF Some unm] held_none [of "ch\<lparr>ch_unmarked := None\<rparr>" st "sv_chans s"]
      by (auto simp: consumer_mark_def watch_change_def set_channel_def Let_def)
  qed
qed (simp add: consumer_mark_def watch_change_same)

lemma watch_recv: "watch_change s (Channel_recv now ns ok st r s)"
proof (cases "map_of (sv_chans s) st")
  case (Some ch)
  have "watch_change s (loop_returns st ch x s)" for x
    using held_kept [OF Some, of "ch\<lparr>ch_result := Some x\<rparr>"]
    by (intro watch_change_held) (simp_all add: loop_returns_def set_channel_def)
  then show ?thesis
    using Some by (auto simp: Channel_recv_def handleHeartbeat_def handleReport_def
        handleCommandResult_def Let_def intro!: watch_change_same
        split: option.splits recv_result.splits client_payload.splits report_type.splits)
qed (simp add: Channel_recv_def watch_change_same)

lemma watch_kicked: "watch_change s (Channel_kicked st s)"
proof (cases "map_of (sv_chans s) st")
  case (Some ch)
  have "watch_change s (loop_returns st ch x s)" for x
    using held_kept [OF Some, of "ch\<lparr>ch_result := Some x\<rparr>"]
    by (intro watch_change_held) (simp_all add: loop_returns_def set_channel_def)
  then show ?thesis
    using Some by (auto simp: Channel_kicked_def intro!: watch_change_same split: option.splits)
qed (simp add: Channel_kicked_def watch_change_same)

lemma event_watch: "watch_change s (exec_event ev s)"
proof (cases ev)
  case (EvAdmit req)
  then show ?thesis
    by (auto simp: admit_def on_db_eq intro!: watch_change_same
        split: prod.splits option.splits sum.splits bool.splits)
next
  case (EvTimeout now k)
  then show ?thesis
    using remove1_keys [of _ "sv_timers s"]
    by (simp add: watchCommandTimeout_def watch_change_def split: option.splits) blast
next
  case (EvClose st)
  then show ?thesis using held_delete [of st "sv_chans s"]
    by (auto simp: Channel_close_def watch_change_def split: option.splits)
next
  case (EvOpen st ns md)
  then show ?thesis
    using held_none [of "\<lparr>ch_session = sid, ch_unmarked = None, ch_result = None\<rparr>" st "sv_chans s" for sid]
    by (simp add: Channel_open_def set_channel_def watch_change_held watch_change_same
        split: sum.splits option.splits)
next
  case (EvTick ns timeout ids)
  then show ?thesis by (auto simp: heartbeat_tick_def intro!: watch_change_same split: prod.split)
next
  case (EvCommand uuid now unix req)
  then show ?thesis
    by (auto simp: SendCommand_def Let_def on_db_eq set_command_status_eq intro!: watch_change_same
        split: sum.splits option.splits)
qed (auto simp: watch_send watch_mark watch_recv watch_kicked enrol_def Let_def DisconnectTerminal_def
    BlockTerminal_def server_UnblockTerminal_def on_db_eq intro!: watch_change_same
    split: option.splits sum.splits)

lemma reachable_watched: "reachable m d s \<Longrightarrow> watched_ok s"
proof (induction rule: reachable.induct)
  case start
  show ?case by (simp add: watched_ok_def start_server_def held_ids_def)
next
  case (step s ev)
  then show ?case using watch_change_ok event_watch log_grows by blast
qed

section \<open>What SendCommand does to an online terminal\<close>

lemma fresh_status: "k \<notin> c_command ` set (commands d) \<Longrightarrow> statuses d k = None"
  by (simp add: statuses_def map_of_eq_None_iff image_image)

lemma send_to_online:
  fixes now unix :: nat
  assumes "no_faults (sv_db s)" "db_wf (sv_db s)" "uuid \<notin> c_command ` set (commands (sv_db s))"
    and "sc_device_id req \<noteq> []" "sc_type req \<noteq> ct_unspecified"
    and "GetTerminalByDevice (sc_device_id req) (sv_db s) = (Inr t, sv_db s)"
    and "Get (tm_session t) (sv_cm s) = Some c" "cc_online c"
  defines "r \<equiv> SendCommand uuid now unix req s"
  shows "length (cc_queue c) < cmdQueueCapacity \<Longrightarrow>
      fst r = Inr \<lparr>sr_ok = True, sr_command_id = uuid, sr_message = ''queued''\<rparr> \<and>
      waiting (tm_session t) (sv_cm (snd r)) =
        waiting (tm_session t) (sv_cm s) @ [build_command uuid req unix] \<and>
      statuses (sv_db (snd r)) = (statuses (sv_db s))(uuid \<mapsto> ''Pending'')"
    and "cmdQueueCapacity \<le> length (cc_queue c) \<Longrightarrow>
      fst r = Inr (refused uuid queue_full_message) \<and> sv_cm (snd r) = sv_cm s \<and>
      statuses (sv_db (snd r)) = (statuses (sv_db s))(uuid \<mapsto> ''Failed'')"
proof -
  let ?row = "\<lparr>c_command = uuid, c_session = tm_session t, c_type = cmdTypeName (sc_type req),
      c_params = marshalJSONMap (sc_params req), c_status = ''Pending'', c_exit = None, c_stdout = [],
      c_stderr = [], c_error = [], c_created = rfc3339 now, c_started = None, c_finished = None\<rparr>"
  let ?d = "(sv_db s)\<lparr>commands := commands (sv_db s) @ [?row]\<rparr>"
  have save: "SaveCommandLog now uuid (tm_session t) (sc_device_id req) (sc_type req) (sc_params req) (sv_db s) =
      (Inr (), ?d)"
    by (rule save_works [OF assms(1,3)])
  have st: "statuses ?d = (statuses (sv_db s))(uuid \<mapsto> ''Pending'')"
    using statuses_append [of ?row "sv_db s"] assms(3) by simp
  have d: "no_faults ?d" "db_wf ?d"
    using assms(1,2) SaveCommandLog_wf [OF save] by simp_all
  have fail: "statuses (sv_db (set_command_status uuid ''Failed'' (s\<lparr>sv_db := ?d\<rparr>))) =
      (statuses (sv_db s))(uuid \<mapsto> ''Failed'')"
    using statuses_set_command_status(1) [of "s\<lparr>sv_db := ?d\<rparr>"] d by (simp add: st set_status_def)
  have r: "r = (case enqueue (tm_session t) (build_command uuid req unix) (sv_cm s) of
        None \<Rightarrow> (Inr (refused uuid queue_full_message), set_command_status uuid ''Failed'' (s\<lparr>sv_db := ?d\<rparr>))
      | Some cm' \<Rightarrow> (Inr \<lparr>sr_ok = True, sr_command_id = uuid, sr_message = ''queued''\<rparr>,
          s\<lparr>sv_db := ?d, sv_cm := cm', sv_log := sv_log s @ [LogQueued (tm_session t) (build_command uuid req unix)]\<rparr>))"
    using assms(4-8) by (simp add: r_def SendCommand_def on_db_eq save Let_def split: option.splits)
  show "length (cc_queue c) < cmdQueueCapacity \<Longrightarrow>
      fst r = Inr \<lparr>sr_ok = True, sr_command_id = uuid, sr_message = ''queued''\<rparr> \<and>
      waiting (tm_session t) (sv_cm (snd r)) =
        waiting (tm_session t) (sv_cm s) @ [build_command uuid req unix] \<and>
      statuses (sv_db (snd r)) = (statuses (sv_db s))(uuid \<mapsto> ''Pending'')"
    using assms(7) st by (simp add: r enqueue_def chan_send_def waiting_def Get_upd_conn)
  show "cmdQueueCapacity \<le> length (cc_queue c) \<Longrightarrow>
      fst r = Inr (refused uuid queue_full_message) \<and> sv_cm (snd r) = sv_cm s \<and>
      statuses (sv_db (snd r)) = (statuses (sv_db s))(uuid \<mapsto> ''Failed'')"
    using assms(7) fail by (simp add: r enqueue_def chan_send_def)
qed

section \<open>The mark after the send\<close>

lemma mark_held:
  assumes "map_of (sv_chans s) st = Some ch" "ch_unmarked ch = Some cmd"
  shows "sv_db (consumer_mark st s) = snd (UpdateCommandStatus (cd_id cmd) ''Sent'' (sv_db s))"
    and "(cd_id cmd, timeout_ns (cd_timeout_sec cmd)) \<in> set (sv_timers (consumer_mark st s))"
  using assms by (simp_all add: consumer_mark_def Let_def set_channel_def set_command_status_eq)

lemma recv_result_eq:
  assumes "map_of (sv_chans s) st = Some ch" "ch_result ch = None" "cm_payload m = CP_CommandResult res"
  shows "Channel_recv now ns ok st (RecvMsg m) s = handleCommandResult (ch_session ch) res s"
  using assms by (simp add: Channel_recv_def)

lemma result_keeps_chans [simp]: "sv_chans (handleCommandResult sid res s) = sv_chans s"
  "sv_timers (handleCommandResult sid res s) = sv_timers s"
  by (simp_all add: handleCommandResult_def)

end
