(* ===== verification/Admission.thy ===== *)
theory Admission
  imports Lifecycle
begin

text \<open>
  Registration, blocking, kicking and the heartbeat check over the server's state: the lemmas
  that say what each of these calls does when the store works, and how they meet in the registry.
\<close>

section \<open>Register\<close>

lemma admit_works:
  assumes "no_faults (sv_db s)"
  shows "admit req s = (if IsFull (sv_cm s)
      then (Some (Inl \<lparr>st_code = ResourceExhausted, st_message = ''server at capacity''\<rparr>), s)
      else if device_blocked (hs_device_id req) (sv_db s)
      then (Some (Inr \<lparr>hr_ok = False, hr_session_id = [], hr_server_time = [],
            hr_message = ''device is blocked''\<rparr>), s)
      else (None, s))"
  using assms by (simp add: admit_def on_db_eq IsDeviceBlocked_def no_faults_def device_blocked_def
      split: bool.split)

text \<open>The effects of a registration that is admitted.\<close>

definition admitted_spec :: "string \<Rightarrow> nat \<Rightarrow> int \<Rightarrow> handshake_request \<Rightarrow> server \<Rightarrow> server \<Rightarrow> bool"
where
  "admitted_spec uuid now ns req s s' \<longleftrightarrow>
     Get uuid (sv_cm s') = Some (new_conn uuid ns req) \<and>
     (\<forall>k. k \<noteq> uuid \<longrightarrow> Get k (sv_cm s') = Get k (sv_cm s)) \<and>
     (\<exists>row. GetTerminal uuid (sv_db s') = (Inr (scanTerminal row), sv_db s') \<and>
        terminals (sv_db s') = terminals (sv_db s) @ [row] \<and> t_device row = hs_device_id req \<and>
        t_first_seen row = nowUTC now \<and> \<not> t_online row \<and> \<not> t_blocked row)"

lemma enrol_spec:
  assumes "no_faults (sv_db s)" "db_wf (sv_db s)" "uuid \<notin> t_session ` set (terminals (sv_db s))"
  shows "admitted_spec uuid now ns req s (snd (enrol uuid now ns t req s))"
proof -
  let ?s = "snd (enrol uuid now ns t req s)"
  have "keys_ok (sv_db ?s)" "no_faults (sv_db ?s)"
    using assms by (auto simp: enrol_def Let_def UpsertTerminal_def no_faults_def db_wf_def keys_ok_def
        upsert_row_distinct)
  moreover obtain row where row: "terminals (sv_db ?s) = terminals (sv_db s) @ [row]"
    "t_session row = uuid" "t_device row = hs_device_id req" "t_first_seen row = nowUTC now"
    "\<not> t_online row" "\<not> t_blocked row"
    using assms by (auto simp: enrol_def Let_def UpsertTerminal_def no_faults_def upsert_row_def
        nowUTC_def)
  ultimately have "GetTerminal uuid (sv_db ?s) = (Inr (scanTerminal row), sv_db ?s)"
    using GetTerminal_found [of "sv_db ?s" row] by (simp add: no_faults_def)
  then show ?thesis
    using row by (auto simp: admitted_spec_def cm_enrol Get_Add new_conn_def)
qed

lemma length_update_fresh: "k \<notin> fst ` set al \<Longrightarrow> length (AList.update k v al) = Suc (length al)"
  by (induction al) auto

lemma Count_Add: "cc_session c \<notin> ids_of cm \<Longrightarrow> Count (Add c cm) = Count cm + 1"
  by (simp add: Count_def Add_def ids_of_def length_update_fresh)

lemma Count_enrol:
  "uuid \<notin> ids_of (sv_cm s) \<Longrightarrow> Count (sv_cm (snd (enrol uuid now ns t req s))) = Count (sv_cm s) + 1"
  by (simp add: cm_enrol Count_Add new_conn_def)

lemma exec_admit_passes:
  "no_faults (sv_db s) \<Longrightarrow> \<not> IsFull (sv_cm s) \<Longrightarrow> \<not> device_blocked (hs_device_id req) (sv_db s) \<Longrightarrow>
   exec_event (EvAdmit req) s = s\<lparr>sv_admitted := sv_admitted s @ [req]\<rparr>"
  by (simp add: admit_works)

lemma cm_exec_enrol:
  "req \<in> set (sv_admitted s) \<Longrightarrow>
   sv_cm (exec_event (EvEnrol uuid now ns t req) s) = Add (new_conn uuid ns req) (sv_cm s)"
  "req \<in> set (sv_admitted s) \<Longrightarrow>
   sv_admitted (exec_event (EvEnrol uuid now ns t req) s) = remove1 req (sv_admitted s)"
  by (simp add: cm_enrol) (simp add: enrol_def Let_def)

section \<open>Kicking\<close>

text \<open>A channel opened on an entry that is closed is told to leave at once.\<close>

lemma kicked_on_open:
  assumes "Get sid (sv_cm s) = Some c" "cc_closed c" "extractSessionID md = Inr sid"
  shows "fst (Channel_open st ns md s) = None \<and>
    map_of (sv_chans (Channel_kicked st (snd (Channel_open st ns md s)))) st =
      Some \<lparr>ch_session = sid, ch_unmarked = None, ch_result = Some (Some (StatusErr kicked_status))\<rparr>"
  using assms
  by (simp add: Channel_open_def set_channel_def Channel_kicked_def loop_returns_def update_conv'
      SetStream_def Get_upd_conn)

section \<open>The heartbeat check\<close>

definition expired_ids :: "int \<Rightarrow> int \<Rightarrow> conn_manager \<Rightarrow> string set" where
  "expired_ids ns timeout cm = {k. \<exists>c. Get k cm = Some c \<and> expired ns timeout c}"

definition offline_row :: "string set \<Rightarrow> terminal_row \<Rightarrow> terminal_row" where
  "offline_row ks r = (if t_session r \<in> ks then r\<lparr>t_online := False\<rparr> else r)"

lemma fold_MarkOffline:
  "no_faults d \<Longrightarrow> fold (\<lambda>k d. snd (MarkOffline k d)) ks d =
     d\<lparr>terminals := map (offline_row (set ks)) (terminals d)\<rparr>"
proof (induction ks arbitrary: d)
  case Nil
  have "map (offline_row {}) (terminals d) = terminals d" by (rule map_idI) (simp add: offline_row_def)
  then show ?case by simp
next
  case (Cons k ks)
  have m: "snd (MarkOffline k d) = d\<lparr>terminals := map (offline_row {k}) (terminals d)\<rparr>"
    using Cons.prems by (simp add: MarkOffline_def no_faults_def update_terminals_def offline_row_def)
  have c: "offline_row (set ks) (offline_row {k} r) = offline_row (set (k # ks)) r" for r
    by (simp add: offline_row_def)
  show ?case using Cons.IH [of "snd (MarkOffline k d)"] Cons.prems
    by (simp add: m no_faults_def c o_def del: set_simps)
qed

lemma tick_db:
  assumes "no_faults (sv_db s)" "distinct ids" "set ids = ids_of (sv_cm s)"
  shows "sv_db (heartbeat_tick ns timeout ids s) =
    (sv_db s)\<lparr>terminals := map (offline_row (expired_ids ns timeout (sv_cm s))) (terminals (sv_db s))\<rparr>"
proof -
  let ?f = "filter (\<lambda>k. case Get k (sv_cm s) of None \<Rightarrow> False | Some c \<Rightarrow> expired ns timeout c) ids"
  have "set ?f = expired_ids ns timeout (sv_cm s)"
    using assms(3) by (auto simp: expired_ids_def split: option.splits dest: Get_in_ids)
  then show ?thesis
    by (simp add: db_tick scan_callbacks assms(2) fold_MarkOffline [OF assms(1)])
qed

lemma tick_registry:
  assumes "set ids = ids_of (sv_cm s)"
  shows "Get k (sv_cm (heartbeat_tick ns timeout ids s)) =
    map_option (offline_if (expired ns timeout)) (Get k (sv_cm s))"
  using assms Get_ids [of k "sv_cm s"]
  unfolding cm_tick by (subst sessions.get_modify_all) (auto simp: offline_if_def expired_def)

end
