(* ===== verification/Examples.thy ===== *)
theory Examples
  imports Admission
begin

text \<open>
  A small concrete run that the witnesses of the server's properties share: an empty database on
  the reference engine, one device that registers and opens its channel, and one command. The
  states are written out, so that a witness needs only the definitions at hand.
\<close>

definition demo_db :: db where
  "demo_db = empty_db reference_engine []"

definition demo_start :: server where
  "demo_start = start_server (SetMaxConns 1 NewConnectionManager) demo_db"

definition demo_hello :: handshake_request where
  "demo_hello = \<lparr>hs_hostname = ''pc'', hs_os = ''linux'', hs_os_version = ''6'',
     hs_kernel_version = ''k'', hs_client_version = ''1'', hs_mac_addrs = [], hs_ip_addrs = [],
     hs_device_id = ''dev''\<rparr>"

definition demo_md :: "(string \<times> string list) list option" where
  "demo_md = Some [(''session-id'', [''s1''])]"

definition demo_request :: send_command_request where
  "demo_request = \<lparr>sc_device_id = ''dev'', sc_type = ct_collect_now, sc_params = [], sc_timeout_sec = 5\<rparr>"

definition demo_registered :: server where
  "demo_registered = run_events [EvAdmit demo_hello, EvEnrol ''s1'' 100 5 ''t'' demo_hello] demo_start"

definition demo_open :: server where
  "demo_open = exec_event (EvOpen 1 6 demo_md) demo_registered"

definition demo_queued :: server where
  "demo_queued = exec_event (EvCommand ''c1'' 101 101 demo_request) demo_open"

definition demo_sent :: server where
  "demo_sent = exec_event (EvSend 1 True) demo_queued"

definition demo_marked :: server where
  "demo_marked = exec_event (EvMark 1) demo_sent"

section \<open>The states written out\<close>

definition demo_conn :: client_conn where
  "demo_conn = new_conn ''s1'' 5 demo_hello"

definition demo_row :: terminal_row where
  "demo_row = \<lparr>t_session = ''s1'', t_device = ''dev'', t_hostname = ''pc'', t_os = ''linux'',
     t_os_version = ''6'', t_kernel = ''k'', t_client = ''1'', t_macs = ''[]'', t_ips = ''[]'',
     t_first_seen = rfc3339 100, t_last_seen = rfc3339 100, t_last_heartbeat = None,
     t_online = False, t_blocked = False\<rparr>"

definition demo_command_row :: "string \<Rightarrow> command_row" where
  "demo_command_row st = \<lparr>c_command = ''c1'', c_session = ''s1'', c_type = ''COMMAND_TYPE_COLLECT_NOW'',
     c_params = ''{}'', c_status = st, c_exit = None, c_stdout = [], c_stderr = [], c_error = [],
     c_created = rfc3339 101, c_started = None, c_finished = None\<rparr>"

definition demo_cmd :: command where
  "demo_cmd = \<lparr>cd_id = ''c1'', cd_type = ct_collect_now, cd_params = [], cd_timeout_sec = 5,
     cd_created_at_unix = 101\<rparr>"

lemma demo_db_wf [simp]: "db_wf demo_db"
  by (simp add: demo_db_def db_wf_empty)

lemma demo_registered_eq:
  "demo_registered = \<lparr>sv_cm = \<lparr>cm_sessions = [(''s1'', demo_conn)], cm_max = 1\<rparr>,
     sv_db = demo_db\<lparr>terminals := [demo_row]\<rparr>, sv_admitted = [], sv_chans = [], sv_timers = [],
     sv_out = [], sv_log = []\<rparr>"
  by (simp add: demo_registered_def demo_start_def start_server_def SetMaxConns_def
      NewConnectionManager_def admit_def IsFull_def Count_def IsDeviceBlocked_def on_db_eq demo_db_def
      empty_db_def enrol_def Add_def UpsertTerminal_def upsert_row_def Let_def demo_conn_def new_conn_def
      demo_row_def demo_hello_def marshalJSONArray_def)

lemma demo_open_eq:
  "demo_open = \<lparr>sv_cm = \<lparr>cm_sessions = [(''s1'', demo_conn\<lparr>cc_stream := Some 1, cc_online := True,
        cc_last_heartbeat := 6\<rparr>)], cm_max = 1\<rparr>,
     sv_db = demo_db\<lparr>terminals := [demo_row]\<rparr>, sv_admitted = [],
     sv_chans = [(1, \<lparr>ch_session = ''s1'', ch_unmarked = None, ch_result = None\<rparr>)], sv_timers = [],
     sv_out = [], sv_log = []\<rparr>"
  by (simp add: demo_open_def demo_registered_eq Channel_open_def extractSessionID_def demo_md_def
      Get_def SetStream_def upd_conn_def set_channel_def)

lemma demo_device: "GetTerminalByDevice ''dev'' (demo_db\<lparr>terminals := [demo_row]\<rparr>) =
    (Inr (scanTerminal demo_row), demo_db\<lparr>terminals := [demo_row]\<rparr>)"
  by (simp add: GetTerminalByDevice_def query_terminal_def demo_db_def empty_db_def demo_row_def
      order_desc_def stable_desc_def sql_limit_def)

lemma demo_queued_eq:
  "demo_queued = \<lparr>sv_cm = \<lparr>cm_sessions = [(''s1'', demo_conn\<lparr>cc_stream := Some 1, cc_online := True,
        cc_last_heartbeat := 6, cc_queue := [demo_cmd]\<rparr>)], cm_max = 1\<rparr>,
     sv_db = demo_db\<lparr>terminals := [demo_row], commands := [demo_command_row ''Pending'']\<rparr>,
     sv_admitted = [],
     sv_chans = [(1, \<lparr>ch_session = ''s1'', ch_unmarked = None, ch_result = None\<rparr>)], sv_timers = [],
     sv_out = [], sv_log = [LogQueued ''s1'' demo_cmd]\<rparr>"
proof -
  have t: "tm_session (scanTerminal demo_row) = ''s1''" by (simp add: scanTerminal_def demo_row_def)
  have q: "cc_queue demo_conn = []" by (simp add: demo_conn_def new_conn_def)
  have d: "db_verdicts demo_db = []" "commands demo_db = []" by (simp_all add: demo_db_def empty_db_def)
  have c: "build_command ''c1'' demo_request 101 = demo_cmd"
    by (simp add: build_command_def demo_request_def demo_cmd_def word_sle_eq)
  have r: "cmdTypeName ct_collect_now = ''COMMAND_TYPE_COLLECT_NOW''" "marshalJSONMap [] = ''{}''"
    by (simp_all add: cmdTypeName_def CommandType_name_def ct_collect_now_def marshalJSONMap_def)
  have f: "sc_device_id demo_request = ''dev''" "sc_type demo_request = ct_collect_now"
    "ct_collect_now \<noteq> ct_unspecified" "sc_params demo_request = []"
    by (simp_all add: demo_request_def ct_defs)
  show ?thesis
    by (simp add: demo_queued_def demo_open_eq SendCommand_def f on_db_eq demo_device t Get_def
        SaveCommandLog_def d Let_def c r enqueue_def chan_send_def cmdQueueCapacity_def q upd_conn_def
        demo_command_row_def)
qed

lemma demo_sent_eq:
  "demo_sent = \<lparr>sv_cm = \<lparr>cm_sessions = [(''s1'', demo_conn\<lparr>cc_stream := Some 1, cc_online := True,
        cc_last_heartbeat := 6, cc_queue := []\<rparr>)], cm_max = 1\<rparr>,
     sv_db = demo_db\<lparr>terminals := [demo_row], commands := [demo_command_row ''Pending'']\<rparr>,
     sv_admitted = [],
     sv_chans = [(1, \<lparr>ch_session = ''s1'', ch_unmarked = Some demo_cmd, ch_result = None\<rparr>)],
     sv_timers = [], sv_out = [(1, command_message demo_cmd)],
     sv_log = [LogQueued ''s1'' demo_cmd, LogSent ''s1'' demo_cmd]\<rparr>"
  by (simp add: demo_sent_def demo_queued_eq consumer_send_def Get_def chan_recv_def upd_conn_def
      set_channel_def)

lemma demo_marked_eq:
  "demo_marked = demo_sent\<lparr>
     sv_db := demo_db\<lparr>terminals := [demo_row], commands := [demo_command_row ''Sent'']\<rparr>,
     sv_chans := [(1, \<lparr>ch_session = ''s1'', ch_unmarked = None, ch_result = None\<rparr>)],
     sv_timers := [(''c1'', timeout_ns 5)]\<rparr>"
proof -
  have "db_verdicts demo_db = []" by (simp add: demo_db_def empty_db_def)
  then show ?thesis
    by (simp add: demo_marked_def demo_sent_eq consumer_mark_def set_command_status_eq
        UpdateCommandStatus_def update_commands_def demo_cmd_def demo_command_row_def set_channel_def Let_def)
qed

lemma demo_reachable:
  "reachable 1 demo_db demo_registered" "reachable 1 demo_db demo_open"
  "reachable 1 demo_db demo_queued" "reachable 1 demo_db demo_sent" "reachable 1 demo_db demo_marked"
proof -
  have 0: "reachable 1 demo_db demo_start" unfolding demo_start_def by (rule reachable.start)
  have "reachable 1 demo_db (exec_event (EvAdmit demo_hello) demo_start)"
    by (rule reachable.step [OF 0]) simp
  moreover have "allowed (EvEnrol ''s1'' 100 5 ''t'' demo_hello) (exec_event (EvAdmit demo_hello) demo_start)"
    by (simp add: demo_start_def start_server_def SetMaxConns_def NewConnectionManager_def admit_def
        IsFull_def Count_def IsDeviceBlocked_def on_db_eq demo_db_def empty_db_def ids_of_def)
  ultimately show 1: "reachable 1 demo_db demo_registered"
    unfolding demo_registered_def run_events.simps by (rule reachable.step)
  show 2: "reachable 1 demo_db demo_open"
    unfolding demo_open_def by (rule reachable.step [OF 1]) (simp add: demo_registered_eq)
  show 3: "reachable 1 demo_db demo_queued"
    unfolding demo_queued_def
    by (rule reachable.step [OF 2]) (simp add: demo_open_eq demo_db_def empty_db_def)
  show 4: "reachable 1 demo_db demo_sent"
    unfolding demo_sent_def by (rule reachable.step [OF 3]) simp
  show "reachable 1 demo_db demo_marked"
    unfolding demo_marked_def by (rule reachable.step [OF 4]) simp
qed

end
