(* ===== verification/Blocklist.thy ===== *)
theory Blocklist
  imports ServerRuns
begin

text \<open>
  How long a block lasts: a row that carries the flag keeps it through every event of the server
  except an unblock of its device, whatever the engine does to the statements in between.
\<close>

section \<open>A blocked row stays blocked\<close>

definition marked :: "string \<Rightarrow> db \<Rightarrow> bool" where
  "marked v d \<longleftrightarrow> (\<exists>r \<in> set (terminals d). t_device r = v \<and> t_blocked r)"

lemma marked_blocked: "no_faults d \<Longrightarrow> device_blocked v d = marked v d"
  by (simp add: device_blocked_iff marked_def)

lemma marked_same: "same_tables d d' \<Longrightarrow> marked v d' = marked v d"
  by (simp add: marked_def same_tablesD)

lemma marked_update_terminals:
  assumes "\<And>r. t_device (f r) = t_device r" "\<And>r. P r \<Longrightarrow> t_device r = v \<Longrightarrow> t_blocked r \<Longrightarrow> t_blocked (f r)"
    and "marked v d"
  shows "marked v (update_terminals P f d)"
proof -
  obtain r where r: "r \<in> set (terminals d)" "t_device r = v" "t_blocked r"
    using assms(3) by (auto simp: marked_def)
  let ?r = "if P r then f r else r"
  have "?r \<in> set (terminals (update_terminals P f d))" using r(1) by auto
  moreover have "t_device ?r = v \<and> t_blocked ?r" using r assms(1,2) by simp
  ultimately show ?thesis unfolding marked_def by blast
qed

lemma marked_exec_op:
  assumes "marked v d" "\<And>d. marked v d \<Longrightarrow> marked v (upd d)"
  shows "marked v (snd (exec_op ctx upd d))"
proof -
  obtain r d' where e: "exec_op ctx upd d = (r, d')" by fastforce
  then show ?thesis by (cases rule: exec_op_cases) (use assms e in \<open>auto simp: marked_same\<close>)
qed

lemma marked_commands [simp]: "marked v (d\<lparr>commands := cs\<rparr>) = marked v d"
  "marked v (update_commands P f d) = marked v d"
  by (simp_all add: marked_def)

lemma marked_cong: "terminals d' = terminals d \<Longrightarrow> marked v d' = marked v d"
  by (simp add: marked_def)

lemma marked_save: "marked v (snd (SaveHardwareReport now a w rep d)) = marked v d"
proof (rule marked_cong)
  obtain r d' where e: "SaveHardwareReport now a w rep d = (r, d')" by fastforce
  then show "terminals (snd (SaveHardwareReport now a w rep d)) = terminals d"
    by (cases rule: SaveHardwareReport_cases) (simp_all add: e same_tablesD(1))
qed

lemma marked_save_log: "marked v (snd (SaveCommandLog now k a w t ps d)) = marked v d"
proof (rule marked_cong)
  obtain r d' where e: "SaveCommandLog now k a w t ps d = (r, d')" by fastforce
  then show "terminals (snd (SaveCommandLog now k a w t ps d)) = terminals d"
    by (cases rule: SaveCommandLog_cases) (simp_all add: e same_tablesD(1))
qed

lemma marked_reads:
  "marked v d \<Longrightarrow> marked v (snd (IsDeviceBlocked w d))"
  "marked v d \<Longrightarrow> marked v (snd (GetTerminalByDevice w d))"
  by (metis IsDeviceBlocked_same GetTerminalByDevice_same marked_same prod.collapse)+

lemma marked_ops:
  "safe_on (marked v) (IsDeviceBlocked w)" "safe_on (marked v) (GetTerminalByDevice w)"
  "safe_on (marked v) (MarkOffline a)" "safe_on (marked v) (UpdateHeartbeat now a)"
  "safe_on (marked v) (SaveHardwareReport now a w rep)"
  "safe_on (marked v) (UpdateCommandResult k st n b c e f g)" "safe_on (marked v) (UpdateCommandStatus k st)"
  "safe_on (marked v) (MarkCommandTimeout now k)" "safe_on (marked v) (SaveCommandLog now k a w t ps)"
  "safe_on (marked v) (MarkBlocked w)" "w \<noteq> v \<Longrightarrow> safe_on (marked v) (UnblockTerminal w)"
  unfolding safe_on_def
  by (auto simp: marked_reads marked_save marked_save_log MarkOffline_def UpdateHeartbeat_def
      UpdateCommandResult_def UpdateCommandStatus_def MarkCommandTimeout_def MarkBlocked_def
      UnblockTerminal_def intro!: marked_exec_op marked_update_terminals)

lemma marked_upsert:
  assumes "a \<notin> t_session ` set (terminals d)" "marked v d"
  shows "marked v (snd (UpsertTerminal now a w b c e f g x y d))"
proof -
  obtain ctx row where op: "UpsertTerminal now a w b c e f g x y d =
      exec_op ctx (\<lambda>d. d\<lparr>terminals := upsert_row row (terminals d)\<rparr>) d" "t_session row = a"
    by (simp add: UpsertTerminal_def Let_def)
  obtain r d' where e: "exec_op ctx (\<lambda>d. d\<lparr>terminals := upsert_row row (terminals d)\<rparr>) d = (r, d')"
    by fastforce
  then show ?thesis
    by (cases rule: exec_op_cases)
      (use op e assms in \<open>auto simp: marked_def upsert_row_def same_tablesD(1)\<close>)
qed

lemmas marked_safe = marked_ops [THEN safe_onD]

lemma marked_tick: "marked v d \<Longrightarrow>
   marked v (snd (heartbeat_scan ns timeout (Some (\<lambda>sid d. snd (MarkOffline sid d))) ids (cm, d)))"
  by (induction ids arbitrary: cm d)
    (simp_all add: scan_step marked_safe split: option.splits del: heartbeat_scan.simps(2))

lemma event_marked:
  assumes "marked v (sv_db s)" "allowed ev s" "ev \<noteq> EvUnblock v"
  shows "marked v (sv_db (exec_event ev s))"
proof (cases ev)
  case (EvAdmit req)
  then show ?thesis using assms
    by (auto simp: admit_def on_db_eq marked_safe split: prod.splits option.splits sum.splits bool.splits)
next
  case (EvEnrol uuid now ns t req)
  then show ?thesis using assms by (auto simp: enrol_def Let_def intro!: marked_upsert)
next
  case (EvTick ns timeout ids)
  then show ?thesis using assms by (simp add: db_tick marked_tick)
next
  case (EvCommand uuid now unix req)
  then show ?thesis using assms
    by (auto simp: SendCommand_def Let_def on_db_eq set_command_status_eq marked_safe
        split: sum.splits option.splits)
next
  case (EvRecv now ns ok st r)
  then show ?thesis using assms
    by (auto simp: Channel_recv_def loop_returns_def handleHeartbeat_def handleReport_def
        handleCommandResult_def set_channel_def Let_def marked_safe
        split: option.splits recv_result.splits client_payload.splits report_type.splits)
qed (use assms in \<open>auto simp: server_step_defs on_db_eq set_command_status_eq marked_safe
      split: option.splits sum.splits\<close>)

lemma mark_marks:
  assumes "fst (MarkBlocked v d) = Inr ()" "has_device d v"
  shows "marked v (snd (MarkBlocked v d))"
proof -
  obtain x d' where e: "MarkBlocked v d = (x, d')" by fastforce
  then have x: "x = Inr ()" using assms(1) by simp
  obtain row where row: "row \<in> set (terminals d)" "t_device row = v"
    using assms(2) by (auto simp: has_device_def)
  have "marked v d'" using e unfolding MarkBlocked_def
  proof (cases rule: exec_op_cases)
    case (2 d1)
    then have "row\<lparr>t_blocked := True\<rparr> \<in> set (terminals d')"
      using row by (force simp: same_tablesD(1))
    then show ?thesis using row(2) unfolding marked_def by (intro bexI) simp_all
  qed (use x in simp)
  then show ?thesis using e by simp
qed

end
