(* ===== verification/Interleaving.thy ===== *)
theory Interleaving
  imports ServerRuns
begin

text \<open>
  The server with its calls taken apart. \<open>Server\<close> performs a call as one event; here every critical
  section of the registry's lock, every store operation and every send is a step of its own, and
  what a call has still to do is a task in a list, so that the steps of different calls come in any
  order. A heartbeat scan holds the lock from its first step to its last.

  The receive from a command queue and the send of that command stay one step (\<open>consumer_send\<close>), and
  the fields of an entry that a call reads after \<open>Get\<close> are read with the lookup. Answers to callers are not part
  of the state; \<open>kick_reply\<close> is the one that a property needs.
\<close>

section \<open>Tasks\<close>

text \<open>
  Register between its two checks and after the session is added; a heartbeat after it is recorded
  and after it is stored; a Channel call after its stream is cleared; DisconnectTerminal after it has
  found the session online; BlockTerminal after the device is marked; SendCommand after each of its
  stages; a scan before its next session, and before the callback for a session.
\<close>

datatype task =
    Checking handshake_request
  | Persisting string handshake_request
  | Beating nat string
  | Acking nat
  | Closing string
  | Kicking string
  | Blocking string
  | SendLocated send_command_request string
  | SendReached send_command_request string
  | SendSaved string send_command_request string
  | SendRefused string
  | Ticking int int "string list"
  | Calling string int int "string list"

type_synonym system = "server \<times> task list"

fun holds_lock :: "task \<Rightarrow> bool" where
  "holds_lock (Ticking _ _ _) \<longleftrightarrow> True"
| "holds_lock (Calling _ _ _ _) \<longleftrightarrow> True"
| "holds_lock _ \<longleftrightarrow> False"

definition locked :: "task list \<Rightarrow> bool" where
  "locked ts \<longleftrightarrow> list_ex holds_lock ts"

text \<open>The receive loop of a stream handles one message at a time.\<close>

fun serves :: "nat \<Rightarrow> task \<Rightarrow> bool" where
  "serves st (Beating st' _) \<longleftrightarrow> st = st'"
| "serves st (Acking st') \<longleftrightarrow> st = st'"
| "serves st _ \<longleftrightarrow> False"

definition busy :: "nat \<Rightarrow> task list \<Rightarrow> bool" where
  "busy st ts \<longleftrightarrow> list_ex (serves st) ts"

section \<open>Steps\<close>

datatype micro =
    Whole event
  | McCheck handshake_request
  | McBlocklist handshake_request
  | McAdd string int handshake_request
  | McPersist nat string handshake_request
  | McBeat int nat
  | McBeatStore nat nat string
  | McAck nat bool nat
  | McClear nat
  | McOffline string
  | McFind string
  | McKick string
  | McBlock string
  | McBlockKick string "string list"
  | McLocate send_command_request
  | McReach send_command_request string
  | McSave nat string send_command_request string
  | McQueue nat string send_command_request string
  | McFail string
  | McTick int int "string list"
  | McVisit int int string "string list"
  | McCall int int string "string list"
  | McTickEnd int int

text \<open>The events that are one critical section, store operation or send already.\<close>

fun is_beat :: "recv_result \<Rightarrow> bool" where
  "is_beat (RecvMsg m) \<longleftrightarrow> (case cm_payload m of CP_Heartbeat _ \<Rightarrow> True | _ \<Rightarrow> False)"
| "is_beat _ \<longleftrightarrow> False"

fun single :: "event \<Rightarrow> bool" where
  "single (EvOpen st ns md) \<longleftrightarrow> True"
| "single (EvRecv now ns ok st r) \<longleftrightarrow> \<not> is_beat r"
| "single (EvKicked st) \<longleftrightarrow> True"
| "single (EvSend st ok) \<longleftrightarrow> True"
| "single (EvMark st) \<longleftrightarrow> True"
| "single (EvTimeout now k) \<longleftrightarrow> True"
| "single (EvUnblock v) \<longleftrightarrow> True"
| "single _ \<longleftrightarrow> False"

text \<open>The task that a step goes on with, whether it takes the lock, and the stream whose loop runs it.\<close>

fun takes :: "micro \<Rightarrow> task option" where
  "takes (McBlocklist req) = Some (Checking req)"
| "takes (McPersist now uuid req) = Some (Persisting uuid req)"
| "takes (McBeatStore now st sid) = Some (Beating st sid)"
| "takes (McAck now ok st) = Some (Acking st)"
| "takes (McOffline sid) = Some (Closing sid)"
| "takes (McKick sid) = Some (Kicking sid)"
| "takes (McBlockKick v ids) = Some (Blocking v)"
| "takes (McReach req sid) = Some (SendLocated req sid)"
| "takes (McSave now uuid req sid) = Some (SendReached req sid)"
| "takes (McQueue unix uuid req sid) = Some (SendSaved uuid req sid)"
| "takes (McFail uuid) = Some (SendRefused uuid)"
| "takes (McVisit now timeout sid ids) = Some (Ticking now timeout (sid # ids))"
| "takes (McCall now timeout sid ids) = Some (Calling sid now timeout ids)"
| "takes (McTickEnd now timeout) = Some (Ticking now timeout [])"
| "takes _ = None"

fun needs_lock :: "micro \<Rightarrow> bool" where
  "needs_lock (Whole ev) \<longleftrightarrow> (case ev of EvOpen _ _ _ \<Rightarrow> True | _ \<Rightarrow> False)"
| "needs_lock (McCheck _) \<longleftrightarrow> True"
| "needs_lock (McAdd _ _ _) \<longleftrightarrow> True"
| "needs_lock (McBeat _ _) \<longleftrightarrow> True"
| "needs_lock (McClear _) \<longleftrightarrow> True"
| "needs_lock (McFind _) \<longleftrightarrow> True"
| "needs_lock (McKick _) \<longleftrightarrow> True"
| "needs_lock (McBlockKick _ _) \<longleftrightarrow> True"
| "needs_lock (McReach _ _) \<longleftrightarrow> True"
| "needs_lock (McTick _ _ _) \<longleftrightarrow> True"
| "needs_lock _ \<longleftrightarrow> False"

fun stream_of :: "micro \<Rightarrow> nat option" where
  "stream_of (Whole ev) = (case ev of EvRecv _ _ _ st _ \<Rightarrow> Some st | EvKicked st \<Rightarrow> Some st | _ \<Rightarrow> None)"
| "stream_of (McBeat ns st) = Some st"
| "stream_of (McClear st) = Some st"
| "stream_of _ = None"

text \<open>What DisconnectTerminal and SendCommand find, and what the former answers.\<close>

definition kick_check :: "string \<Rightarrow> server \<Rightarrow> bool" where
  "kick_check sid s \<longleftrightarrow> (case Get sid (sv_cm s) of None \<Rightarrow> False | Some c \<Rightarrow> cc_online c)"

definition kick_reply :: "bool \<Rightarrow> admin_response" where
  "kick_reply found = (if found then \<lparr>ar_ok = True, ar_message = ''kicked''\<rparr>
     else \<lparr>ar_ok = False, ar_message = ''session not found or offline''\<rparr>)"

text \<open>When a step can come: what the code has checked before it, and what the environment guarantees.\<close>

fun guard :: "micro \<Rightarrow> server \<Rightarrow> bool" where
  "guard (Whole ev) s \<longleftrightarrow> allowed ev s \<and> single ev"
| "guard (McCheck req) s \<longleftrightarrow> \<not> IsFull (sv_cm s)"
| "guard (McAdd uuid ns req) s \<longleftrightarrow> req \<in> set (sv_admitted s) \<and> uuid \<notin> ids_of (sv_cm s)"
| "guard (McPersist now uuid req) s \<longleftrightarrow> uuid \<notin> t_session ` set (terminals (sv_db s))"
| "guard (McBeat ns st) s \<longleftrightarrow>
     (case map_of (sv_chans s) st of None \<Rightarrow> False | Some ch \<Rightarrow> ch_result ch = None)"
| "guard (McClear st) s \<longleftrightarrow> (case map_of (sv_chans s) st of
      None \<Rightarrow> False | Some ch \<Rightarrow> ch_result ch \<noteq> None \<and> ch_unmarked ch = None)"
| "guard (McFind sid) s \<longleftrightarrow> kick_check sid s"
| "guard (McBlockKick v ids) s \<longleftrightarrow> distinct ids \<and> set ids = ids_of (sv_cm s)"
| "guard (McLocate req) s \<longleftrightarrow> sc_device_id req \<noteq> [] \<and> sc_type req \<noteq> ct_unspecified"
| "guard (McSave now uuid req sid) s \<longleftrightarrow> uuid \<notin> c_command ` set (commands (sv_db s))"
| "guard (McTick now timeout ids) s \<longleftrightarrow> distinct ids \<and> set ids = ids_of (sv_cm s)"
| "guard _ s \<longleftrightarrow> True"

fun enabled :: "micro \<Rightarrow> system \<Rightarrow> bool" where
  "enabled m (s, ts) \<longleftrightarrow> guard m s \<and> (needs_lock m \<longrightarrow> \<not> locked ts) \<and>
     (case stream_of m of None \<Rightarrow> True | Some st \<Rightarrow> \<not> busy st ts) \<and>
     (case takes m of None \<Rightarrow> True | Some t \<Rightarrow> t \<in> set ts)"

text \<open>What a step does to the server, and the tasks it leaves.\<close>

fun effect :: "micro \<Rightarrow> server \<Rightarrow> server \<times> task list" where
  "effect (Whole ev) s = (exec_event ev s, [])"
| "effect (McCheck req) s = (s, [Checking req])"
| "effect (McBlocklist req) s = (case on_db (IsDeviceBlocked (hs_device_id req)) s of
      (Inr True, s1) \<Rightarrow> (s1, [])
    | (_, s1) \<Rightarrow> (s1\<lparr>sv_admitted := sv_admitted s1 @ [req]\<rparr>, []))"
| "effect (McAdd uuid ns req) s =
     (s\<lparr>sv_cm := Add (new_conn uuid ns req) (sv_cm s), sv_admitted := remove1 req (sv_admitted s)\<rparr>,
      [Persisting uuid req])"
| "effect (McPersist now uuid req) s =
     (snd (on_db (UpsertTerminal now uuid (hs_device_id req) (hs_hostname req) (hs_os req)
        (hs_os_version req) (hs_kernel_version req) (hs_client_version req)
        (hs_mac_addrs req) (hs_ip_addrs req)) s), [])"
| "effect (McBeat ns st) s = (case map_of (sv_chans s) st of
      None \<Rightarrow> (s, [])
    | Some ch \<Rightarrow> (s\<lparr>sv_cm := RecordHeartbeat ns (ch_session ch) (sv_cm s)\<rparr>, [Beating st (ch_session ch)]))"
| "effect (McBeatStore now st sid) s = (snd (on_db (UpdateHeartbeat now sid) s), [Acking st])"
| "effect (McAck now ok st) s =
     (if ok then s\<lparr>sv_out := sv_out s @ [(st, \<lparr>sm_seq = 0,
        sm_payload = SP_HeartbeatAck \<lparr>ha_server_time_unix = of_nat now\<rparr>\<rparr>)]\<rparr> else s, [])"
| "effect (McClear st) s = (case map_of (sv_chans s) st of
      None \<Rightarrow> (s, [])
    | Some ch \<Rightarrow> (s\<lparr>sv_cm := ClearStream (ch_session ch) (sv_cm s), sv_chans := AList.delete st (sv_chans s)\<rparr>,
        [Closing (ch_session ch)]))"
| "effect (McOffline sid) s = (snd (on_db (MarkOffline sid) s), [])"
| "effect (McFind sid) s = (s, [Kicking sid])"
| "effect (McKick sid) s = (s\<lparr>sv_cm := Kick sid (sv_cm s)\<rparr>, [])"
| "effect (McBlock v) s = (case on_db (MarkBlocked v) s of
      (Inl e, s1) \<Rightarrow> (s1, []) | (Inr _, s1) \<Rightarrow> (s1, [Blocking v]))"
| "effect (McBlockKick v ids) s = (s\<lparr>sv_cm := kick_sessions v ids (sv_cm s)\<rparr>, [])"
| "effect (McLocate req) s = (case on_db (GetTerminalByDevice (sc_device_id req)) s of
      (Inl e, s1) \<Rightarrow> (s1, []) | (Inr t, s1) \<Rightarrow> (s1, [SendLocated req (tm_session t)]))"
| "effect (McReach req sid) s = (s, if kick_check sid s then [SendReached req sid] else [])"
| "effect (McSave now uuid req sid) s =
     (case on_db (SaveCommandLog now uuid sid (sc_device_id req) (sc_type req) (sc_params req)) s of
        (Inl e, s1) \<Rightarrow> (s1, []) | (Inr _, s1) \<Rightarrow> (s1, [SendSaved uuid req sid]))"
| "effect (McQueue unix uuid req sid) s =
     (let cmd = build_command uuid req unix in
      case enqueue sid cmd (sv_cm s) of
        None \<Rightarrow> (s, [SendRefused uuid])
      | Some cm' \<Rightarrow> (s\<lparr>sv_cm := cm', sv_log := sv_log s @ [LogQueued sid cmd]\<rparr>, []))"
| "effect (McFail uuid) s = (set_command_status uuid ''Failed'' s, [])"
| "effect (McTick now timeout ids) s = (s, [Ticking now timeout ids])"
| "effect (McVisit now timeout sid ids) s = (case Get sid (sv_cm s) of
      None \<Rightarrow> (s, [Ticking now timeout ids])
    | Some c \<Rightarrow> if expired now timeout c
        then (s\<lparr>sv_cm := cm_MarkOffline sid (sv_cm s)\<rparr>, [Calling sid now timeout ids])
        else (s, [Ticking now timeout ids]))"
| "effect (McCall now timeout sid ids) s = (snd (on_db (MarkOffline sid) s), [Ticking now timeout ids])"
| "effect (McTickEnd now timeout) s = (s, [])"

fun micro_step :: "micro \<Rightarrow> system \<Rightarrow> system" where
  "micro_step m (s, ts) = (case effect m s of (s', new) \<Rightarrow>
     (s', (case takes m of None \<Rightarrow> ts | Some t \<Rightarrow> remove1 t ts) @ new))"

inductive interleaved :: "system \<Rightarrow> system \<Rightarrow> bool" where
  stay: "interleaved x x"
| go_on: "interleaved x y \<Longrightarrow> enabled m y \<Longrightarrow> interleaved x (micro_step m y)"

fun run_micros :: "micro list \<Rightarrow> system \<Rightarrow> system" where
  "run_micros [] x = x"
| "run_micros (m # ms) x = run_micros ms (micro_step m x)"

fun enabled_run :: "micro list \<Rightarrow> system \<Rightarrow> bool" where
  "enabled_run [] x \<longleftrightarrow> True"
| "enabled_run (m # ms) x \<longleftrightarrow> enabled m x \<and> enabled_run ms (micro_step m x)"

section \<open>Runs\<close>

lemma interleaved_trans: "interleaved y z \<Longrightarrow> interleaved x y \<Longrightarrow> interleaved x z"
  by (induction rule: interleaved.induct) (auto intro: interleaved.go_on)

lemma enabled_run_interleaved: "enabled_run ms x \<Longrightarrow> interleaved x (run_micros ms x)"
proof (induction ms arbitrary: x)
  case (Cons m ms)
  then have "interleaved x (micro_step m x)" "interleaved (micro_step m x) (run_micros ms (micro_step m x))"
    using interleaved.go_on [OF interleaved.stay] by simp_all
  then show ?case by (simp add: interleaved_trans)
qed (simp add: interleaved.stay)

section \<open>The invariant\<close>

lemma ok_registry:
  assumes "server_ok s" "tame f" "keeps_queue f"
  shows "server_ok (s\<lparr>sv_cm := modify_all upd_conn f ids (sv_cm s)\<rparr>)"
proof -
  let ?cm = "modify_all upd_conn f ids (sv_cm s)"
  have c: "cm_change (sv_cm s) ?cm" by (rule cm_change.wr [OF assms(2)])
  have q: "queues_ok (s\<lparr>sv_cm := ?cm\<rparr>)"
    using assms(1,3) by (simp add: server_ok_def queues_ok_def waiting_modify_all)
  have "length (cc_queue x) \<le> cmdQueueCapacity" if "Get k ?cm = Some x" for k x
    using q that unfolding queues_ok_def waiting_def by (metis option.simps(5) server.select_convs(1) server.surjective server.update_convs(1))
  with c q show ?thesis
    using assms(1) cm_change_ok [OF c] entry_kept_ids [OF cm_change_kept [OF c]]
    by (auto simp: server_ok_def chans_ok_def)
qed

lemma ok_conn: "server_ok s \<Longrightarrow> tame f \<Longrightarrow> keeps_queue f \<Longrightarrow> server_ok (s\<lparr>sv_cm := upd_conn k f (sv_cm s)\<rparr>)"
  using ok_registry [of s f "[k]"] by (simp add: modify_all_def)

lemma ok_db: "server_ok s \<Longrightarrow> safe_on db_wf f \<Longrightarrow> server_ok (snd (on_db f s))"
  by (simp add: server_ok_def queues_ok_def chans_ok_def safe_onD)

lemma ok_fields:
  "server_ok (s\<lparr>sv_admitted := a\<rparr>) = server_ok s" "server_ok (s\<lparr>sv_out := out\<rparr>) = server_ok s"
  by (simp_all add: server_ok_def queues_ok_def chans_ok_def)

lemma ok_add:
  assumes "server_ok s" "cc_session c \<notin> ids_of (sv_cm s)"
  shows "server_ok (s\<lparr>sv_cm := Add c (sv_cm s)\<rparr>)"
  using assms cm_ok_Add [of "sv_cm s" c] entry_kept_ids [OF cm_change_kept [OF cm_change.new [OF assms(2)]]]
  by (auto simp: server_ok_def queues_ok_def chans_ok_def waiting_Add)

lemma ok_enqueue:
  assumes "server_ok s" "enqueue sid cmd (sv_cm s) = Some cm'"
  shows "server_ok (s\<lparr>sv_cm := cm', sv_log := sv_log s @ [LogQueued sid cmd]\<rparr>)"
proof -
  obtain c where c: "Get sid (sv_cm s) = Some c" "length (cc_queue c) < cmdQueueCapacity"
    "cm' = upd_conn sid (\<lambda>x. x\<lparr>cc_queue := cc_queue c @ [cmd]\<rparr>) (sv_cm s)"
    using assms(2) by (auto simp: enqueue_def chan_send_def split: option.splits if_splits)
  let ?t = "s\<lparr>sv_cm := cm', sv_log := sv_log s @ [LogQueued sid cmd]\<rparr>"
  have change: "cm_change (sv_cm s) cm'" unfolding c(3) by (rule cm_change_upd [OF tame_writes(1)])
  have w: "waiting sid (sv_cm s) = cc_queue c" using c(1) by (simp add: waiting_def)
  then have q: "queues_ok ?t" using assms(1) c Get_in_ids [OF c(1)]
    by (auto simp: server_ok_def queues_ok_def waiting_set)
  have "length (cc_queue x) \<le> cmdQueueCapacity" if "Get k cm' = Some x" for k x
    using q that unfolding queues_ok_def waiting_def
    by (metis option.simps(5) server.select_convs(1) server.surjective server.update_convs(1,7))
  then show ?thesis
    using q assms(1) cm_change_ok [OF change] entry_kept_ids [OF cm_change_kept [OF change]]
    by (auto simp: server_ok_def chans_ok_def)
qed

lemma ok_close: "server_ok s \<Longrightarrow> server_ok (s\<lparr>sv_chans := AList.delete st (sv_chans s)\<rparr>)"
  by (auto simp: server_ok_def queues_ok_def chans_ok_def distinct_delete delete_conv')

lemma on_db_ok:
  assumes "on_db f s = (r, t)" "server_ok s" "safe_on db_wf f"
  shows "server_ok t"
  using ok_db [OF assms(2,3)] assms(1) by simp

text \<open>The reads of the calls, and the other operations, keep the tables well formed.\<close>

lemma ok_stores:
  assumes "server_ok s"
  shows "server_ok (s\<lparr>sv_db := snd (IsDeviceBlocked v (sv_db s))\<rparr>)"
    "server_ok (s\<lparr>sv_db := snd (GetTerminalByDevice v (sv_db s))\<rparr>)"
    "server_ok (s\<lparr>sv_db := snd (UpsertTerminal now a v b c e f g x y (sv_db s))\<rparr>)"
    "server_ok (s\<lparr>sv_db := snd (MarkOffline a (sv_db s))\<rparr>)"
    "server_ok (s\<lparr>sv_db := snd (UpdateHeartbeat now a (sv_db s))\<rparr>)"
    "server_ok (s\<lparr>sv_db := snd (UpdateCommandStatus k st (sv_db s))\<rparr>)"
    "server_ok (s\<lparr>sv_db := snd (SaveCommandLog now k a v t ps (sv_db s))\<rparr>)"
    "server_ok (s\<lparr>sv_db := snd (MarkBlocked v (sv_db s))\<rparr>)"
  by (simp_all add: ok_db [OF assms, simplified] db_ops_safe)

lemma ok_writes:
  assumes "server_ok s"
  shows "server_ok (s\<lparr>sv_cm := RecordHeartbeat ns k (sv_cm s)\<rparr>)"
    "server_ok (s\<lparr>sv_cm := Kick k (sv_cm s)\<rparr>)" "server_ok (s\<lparr>sv_cm := cm_MarkOffline k (sv_cm s)\<rparr>)"
    "server_ok (s\<lparr>sv_cm := ClearStream k (sv_cm s)\<rparr>)"
  unfolding RecordHeartbeat_def Kick_def cm_MarkOffline_def ClearStream_def
  by (intro ok_conn [OF assms] tame_writes keeps_queue_writes)+

text \<open>One step: on the registry, on the store, or on neither.\<close>

theorem effect_ok:
  assumes "server_ok s" "guard m s"
  shows "server_ok (fst (effect m s))"
proof (cases m)
  case (Whole ev)
  then show ?thesis using assms event_ok by simp
next
  case (McBlocklist req)
  then show ?thesis using ok_stores(1) [OF assms(1)]
    by (auto simp: ok_fields on_db_eq split: sum.splits bool.splits)
next
  case (McAdd uuid ns req)
  then show ?thesis using assms ok_add [of s "new_conn uuid ns req"]
    by (simp add: new_conn_def server_ok_def queues_ok_def chans_ok_def)
next
  case (McClear st)
  then obtain ch where ch: "map_of (sv_chans s) st = Some ch" using assms(2) by (auto split: option.splits)
  from ok_close [OF ok_writes(4) [OF assms(1)], of st] McClear ch show ?thesis by simp
next
  case (McQueue unix uuid req sid)
  then show ?thesis using assms(1) ok_enqueue [OF assms(1)]
    by (auto simp: Let_def split: option.split)
next
  case (McBlockKick v ids)
  then show ?thesis using ok_registry [OF assms(1) tame_writes(7) keeps_queue_writes(6)]
    by (simp add: kick_sessions_fold)
qed (use assms ok_stores [OF assms(1)] ok_writes [OF assms(1)] in
    \<open>auto simp: ok_fields on_db_eq set_command_status_eq Let_def split: option.split sum.split\<close>)

lemma fst_micro_step: "fst (micro_step m x) = fst (effect m (fst x))"
  by (cases x) (simp split: prod.split)

lemma enabled_guard: "enabled m x \<Longrightarrow> guard m (fst x)"
  by (cases x) simp

lemma interleaved_ok: "interleaved x y \<Longrightarrow> server_ok (fst x) \<Longrightarrow> server_ok (fst y)"
  by (induction rule: interleaved.induct) (auto simp: fst_micro_step effect_ok enabled_guard simp del: micro_step.simps)

section \<open>The atomic calls are interleavings\<close>

lemma by_micros: "enabled_run ms x \<Longrightarrow> run_micros ms x = y \<Longrightarrow> interleaved x y"
  using enabled_run_interleaved by blast

lemma no_tasks [simp]: "locked [] \<longleftrightarrow> False" "busy st [] \<longleftrightarrow> False"
  "locked (t # ts) \<longleftrightarrow> holds_lock t \<or> locked ts" "busy st (t # ts) \<longleftrightarrow> serves st t \<or> busy st ts"
  by (simp_all add: locked_def busy_def)

lemma scan_interleaved:
  "heartbeat_scan now timeout (Some (\<lambda>sid d. snd (MarkOffline sid d))) ids (cm, d) = (cm', d') \<Longrightarrow>
   interleaved (s\<lparr>sv_cm := cm, sv_db := d\<rparr>, [Ticking now timeout ids]) (s\<lparr>sv_cm := cm', sv_db := d'\<rparr>, [])"
proof (induction ids arbitrary: cm d)
  case Nil
  then show ?case by (intro by_micros [of "[McTickEnd now timeout]"]) simp_all
next
  case (Cons sid ids)
  let ?s = "s\<lparr>sv_cm := cm, sv_db := d\<rparr>"
  have *: "interleaved (?s, [Ticking now timeout (sid # ids)])
      (s\<lparr>sv_cm := cm1, sv_db := d1\<rparr>, [Ticking now timeout ids])"
    if "(case Get sid cm of None \<Rightarrow> (cm, d) | Some c \<Rightarrow> if expired now timeout c
        then (cm_MarkOffline sid cm, snd (MarkOffline sid d)) else (cm, d)) = (cm1, d1)" for cm1 d1
  proof (cases "\<exists>c. Get sid cm = Some c \<and> expired now timeout c")
    case True
    then show ?thesis using that
      by (intro by_micros [of "[McVisit now timeout sid ids, McCall now timeout sid ids]"])
        (auto simp: on_db_eq Let_def)
  next
    case False
    then show ?thesis using that
      by (intro by_micros [of "[McVisit now timeout sid ids]"]) (auto simp: Let_def split: option.splits if_splits)
  qed
  let ?next = "case Get sid cm of None \<Rightarrow> (cm, d) | Some c \<Rightarrow> if expired now timeout c
        then (cm_MarkOffline sid cm, snd (MarkOffline sid d)) else (cm, d)"
  obtain cm1 d1 where n: "?next = (cm1, d1)" by fastforce
  with Cons.prems have "heartbeat_scan now timeout (Some (\<lambda>sid d. snd (MarkOffline sid d))) ids (cm1, d1) = (cm', d')"
    by (cases "Get sid cm") (auto split: if_splits)
  from interleaved_trans [OF Cons.IH [OF this] * [OF n]] show ?case .
qed

lemma tick_interleaved:
  assumes "distinct ids" "set ids = ids_of (sv_cm s)"
  shows "interleaved (s, []) (heartbeat_tick now timeout ids s, [])"
proof -
  obtain cm' d' where r: "heartbeat_scan now timeout (Some (\<lambda>sid d. snd (MarkOffline sid d))) ids
      (sv_cm s, sv_db s) = (cm', d')" by fastforce
  have "interleaved (s, []) (s, [Ticking now timeout ids])"
    using assms by (intro by_micros [of "[McTick now timeout ids]"]) simp_all
  from interleaved_trans [OF _ this] scan_interleaved [OF r, of s] show ?thesis
    by (simp add: heartbeat_tick_def r)
qed

lemma command_interleaved:
  assumes "uuid \<notin> c_command ` set (commands (sv_db s))"
  shows "interleaved (s, []) (snd (SendCommand uuid now unix req s), [])"
proof (cases "sc_device_id req = [] \<or> sc_type req = ct_unspecified")
  case True
  then show ?thesis by (auto simp: SendCommand_def interleaved.stay)
next
  case valid: False
  obtain r d1 where r: "GetTerminalByDevice (sc_device_id req) (sv_db s) = (r, d1)" by fastforce
  have d1: "commands d1 = commands (sv_db s)"
    using same_tablesD(7) [OF GetTerminalByDevice_same [OF r]] .
  show ?thesis
  proof (cases r)
    case (Inl e)
    then show ?thesis using valid r
      by (intro by_micros [of "[McLocate req]"]) (simp_all add: SendCommand_def on_db_eq)
  next
    case (Inr t)
    let ?sid = "tm_session t"
    show ?thesis
    proof (cases "kick_check ?sid s")
      case False
      then show ?thesis using valid r Inr
        by (intro by_micros [of "[McLocate req, McReach req ?sid]"])
          (auto simp: SendCommand_def on_db_eq kick_check_def split: option.split)
    next
      case True
      then obtain c where c: "Get ?sid (sv_cm s) = Some c" "cc_online c"
        by (auto simp: kick_check_def split: option.splits)
      let ?locate = "[McLocate req, McReach req ?sid, McSave now uuid req ?sid]"
      obtain x d2 where x: "SaveCommandLog now uuid ?sid (sc_device_id req) (sc_type req) (sc_params req) d1 = (x, d2)"
        by fastforce
      show ?thesis
      proof (cases x)
        case (Inl e)
        then show ?thesis using valid r Inr c x d1 assms True
          by (intro by_micros [of ?locate]) (simp_all add: SendCommand_def on_db_eq kick_check_def)
      next
        case saved: (Inr u)
        show ?thesis
        proof (cases "enqueue ?sid (build_command uuid req unix) (sv_cm s)")
          case None
          then show ?thesis using valid r Inr c x d1 assms saved True
            by (intro by_micros [of "?locate @ [McQueue unix uuid req ?sid, McFail uuid]"])
              (simp_all add: SendCommand_def on_db_eq kick_check_def Let_def)
        next
          case (Some cm')
          then show ?thesis using valid r Inr c x d1 assms saved True
            by (intro by_micros [of "?locate @ [McQueue unix uuid req ?sid]"])
              (simp_all add: SendCommand_def on_db_eq kick_check_def Let_def)
        qed
      qed
    qed
  qed
qed

lemma beat_interleaved:
  assumes "is_beat r"
  shows "interleaved (s, []) (Channel_recv now ns ok st r s, [])"
proof (cases "\<exists>ch. map_of (sv_chans s) st = Some ch \<and> ch_result ch = None")
  case True
  then obtain ch where ch: "map_of (sv_chans s) st = Some ch" "ch_result ch = None" by blast
  obtain m hb where "r = RecvMsg m" "cm_payload m = CP_Heartbeat hb"
    using assms by (cases r) (auto split: client_payload.splits)
  with ch show ?thesis
    by (intro by_micros [of "[McBeat ns st, McBeatStore now st (ch_session ch), McAck now ok st]"])
      (simp_all add: Channel_recv_def handleHeartbeat_def on_db_eq Let_def)
next
  case False
  then show ?thesis by (auto simp: Channel_recv_def interleaved.stay split: option.split)
qed

lemma whole_interleaved: "allowed ev s \<Longrightarrow> single ev \<Longrightarrow> interleaved (s, []) (exec_event ev s, [])"
  by (rule by_micros [of "[Whole ev]"]) (simp_all split: event.split)

theorem event_interleaved:
  assumes "allowed ev s"
  shows "interleaved (s, []) (exec_event ev s, [])"
proof (cases ev)
  case (EvAdmit req)
  show ?thesis
  proof (cases "IsFull (sv_cm s)")
    case True
    then show ?thesis using EvAdmit by (simp add: admit_def interleaved.stay)
  next
    case False
    then show ?thesis using EvAdmit
      by (intro by_micros [of "[McCheck req, McBlocklist req]"])
        (auto simp: admit_def on_db_eq split: sum.split bool.split)
  qed
next
  case (EvEnrol uuid now ns t req)
  show ?thesis
  proof (cases "req \<in> set (sv_admitted s)")
    case True
    then show ?thesis using EvEnrol assms
      by (intro by_micros [of "[McAdd uuid ns req, McPersist now uuid req]"])
        (simp_all add: enrol_def Let_def on_db_eq)
  qed (use EvEnrol in \<open>simp add: interleaved.stay\<close>)
next
  case (EvRecv now ns ok st r)
  show ?thesis
  proof (cases "is_beat r")
    case False
    then show ?thesis using EvRecv assms by (intro by_micros [of "[Whole ev]"]) simp_all
  qed (use EvRecv in \<open>simp add: beat_interleaved\<close>)
next
  case (EvClose st)
  show ?thesis
  proof (cases "\<exists>ch. map_of (sv_chans s) st = Some ch \<and> ch_result ch \<noteq> None \<and> ch_unmarked ch = None")
    case True
    then obtain ch where "map_of (sv_chans s) st = Some ch" "ch_result ch \<noteq> None" "ch_unmarked ch = None" by blast
    then show ?thesis using EvClose
      by (intro by_micros [of "[McClear st, McOffline (ch_session ch)]"])
        (auto simp: Channel_close_def on_db_eq)
  next
    case False
    then show ?thesis using EvClose by (auto simp: Channel_close_def interleaved.stay split: option.split)
  qed
next
  case (EvDisconnect sid)
  show ?thesis
  proof (cases "kick_check sid s")
    case True
    then show ?thesis using EvDisconnect
      by (intro by_micros [of "[McFind sid, McKick sid]"])
        (auto simp: DisconnectTerminal_def kick_check_def split: option.splits)
  next
    case False
    then show ?thesis using EvDisconnect
      by (auto simp: DisconnectTerminal_def kick_check_def interleaved.stay split: option.splits)
  qed
next
  case (EvBlock v ids)
  show ?thesis
  proof (cases "fst (MarkBlocked v (sv_db s))")
    case (Inl e)
    then show ?thesis using EvBlock
      by (intro by_micros [of "[McBlock v]"]) (simp_all add: BlockTerminal_def on_db_eq)
  next
    case (Inr u)
    then show ?thesis using EvBlock assms
      by (intro by_micros [of "[McBlock v, McBlockKick v ids]"]) (simp_all add: BlockTerminal_def on_db_eq)
  qed
next
  case (EvCommand uuid now unix req)
  then show ?thesis using assms command_interleaved by simp
next
  case (EvTick now timeout ids)
  then show ?thesis using assms tick_interleaved by simp
qed (use assms whole_interleaved [OF assms] in simp_all)

lemma reachable_interleaved:
  "reachable m d s \<Longrightarrow> interleaved (start_server (SetMaxConns m NewConnectionManager) d, []) (s, [])"
proof (induction rule: reachable.induct)
  case (step s ev)
  then show ?case using event_interleaved interleaved_trans by blast
qed (rule interleaved.stay)

end
