(* ===== verification/InterleavingRuns.thy ===== *)
theory InterleavingRuns
  imports Interleaving Lifecycle Blocklist
begin

text \<open>
  What outlasts every step of every call: entries of the registry stay, a closed disconnect channel
  stays closed, a full server stays full, a blocked row stays blocked until an unblock, and only
  commands that were sent are watched.
\<close>

section \<open>The registry\<close>

text \<open>The registry of a step: entries are changed or added, never taken away.\<close>

lemma effect_registry:
  assumes "guard m s"
  shows "cm_change (sv_cm s) (sv_cm (fst (effect m s)))"
proof (cases m)
  case (Whole ev)
  then show ?thesis using assms event_registry by simp
next
  case (McBlocklist req)
  then show ?thesis by (auto simp: on_db_eq cm_change.same split: sum.splits bool.splits)
next
  case (McAdd uuid ns req)
  then show ?thesis using assms cm_change.new [of "new_conn uuid ns req" "sv_cm s"]
    by (simp add: new_conn_def)
next
  case (McQueue unix uuid req sid)
  then show ?thesis
    by (auto simp: Let_def enqueue_def chan_send_def cm_change.same cm_change_upd tame_writes split: option.split)
qed (auto simp: cm_change_upd cm_change.wr tame_writes cm_change.same on_db_eq Let_def RecordHeartbeat_def
    ClearStream_def Kick_def cm_MarkOffline_def kick_sessions_fold split: option.split sum.split)

lemma interleaved_kept: "interleaved x y \<Longrightarrow> entry_kept (sv_cm (fst x)) (sv_cm (fst y))"
proof (induction rule: interleaved.induct)
  case (stay x)
  show ?case using cm_change_kept [OF cm_change.same] .
next
  case (go_on x y m)
  then show ?case using cm_change_kept [OF effect_registry [OF enabled_guard]]
    by (metis entry_kept_trans fst_micro_step)
qed

lemma interleaved_closed:
  assumes "interleaved (s, ts) (t, us)" "Get sid (sv_cm s) = Some c" "cc_closed c"
  obtains c' where "Get sid (sv_cm t) = Some c'" "cc_closed c'"
  using interleaved_kept [OF assms(1)] assms(2,3) unfolding entry_kept_def conn_kept_def fst_conv by metis

lemma interleaved_full:
  assumes "interleaved x y" "server_ok (fst x)" "IsFull (sv_cm (fst x))"
  shows "IsFull (sv_cm (fst y))"
proof -
  have "distinct (map fst (cm_sessions (sv_cm (fst x))))" "distinct (map fst (cm_sessions (sv_cm (fst y))))"
    using assms(2) interleaved_ok [OF assms(1,2)] cm_okD(1) unfolding server_ok_def by blast+
  moreover have "card (ids_of (sv_cm (fst x))) \<le> card (ids_of (sv_cm (fst y)))"
    by (rule card_mono [OF _ entry_kept_ids [OF interleaved_kept [OF assms(1)]]]) (simp add: ids_of_def)
  ultimately have "Count (sv_cm (fst x)) \<le> Count (sv_cm (fst y))" by (simp add: Count_ids)
  then show ?thesis using interleaved_kept [OF assms(1)] assms(3) by (auto simp: IsFull_def entry_kept_def)
qed

section \<open>Runs of events\<close>

lemma steps_interleaved: "steps s t \<Longrightarrow> interleaved (s, []) (t, [])"
proof (induction rule: steps.induct)
  case (more s t ev)
  then show ?case using event_interleaved interleaved_trans by blast
qed (rule interleaved.stay)

section \<open>The blocklist\<close>

lemma micro_marked:
  assumes "marked v (sv_db s)" "guard m s" "m \<noteq> Whole (EvUnblock v)"
  shows "marked v (sv_db (fst (effect m s)))"
proof (cases m)
  case (Whole ev)
  then show ?thesis using assms event_marked by auto
next
  case (McPersist now uuid req)
  then show ?thesis using assms by (simp add: marked_upsert)
qed (use assms in \<open>auto simp: on_db_eq set_command_status_eq marked_safe Let_def
    split: option.split sum.split bool.split\<close>)

lemma micros_marked:
  assumes "marked v (sv_db (fst x))" "enabled_run ms x" "Whole (EvUnblock v) \<notin> set ms"
  shows "marked v (sv_db (fst (run_micros ms x)))"
  using assms
proof (induction ms arbitrary: x)
  case (Cons m ms)
  then have "marked v (sv_db (fst (micro_step m x)))"
    by (simp add: fst_micro_step) (metis enabled_guard micro_marked)
  with Cons show ?case by simp
qed simp

section \<open>The timeout watchers\<close>

lemma effect_watch: "watch_change s (fst (effect m s))"
proof (cases m)
  case (Whole ev)
  then show ?thesis by (simp add: event_watch)
next
  case (McClear st)
  then show ?thesis using held_delete [of st "sv_chans s"]
    by (auto simp: watch_change_def split: option.split)
qed (auto simp: on_db_eq set_command_status_eq Let_def intro!: watch_change_same
    split: option.split sum.split bool.split)

lemma effect_log: "guard m s \<Longrightarrow> set (sv_log s) \<subseteq> set (sv_log (fst (effect m s)))"
proof (cases m)
  case (Whole ev)
  then show "guard m s \<Longrightarrow> ?thesis" using log_grows by simp
qed (auto simp: on_db_eq set_command_status_eq Let_def split: option.splits sum.splits bool.splits)

lemma interleaved_watched: "interleaved x y \<Longrightarrow> watched_ok (fst x) \<Longrightarrow> watched_ok (fst y)"
proof (induction rule: interleaved.induct)
  case (go_on x y m)
  then show ?case
    using watch_change_ok [OF effect_watch _ effect_log [OF enabled_guard]] by (simp add: fst_micro_step)
qed simp

lemma watched_from_start: "interleaved (start_server cm d, []) (s, ts) \<Longrightarrow> watched_ok s"
  using interleaved_watched [of "(start_server cm d, [])" "(s, ts)"]
  by (simp add: watched_ok_def start_server_def held_ids_def)

end
