(* ===== verification/ServerSpec.thy ===== *)
theory ServerSpec
  imports Examples Lifecycle Blocklist InterleavingRuns HardwareStore
begin

text \<open>
  Properties of the server: the registry and the admission of agents, kicking and blocking,
  heartbeats, the way of a command, and the store. Each property is stated over the operations of
  the code or over the runs of the server, and its witness applies it to a small concrete state.
\<close>


section \<open>The server as a whole\<close>

text \<open>In every state that the server can reach from a well-formed database by the events of
  \<open>Server\<close>, with any failures of the engine: the registry has one entry
  per session, filed under its own id; the tables keep their keys and every disk, interface, BIOS
  and board row has its report; and the open handlers have distinct streams and known sessions.\<close>

theorem reachable_well_formed:
  assumes "reachable m d s" "db_wf d"
  shows "cm_ok (sv_cm s) \<and> db_wf (sv_db s) \<and> chans_ok s"
  using reachable_ok [OF assms] by (simp add: server_ok_def)

theorem reachable_well_formed_witness:
  "cm_ok (sv_cm demo_marked) \<and> db_wf (sv_db demo_marked) \<and> chans_ok demo_marked"
  by (rule reachable_well_formed [OF demo_reachable(5)]) simp

text \<open>Commands of a session are neither lost, duplicated nor reordered: in every reachable
  state the commands queued for it are those its consumer has taken (sent or dropped on a failed
  send) followed by those still waiting, in the same order, and at most 32 wait.\<close>

theorem commands_stay_in_order:
  assumes "reachable m d s" "db_wf d"
  shows "queued_of sid (sv_log s) = taken_of sid (sv_log s) @ waiting sid (sv_cm s) \<and>
    length (waiting sid (sv_cm s)) \<le> 32"
  using reachable_ok [OF assms] by (simp add: server_ok_def queues_ok_def cmdQueueCapacity_def)

theorem commands_stay_in_order_witness:
  "queued_of ''s1'' (sv_log demo_queued) = taken_of ''s1'' (sv_log demo_queued) @ [demo_cmd]"
  using commands_stay_in_order [OF demo_reachable(3), of "''s1''"]
  by (simp add: demo_queued_eq waiting_def Get_def)

section \<open>Registration and admission\<close>

text \<open>C7: Register with a working store: a full server answers ResourceExhausted and a blocked
  device is refused, both without any effect; otherwise the new session gets exactly one registry
  entry, offline and with an open disconnect channel, and exactly one new row with the full device
  id, offline and not blocked, which a lookup by the session then finds; no other session changes.\<close>

theorem register_branches:
  assumes "no_faults (sv_db s)" "db_wf (sv_db s)" "uuid \<notin> t_session ` set (terminals (sv_db s))"
  shows "(if IsFull (sv_cm s)
      then Register uuid now ns t req s =
        (Inl \<lparr>st_code = ResourceExhausted, st_message = ''server at capacity''\<rparr>, s)
      else if device_blocked (hs_device_id req) (sv_db s)
      then Register uuid now ns t req s = (Inr \<lparr>hr_ok = False, hr_session_id = [],
        hr_server_time = [], hr_message = ''device is blocked''\<rparr>, s)
      else fst (Register uuid now ns t req s) = Inr \<lparr>hr_ok = True, hr_session_id = uuid,
          hr_server_time = t, hr_message = ''welcome to TeamX''\<rparr> \<and>
        admitted_spec uuid now ns req s (snd (Register uuid now ns t req s)))"
  using enrol_spec [OF assms, of now ns req t]
  by (simp add: Register_def admit_works [OF assms(1)] split: prod.split)
    (auto simp: enrol_def Let_def)

theorem register_branches_witness:
  "admitted_spec ''s2'' 200 9 demo_hello demo_start
     (snd (Register ''s2'' 200 9 ''u'' demo_hello demo_start))"
proof -
  have f: "no_faults (sv_db demo_start)" "db_wf (sv_db demo_start)" "terminals (sv_db demo_start) = []"
    by (simp_all add: demo_start_def start_server_def no_faults_def demo_db_def empty_db_def
        db_wf_def keys_ok_def refs_ok_def)
  have "\<not> IsFull (sv_cm demo_start)"
    by (simp add: demo_start_def start_server_def SetMaxConns_def NewConnectionManager_def IsFull_def
        Count_def)
  moreover have "\<not> device_blocked (hs_device_id demo_hello) (sv_db demo_start)"
    using f by (simp add: device_blocked_iff)
  ultimately show ?thesis
    using register_branches [of demo_start "''s2''" 200 9 "''u''" demo_hello] f by simp
qed

text \<open>A registry that is full stays full: whatever happens after, heartbeat timeouts, kicks and
  closed streams included, every later Register is refused, because no call removes an entry.\<close>

theorem full_server_stays_full:
  assumes "reachable m d s" "db_wf d" "IsFull (sv_cm s)" "steps s t"
  shows "Register uuid now ns x req t =
    (Inl \<lparr>st_code = ResourceExhausted, st_message = ''server at capacity''\<rparr>, t)"
  using steps_full [OF assms(4) reachable_ok [OF assms(1,2)] assms(3)]
  by (simp add: Register_def admit_def)

theorem full_server_stays_full_witness:
  "fst (Register ''s2'' 200 9 ''u'' demo_hello (exec_event (EvTick (10 ^ 12) 1 [''s1'']) demo_open)) =
     Inl \<lparr>st_code = ResourceExhausted, st_message = ''server at capacity''\<rparr>"
proof -
  have "IsFull (sv_cm demo_open)" by (simp add: demo_open_eq IsFull_def Count_def)
  moreover have "steps demo_open (exec_event (EvTick (10 ^ 12) 1 [''s1'']) demo_open)"
    by (rule steps.more [OF steps.none]) (simp add: demo_open_eq ids_of_def)
  ultimately show ?thesis
    using full_server_stays_full [OF demo_reachable(2) demo_db_wf] by simp
qed

text \<open>C13: The capacity check and the insertion are separate steps: two registrations that are both
  checked while one place is left are both added, and the registry then exceeds its limit.\<close>

theorem admission_overshoots:
  assumes "no_faults (sv_db s)" "0 < cm_max (sv_cm s)" "int (Count (sv_cm s)) + 1 = cm_max (sv_cm s)"
    and "\<not> device_blocked (hs_device_id r1) (sv_db s)" "\<not> device_blocked (hs_device_id r2) (sv_db s)"
    and "u1 \<notin> ids_of (sv_cm s)" "u2 \<notin> ids_of (sv_cm s)" "u1 \<noteq> u2"
  shows "int (Count (sv_cm (run_events [EvAdmit r1, EvAdmit r2,
      EvEnrol u1 n1 m1 t1 r1, EvEnrol u2 n2 m2 t2 r2] s))) = cm_max (sv_cm s) + 1"
proof -
  have "\<not> IsFull (sv_cm s)" using assms(3) by (simp add: IsFull_def)
  then have "run_events [EvAdmit r1, EvAdmit r2] s = s\<lparr>sv_admitted := sv_admitted s @ [r1, r2]\<rparr>"
    using assms by (simp add: exec_admit_passes del: exec_event.simps)
  moreover have "r2 \<in> set (remove1 r1 (sv_admitted s @ [r1, r2]))"
    by (simp add: remove1_append)
  ultimately show ?thesis
    using assms(3,6-8)
    by (simp add: cm_exec_enrol Count_Add ids_Add new_conn_def del: exec_event.simps)
qed

theorem admission_overshoots_witness:
  "Count (sv_cm (run_events [EvAdmit demo_hello, EvAdmit demo_hello,
     EvEnrol ''a'' 1 1 ''t'' demo_hello, EvEnrol ''b'' 2 2 ''t'' demo_hello] demo_start)) = 2"
proof -
  have "no_faults (sv_db demo_start)" "terminals (sv_db demo_start) = []"
    by (simp_all add: demo_start_def start_server_def no_faults_def demo_db_def empty_db_def)
  then have "\<not> device_blocked (hs_device_id demo_hello) (sv_db demo_start)" "no_faults (sv_db demo_start)"
    by (simp_all add: device_blocked_iff)
  then show ?thesis
    using admission_overshoots [of demo_start demo_hello demo_hello "''a''" "''b''" 1 1 "''t''" 2 2 "''t''"]
    by (simp add: demo_start_def start_server_def SetMaxConns_def NewConnectionManager_def Count_def
        ids_of_def del: run_events.simps exec_event.simps)
qed

section \<open>Kicking and blocking\<close>

text \<open>C10: A kick lasts: once DisconnectTerminal has found a session online and kicked it, then
  whatever steps of whatever calls follow, the disconnect channel of the session is closed at every
  turn of every receive loop of the session: a Channel call for it is still accepted, and a loop that
  takes the disconnect branch, on a stream opened before or after the kick, returns
  PermissionDenied. Go chooses between the branches that are ready, so a loop may handle messages
  or see the end of its stream first.\<close>

theorem kicked_session_stays_out:
  assumes "Get sid (sv_cm s) = Some c" "cc_online c" "interleaved (snd (DisconnectTerminal sid s), ts) (t, us)"
  shows "ar_ok (fst (DisconnectTerminal sid s)) \<and>
    (\<forall>st ns md. extractSessionID md = Inr sid \<longrightarrow> fst (Channel_open st ns md t) = None \<and>
       map_of (sv_chans (Channel_kicked st (snd (Channel_open st ns md t)))) st =
         Some \<lparr>ch_session = sid, ch_unmarked = None, ch_result = Some (Some (StatusErr kicked_status))\<rparr>) \<and>
    (\<forall>st ch. map_of (sv_chans t) st = Some ch \<and> ch_session ch = sid \<and> ch_result ch = None \<longrightarrow>
       map_of (sv_chans (Channel_kicked st t)) st = Some (ch\<lparr>ch_result := Some (Some (StatusErr kicked_status))\<rparr>))"
proof -
  have "Get sid (sv_cm (snd (DisconnectTerminal sid s))) = Some (c\<lparr>cc_closed := True\<rparr>)"
    using assms(1,2) by (simp add: DisconnectTerminal_def Kick_def Get_upd_conn)
  from interleaved_closed [OF assms(3) this] obtain c' where c': "Get sid (sv_cm t) = Some c'" "cc_closed c'"
    by auto
  have "map_of (sv_chans (Channel_kicked st t)) st = Some (ch\<lparr>ch_result := Some (Some (StatusErr kicked_status))\<rparr>)"
    if "map_of (sv_chans t) st = Some ch" "ch_session ch = sid" "ch_result ch = None" for st ch
    using that c' by (simp add: Channel_kicked_def loop_returns_def set_channel_def update_conv')
  with kicked_on_open [OF c'] show ?thesis
    using assms(1,2) by (simp add: DisconnectTerminal_def)
qed

theorem kicked_session_stays_out_witness:
  "map_of (sv_chans (Channel_kicked 1 (snd (DisconnectTerminal ''s1'' demo_open)))) 1 =
     Some \<lparr>ch_session = ''s1'', ch_unmarked = None, ch_result = Some (Some (StatusErr kicked_status))\<rparr> \<and>
   fst (Channel_open 7 50 demo_md (snd (DisconnectTerminal ''s1'' demo_open))) = None"
proof -
  have g: "Get ''s1'' (sv_cm demo_open) = Some (demo_conn\<lparr>cc_stream := Some 1, cc_online := True, cc_last_heartbeat := 6\<rparr>)"
    by (simp add: demo_open_eq Get_def)
  have ch: "map_of (sv_chans (snd (DisconnectTerminal ''s1'' demo_open))) 1 =
      Some \<lparr>ch_session = ''s1'', ch_unmarked = None, ch_result = None\<rparr>"
    using g by (simp add: DisconnectTerminal_def) (simp add: demo_open_eq)
  have md: "extractSessionID demo_md = Inr ''s1''" by (simp add: extractSessionID_def demo_md_def)
  show ?thesis
    using kicked_session_stays_out [OF g _ interleaved.stay [of "(snd (DisconnectTerminal ''s1'' demo_open), [])"]] ch md
    by fastforce
qed

text \<open>C11: BlockTerminal with a working store, for a device the store knows: it answers ok, sets the blocked
  flag of all rows of the device and closes the disconnect channel of its online sessions, and
  nothing else of the server's state changes. The device then counts as blocked, other devices as
  before, and the next check of a registration of the device, if the server is not full, refuses it.\<close>

theorem block_takes_effect:
  assumes "no_faults (sv_db s)" "has_device (sv_db s) v" "set ids = ids_of (sv_cm s)"
  defines "s' \<equiv> snd (BlockTerminal v ids s)"
  shows "fst (BlockTerminal v ids s) = Inr \<lparr>ar_ok = True, ar_message = ''blocked''\<rparr> \<and>
    s' = s\<lparr>sv_db := sv_db s', sv_cm := sv_cm s'\<rparr> \<and>
    sv_db s' = (sv_db s)\<lparr>terminals := map (\<lambda>r. if t_device r = v then r\<lparr>t_blocked := True\<rparr> else r) (terminals (sv_db s))\<rparr> \<and>
    cm_max (sv_cm s') = cm_max (sv_cm s) \<and>
    (\<forall>k. Get k (sv_cm s') = map_option (\<lambda>c. if cc_device c = v \<and> cc_online c then c\<lparr>cc_closed := True\<rparr> else c)
       (Get k (sv_cm s))) \<and>
    device_blocked v (sv_db s') \<and> (\<forall>w. w \<noteq> v \<longrightarrow> device_blocked w (sv_db s') = device_blocked w (sv_db s)) \<and>
    (\<forall>req. hs_device_id req = v \<and> \<not> IsFull (sv_cm s) \<longrightarrow> fst (admit req s') = Some (Inr \<lparr>hr_ok = False,
       hr_session_id = [], hr_server_time = [], hr_message = ''device is blocked''\<rparr>))"
proof -
  have b: "MarkBlocked v (sv_db s) = (Inr (), update_terminals (\<lambda>r. t_device r = v) (\<lambda>r. r\<lparr>t_blocked := True\<rparr>) (sv_db s))"
    using assms(1) by (rule block_effect)
  have s': "s' = s\<lparr>sv_db := snd (MarkBlocked v (sv_db s)), sv_cm := kick_sessions v ids (sv_cm s)\<rparr>"
    using b by (simp add: s'_def BlockTerminal_def on_db_eq)
  have blk: "device_blocked w (sv_db s') = (if v = w then True else device_blocked w (sv_db s))" for w
    using assms(1,2) by (auto simp: s' sqlite_blocklist.blocked_block)
  have "no_faults (sv_db s')" using assms(1) by (simp add: s' sqlite_blocklist.ok_block)
  then have "fst (admit req s') = Some (Inr \<lparr>hr_ok = False, hr_session_id = [],
      hr_server_time = [], hr_message = ''device is blocked''\<rparr>)" if "hs_device_id req = v" "\<not> IsFull (sv_cm s)" for req
    using that blk by (simp add: admit_works) (simp add: s' IsFull_def kick_sessions_count)
  moreover have "Get k (sv_cm s') = map_option (\<lambda>c. if cc_device c = v \<and> cc_online c then c\<lparr>cc_closed := True\<rparr> else c)
      (Get k (sv_cm s))" for k
    using Get_in_ids [of k "sv_cm s"] assms(3)
    by (cases "Get k (sv_cm s)") (auto simp: s' Get_kick_sessions kick_conn_def)
  moreover have "sv_db s' = (sv_db s)\<lparr>terminals := map (\<lambda>r. if t_device r = v then r\<lparr>t_blocked := True\<rparr> else r)
      (terminals (sv_db s))\<rparr>" by (simp add: s' b update_terminals_def)
  moreover have "s' = s\<lparr>sv_db := sv_db s', sv_cm := sv_cm s'\<rparr>" "cm_max (sv_cm s') = cm_max (sv_cm s)" by (simp_all add: s')
  ultimately show ?thesis using b blk by (simp add: BlockTerminal_def on_db_eq)
qed

theorem block_takes_effect_witness:
  "snd (BlockTerminal ''dev'' [''s1''] demo_open) = demo_open\<lparr>sv_db := (sv_db demo_open)\<lparr>terminals :=
       [demo_row\<lparr>t_blocked := True\<rparr>]\<rparr>, sv_cm := sv_cm (snd (BlockTerminal ''dev'' [''s1''] demo_open))\<rparr>"
proof -
  have h: "no_faults (sv_db demo_open)" "has_device (sv_db demo_open) ''dev''" "set [''s1''] = ids_of (sv_cm demo_open)"
    by (simp_all add: demo_open_eq no_faults_def demo_db_def empty_db_def has_device_def demo_row_def ids_of_def)
  have t: "terminals (sv_db demo_open) = [demo_row]" "t_device demo_row = ''dev''"
    by (simp_all add: demo_open_eq demo_db_def demo_row_def)
  note b = block_takes_effect [OF h, THEN conjunct2, THEN conjunct1] block_takes_effect [OF h, THEN conjunct2, THEN conjunct2, THEN conjunct1]
  show ?thesis by (subst b(1)) (simp add: b(2) t)
qed

text \<open>The operator's last word counts: after any sequence of block and unblock commands that
  ends with one about a device the store knows, with only other devices' commands after it, the
  device is blocked exactly if that last command was a block.\<close>

theorem last_block_command_decides:
  assumes "no_faults d" "\<forall>x \<in> set later. snd x \<noteq> v"
  shows "device_blocked v (operate (\<lambda>v d. snd (MarkBlocked v d)) (\<lambda>v d. snd (UnblockTerminal v d))
      (earlier @ (b, v) # later) d) \<longleftrightarrow> b \<and> has_device d v"
  using assms by (rule sqlite_blocklist.last_command_decides)

theorem last_block_command_decides_witness:
  "device_blocked ''dev'' (operate (\<lambda>v d. snd (MarkBlocked v d)) (\<lambda>v d. snd (UnblockTerminal v d))
     [(False, ''dev''), (True, ''dev''), (False, ''x'')] (sv_db demo_open))"
  using last_block_command_decides [of "sv_db demo_open" "[(False, ''x'')]" "''dev''" "[(False, ''dev'')]" True]
  by (simp add: demo_open_eq no_faults_def demo_db_def empty_db_def has_device_def demo_row_def)

text \<open>Blocking a device that has no row yet answers ok and "blocked" but leaves nothing behind: the
  device is still admitted, because the flag lives in the rows of its sessions.\<close>

theorem block_of_unknown_device_has_no_effect:
  assumes "no_faults (sv_db s)" "\<not> has_device (sv_db s) v" "\<not> IsFull (sv_cm s)"
    and "\<forall>k c. Get k (sv_cm s) = Some c \<longrightarrow> cc_device c \<noteq> v" "hs_device_id req = v"
  shows "fst (BlockTerminal v ids s) = Inr \<lparr>ar_ok = True, ar_message = ''blocked''\<rparr> \<and>
    fst (admit req (snd (BlockTerminal v ids s))) = None"
proof -
  have b: "fst (MarkBlocked v (sv_db s)) = Inr ()" using assms(1) by (simp add: block_effect)
  have "no_faults (snd (MarkBlocked v (sv_db s)))" "\<not> device_blocked v (snd (MarkBlocked v (sv_db s)))"
    using assms(1,2) sqlite_blocklist.ok_block sqlite_blocklist.blocked_block by auto
  then show ?thesis
    using b assms(3,5)
    by (simp add: BlockTerminal_def on_db_eq admit_works IsFull_def kick_sessions_count)
qed

theorem block_of_unknown_device_has_no_effect_witness:
  "fst (admit demo_hello (snd (BlockTerminal ''dev'' [] demo_start))) = None"
  by (rule block_of_unknown_device_has_no_effect [where v = "''dev''" and s = demo_start, THEN conjunct2])
    (simp_all add: demo_start_def start_server_def no_faults_def demo_db_def empty_db_def has_device_def
      IsFull_def Count_def SetMaxConns_def NewConnectionManager_def Get_def demo_hello_def)

text \<open>A session that has registered and not yet opened its channel when its device is blocked is
  not closed by the block, and its Channel call is accepted and puts it online: Channel does not
  look at the blocklist.\<close>

theorem block_misses_unopened_session:
  assumes "no_faults (sv_db s)" "Get sid (sv_cm s) = Some c" "cc_device c = v" "\<not> cc_online c"
    and "\<not> cc_closed c" "extractSessionID md = Inr sid"
  shows "let (r, t) = Channel_open st ns md (snd (BlockTerminal v ids s)) in
    r = None \<and> GetStream sid (sv_cm t) = Some st \<and> Channel_kicked st t = t"
proof -
  have b: "fst (MarkBlocked v (sv_db s)) = Inr ()" using assms(1) by (simp add: block_effect)
  have "Get sid (sv_cm (snd (BlockTerminal v ids s))) = Some c"
    using b assms(2,4) by (simp add: BlockTerminal_def on_db_eq Get_kick_sessions kick_conn_def)
  then show ?thesis
    using assms(5,6)
    by (simp add: Channel_open_def set_channel_def GetStream_def SetStream_def Get_upd_conn
        Channel_kicked_def update_conv')
qed

theorem block_misses_unopened_session_witness:
  "GetStream ''s1'' (sv_cm (snd (Channel_open 3 50 demo_md (snd (BlockTerminal ''dev'' [''s1''] demo_registered))))) = Some 3"
  using block_misses_unopened_session [of demo_registered "''s1''" demo_conn "''dev''" demo_md 3 50 "[''s1'']"]
  by (simp add: demo_registered_eq no_faults_def demo_db_def empty_db_def Get_def demo_conn_def
      new_conn_def demo_hello_def extractSessionID_def demo_md_def split: prod.splits)

section \<open>Liveness of sessions\<close>

text \<open>C14: A tick of the heartbeat checker with a working store marks offline exactly the sessions that
  are online and whose last heartbeat is older than the timeout, in the registry and in the
  database alike, whatever the order in which the map is visited; it changes nothing else of an
  entry and no other row.\<close>

theorem heartbeat_tick_marks_expired:
  fixes now timeout :: int
  assumes "no_faults (sv_db s)" "distinct ids" "set ids = ids_of (sv_cm s)"
  defines "gone \<equiv> {k. \<exists>c. Get k (sv_cm s) = Some c \<and> cc_online c \<and>
      timeout < time_sub now (cc_last_heartbeat c)}"
  shows "Get k (sv_cm (heartbeat_tick now timeout ids s)) =
      map_option (\<lambda>c. if k \<in> gone then c\<lparr>cc_online := False\<rparr> else c) (Get k (sv_cm s)) \<and>
    sv_db (heartbeat_tick now timeout ids s) = (sv_db s)\<lparr>terminals :=
      map (\<lambda>r. if t_session r \<in> gone then r\<lparr>t_online := False\<rparr> else r) (terminals (sv_db s))\<rparr>"
proof -
  have gone: "gone = expired_ids now timeout (sv_cm s)"
    by (auto simp: gone_def expired_ids_def expired_def)
  have "map_option (offline_if (expired now timeout)) (Get k (sv_cm s)) =
      map_option (\<lambda>c. if k \<in> gone then c\<lparr>cc_online := False\<rparr> else c) (Get k (sv_cm s))"
    by (cases "Get k (sv_cm s)") (auto simp: gone_def offline_if_def expired_def)
  then show ?thesis
    using tick_db [OF assms(1-3), of now timeout] tick_registry [OF assms(3), of k now timeout]
    by (simp add: gone offline_row_def [abs_def])
qed

theorem heartbeat_tick_marks_expired_witness:
  "Get ''s1'' (sv_cm (heartbeat_tick (40 * 10 ^ 9) (30 * 10 ^ 9) [''s1''] demo_open)) =
     Some (demo_conn\<lparr>cc_stream := Some 1, cc_online := False, cc_last_heartbeat := 6\<rparr>)"
  using heartbeat_tick_marks_expired [of demo_open "[''s1'']" "''s1''" "40 * 10 ^ 9" "30 * 10 ^ 9"]
  by (simp add: demo_open_eq no_faults_def demo_db_def empty_db_def ids_of_def Get_def time_sub_def)

text \<open>Two Channel calls on one session share its entry: when the first of them ends, it clears the
  stream that the second one has set and marks the session offline, and the next heartbeat on the
  second stream makes the session online again with no stream recorded.\<close>

theorem first_channel_clears_second:
  fixes ns :: int and now :: nat
  assumes "Get sid (sv_cm s) = Some c" "map_of (sv_chans s) a = Some ch" "ch_session ch = sid"
    and "ch_unmarked ch = None" "ch_result ch \<noteq> None" "a \<noteq> b"
    and "extractSessionID md = Inr sid" "cm_payload m = CP_Heartbeat hb"
  defines "s1 \<equiv> snd (Channel_open b ns md s)"
  defines "s2 \<equiv> Channel_close a s1"
  defines "s3 \<equiv> Channel_recv now ns True b (RecvMsg m) s2"
  shows "GetStream sid (sv_cm s1) = Some b \<and> GetStream sid (sv_cm s2) = None \<and>
    map_of (sv_chans s2) b \<noteq> None \<and>
    (\<exists>c3. Get sid (sv_cm s3) = Some c3 \<and> cc_online c3 \<and> cc_stream c3 = None)"
proof -
  have s1: "s1 = set_channel b \<lparr>ch_session = sid, ch_unmarked = None, ch_result = None\<rparr>
      (s\<lparr>sv_cm := SetStream ns sid b (sv_cm s)\<rparr>)"
    using assms(1,7) by (simp add: s1_def Channel_open_def)
  have cm1: "Get sid (sv_cm s1) = Some (c\<lparr>cc_stream := Some b, cc_online := True, cc_last_heartbeat := ns\<rparr>)"
    using assms(1) by (simp add: s1 SetStream_def Get_upd_conn)
  have ch1: "map_of (sv_chans s1) a = Some ch" "map_of (sv_chans s1) b =
      Some \<lparr>ch_session = sid, ch_unmarked = None, ch_result = None\<rparr>"
    using assms(2,6) by (simp_all add: s1 set_channel_def update_conv')
  have cm2: "sv_cm s2 = ClearStream sid (sv_cm s1)" "sv_chans s2 = AList.delete a (sv_chans s1)"
    using ch1 assms(3-5) by (auto simp: s2_def Channel_close_def)
  have get2: "Get sid (sv_cm s2) = Some (c\<lparr>cc_stream := None, cc_online := False, cc_last_heartbeat := ns\<rparr>)"
    by (simp add: cm2 ClearStream_def Get_upd_conn cm1)
  have ch2: "map_of (sv_chans s2) b = Some \<lparr>ch_session = sid, ch_unmarked = None, ch_result = None\<rparr>"
    using ch1(2) assms(6) by (simp add: cm2 delete_conv')
  have "sv_cm s3 = RecordHeartbeat ns sid (sv_cm s2)"
    by (simp add: s3_def Channel_recv_def ch2 assms(8) handleHeartbeat_def Let_def)
  then show ?thesis
    using get2 cm1 ch2 by (simp add: GetStream_def RecordHeartbeat_def Get_upd_conn)
qed

theorem first_channel_clears_second_witness:
  "\<exists>c3. Get ''s1'' (sv_cm (Channel_recv 9 9 True 2 (RecvMsg \<lparr>cm_seq = 1, cm_payload = CP_Heartbeat
       \<lparr>hb_timestamp_unix = 0, hb_cpu_percent = 0, hb_mem_percent = 0, hb_goroutines = 0\<rparr>\<rparr>)
     (Channel_close 1 (snd (Channel_open 2 9 demo_md (Channel_recv 9 9 True 1 RecvEof demo_open)))))) = Some c3 \<and>
   cc_online c3 \<and> cc_stream c3 = None"
  by (rule first_channel_clears_second [of "''s1''" _ _ 1
        "\<lparr>ch_session = ''s1'', ch_unmarked = None, ch_result = Some None\<rparr>", THEN conjunct2, THEN conjunct2,
        THEN conjunct2])
    (simp_all add: demo_open_eq Channel_recv_def loop_returns_def set_channel_def Get_def
      extractSessionID_def demo_md_def)

section \<open>Commands\<close>

text \<open>C6: SendCommand with a working store, on every branch: a missing device id or type is
  InvalidArgument, an unknown device and a terminal that is not connected are refused, all four
  without effect; an online terminal with room in its queue gets the command at the end of the
  queue and a log row Pending; with a full queue the answer is the refusal, the registry is as it
  was, and the log row says Failed.\<close>

theorem send_command_branches:
  fixes now unix :: nat and req :: send_command_request
  assumes "no_faults (sv_db s)" "db_wf (sv_db s)" "uuid \<notin> c_command ` set (commands (sv_db s))"
  defines "r \<equiv> SendCommand uuid now unix req s"
  shows "if sc_device_id req = [] then
      r = (Inl \<lparr>st_code = InvalidArgument, st_message = ''device_id is required''\<rparr>, s)
    else if sc_type req = ct_unspecified then
      r = (Inl \<lparr>st_code = InvalidArgument, st_message = ''command type is required''\<rparr>, s)
    else (case fst (GetTerminalByDevice (sc_device_id req) (sv_db s)) of
      Inl _ \<Rightarrow> r = (Inr (refused [] ''device not found''), s)
    | Inr t \<Rightarrow> (case Get (tm_session t) (sv_cm s) of
        None \<Rightarrow> r = (Inr (refused [] ''terminal is offline''), s)
      | Some c \<Rightarrow>
          if \<not> cc_online c then r = (Inr (refused [] ''terminal is offline''), s)
          else if length (cc_queue c) < 32 then
            fst r = Inr \<lparr>sr_ok = True, sr_command_id = uuid, sr_message = ''queued''\<rparr> \<and>
            waiting (tm_session t) (sv_cm (snd r)) =
              waiting (tm_session t) (sv_cm s) @ [build_command uuid req unix] \<and>
            statuses (sv_db (snd r)) = (statuses (sv_db s))(uuid \<mapsto> ''Pending'')
          else fst r = Inr (refused uuid queue_full_message) \<and> sv_cm (snd r) = sv_cm s \<and>
            statuses (sv_db (snd r)) = (statuses (sv_db s))(uuid \<mapsto> ''Failed'')))"
proof -
  let ?g = "GetTerminalByDevice (sc_device_id req) (sv_db s)"
  have g: "?g = (fst ?g, sv_db s)" by (rule by_device_read [OF assms(1)])
  then have gs: "snd ?g = sv_db s" by (metis snd_conv)
  show ?thesis
  proof (cases "\<exists>t c. sc_device_id req \<noteq> [] \<and> sc_type req \<noteq> ct_unspecified \<and> fst ?g = Inr t \<and>
      Get (tm_session t) (sv_cm s) = Some c \<and> cc_online c")
    case True
    then obtain t c where t: "sc_device_id req \<noteq> []" "sc_type req \<noteq> ct_unspecified" "fst ?g = Inr t"
      "Get (tm_session t) (sv_cm s) = Some c" "cc_online c" by blast
    have "?g = (Inr t, sv_db s)" using g t(3) by simp
    from send_to_online [OF assms(1-3) t(1,2) this t(4,5), of now unix] t show ?thesis
      by (simp add: r_def cmdQueueCapacity_def)
  next
    case False
    then show ?thesis
      by (auto simp: r_def SendCommand_def on_db_eq gs split: sum.splits option.splits)
  qed
qed

theorem send_command_branches_witness:
  "statuses (sv_db (snd (SendCommand ''c1'' 101 101 demo_request demo_open))) ''c1'' = Some ''Pending''"
proof -
  have f: "no_faults (sv_db demo_open)" "commands (sv_db demo_open) = []"
    by (simp_all add: demo_open_eq no_faults_def demo_db_def empty_db_def)
  have wf: "db_wf (sv_db demo_open)"
    using reachable_ok [OF demo_reachable(2)] by (simp add: server_ok_def)
  have g: "GetTerminalByDevice ''dev'' (sv_db demo_open) = (Inr (scanTerminal demo_row), sv_db demo_open)"
    by (simp add: demo_open_eq demo_device)
  have r: "sc_device_id demo_request = ''dev''" "sc_type demo_request \<noteq> ct_unspecified"
    by (simp_all add: demo_request_def ct_defs)
  have c: "Get (tm_session (scanTerminal demo_row)) (sv_cm demo_open) =
      Some (demo_conn\<lparr>cc_stream := Some 1, cc_online := True, cc_last_heartbeat := 6\<rparr>)"
    by (simp add: demo_open_eq Get_def scanTerminal_def demo_row_def)
  have q: "cc_queue demo_conn = []" by (simp add: demo_conn_def new_conn_def)
  show ?thesis
    using send_command_branches [where s = demo_open and uuid = "''c1''" and now = 101 and unix = 101 and
        req = demo_request] f wf by (simp add: g r c q)
qed

text \<open>C4: The four writes of the command log implement the abstract status map on every engine: a
  write that reports success makes exactly its abstract change (a new id starts as Pending, a
  status or a result sets the status of a known id, a timeout moves Pending, Sent and Executing to
  Timeout and nothing else), and a write that fails leaves every table as it was.\<close>

theorem status_map_refinement:
  assumes "db_wf d"
  shows "(case SaveCommandLog now k sid v t ps d of
      (Inr _, d') \<Rightarrow> statuses d k = None \<and> statuses d' = (statuses d)(k \<mapsto> ''Pending'')
    | (Inl _, d') \<Rightarrow> same_tables d d') \<and>
    (case UpdateCommandStatus k st d of
      (Inr _, d') \<Rightarrow> statuses d' = set_status k st (statuses d) | (Inl _, d') \<Rightarrow> same_tables d d') \<and>
    (case UpdateCommandResult k st x a b c e f d of
      (Inr _, d') \<Rightarrow> statuses d' = set_status k st (statuses d) | (Inl _, d') \<Rightarrow> same_tables d d') \<and>
    (case MarkCommandTimeout now k d of
      (Inr _, d') \<Rightarrow> statuses d' = time_out k (statuses d) | (Inl _, d') \<Rightarrow> same_tables d d')"
  using assms SaveCommandLog_statuses UpdateCommandStatus_statuses UpdateCommandResult_statuses
    MarkCommandTimeout_statuses
  by (auto split: prod.splits sum.splits elim: SaveCommandLog_cases
      simp: UpdateCommandStatus_def UpdateCommandResult_def MarkCommandTimeout_def dest: exec_op_inl)

theorem status_map_refinement_witness:
  "statuses (snd (MarkCommandTimeout 500 ''c1'' (sv_db demo_marked))) ''c1'' = Some ''Timeout''"
proof -
  have wf: "db_wf (sv_db demo_marked)"
    using reachable_ok [OF demo_reachable(5)] by (simp add: server_ok_def)
  have "fst (MarkCommandTimeout 500 ''c1'' (sv_db demo_marked)) = Inr ()"
    "statuses (sv_db demo_marked) ''c1'' = Some ''Sent''"
    by (simp_all add: demo_marked_eq MarkCommandTimeout_def demo_db_def empty_db_def statuses_def
        demo_command_row_def)
  then show ?thesis
    using status_map_refinement [OF wf, where now = 500 and k = "''c1''", THEN conjunct2, THEN conjunct2,
        THEN conjunct2]
    by (auto simp: time_out_def open_statuses_def split: prod.splits)
qed

text \<open>C22: A command is watched for its timeout only after it has been sent: every running watcher
  belongs to a command that the log shows as sent, however the steps of the calls interleave, so a command that waits in the queue of a
  session without a channel is never timed out.\<close>

theorem only_sent_commands_are_watched:
  assumes "interleaved (start_server (SetMaxConns m NewConnectionManager) d, []) (s, ts)"
    and "(k, ns) \<in> set (sv_timers s)"
  shows "\<exists>sid c. LogSent sid c \<in> set (sv_log s) \<and> cd_id c = k"
  using watched_from_start [OF assms(1)] assms(2) by (force simp: watched_ok_def sent_ids_def)

theorem only_sent_commands_are_watched_witness:
  "\<exists>sid c. LogSent sid c \<in> set (sv_log demo_marked) \<and> cd_id c = ''c1''"
  using only_sent_commands_are_watched [OF reachable_interleaved [OF demo_reachable(5)]] by (simp add: demo_marked_eq)

text \<open>C19: The watcher respects what is final: when it fires, a command that is Completed, Failed, Timeout
  or anything else outside Pending, Sent and Executing keeps its status, one of those three becomes
  Timeout, and no other command changes.\<close>

theorem watcher_spares_final_commands:
  assumes "no_faults (sv_db s)" "db_wf (sv_db s)" "(k, ns) \<in> set (sv_timers s)"
  shows "statuses (sv_db (watchCommandTimeout now k s)) =
    (case statuses (sv_db s) k of
       Some st \<Rightarrow> (statuses (sv_db s))(k \<mapsto>
         if st \<in> {''Pending'', ''Sent'', ''Executing''} then ''Timeout'' else st)
     | None \<Rightarrow> statuses (sv_db s))"
proof -
  have "k \<in> fst ` set (sv_timers s)" using assms(3) by force
  from statuses_watch [OF assms(1,2) this] show ?thesis
    by (auto simp: time_out_def open_statuses_def fun_eq_iff split: option.splits)
qed

theorem watcher_spares_final_commands_witness:
  "statuses (sv_db (watchCommandTimeout 500 ''c1'' demo_marked)) ''c1'' = Some ''Timeout''"
proof -
  have "no_faults (sv_db demo_marked)" "db_wf (sv_db demo_marked)"
    using reachable_ok [OF demo_reachable(5)]
    by (simp_all add: server_ok_def) (simp add: demo_marked_eq no_faults_def demo_db_def empty_db_def)
  moreover have "statuses (sv_db demo_marked) ''c1'' = Some ''Sent''" "sv_timers demo_marked = [(''c1'', timeout_ns 5)]"
    by (simp_all add: demo_marked_eq statuses_def demo_command_row_def)
  ultimately show ?thesis
    using watcher_spares_final_commands [of demo_marked "''c1''" "timeout_ns 5" 500] by simp
qed

text \<open>C20: The consumer marks a command Sent after it has sent it, without looking at its status: when the
  client's result arrives between the send and the mark, the mark overwrites it, whatever it said,
  and the watcher that starts then turns the finished command into Timeout.\<close>

theorem result_before_mark_is_lost:
  assumes "no_faults (sv_db s)" "db_wf (sv_db s)" "map_of (sv_chans s) st = Some ch"
    and "ch_result ch = None" "ch_unmarked ch = Some cmd" "statuses (sv_db s) (cd_id cmd) \<noteq> None"
    and "cm_payload m = CP_CommandResult res" "cr_id res = cd_id cmd"
  shows "let s1 = Channel_recv now ns ok st (RecvMsg m) s;
      s2 = consumer_mark st s1;
      s3 = watchCommandTimeout later (cd_id cmd) s2
    in statuses (sv_db s1) (cd_id cmd) = Some (cr_status res) \<and>
       statuses (sv_db s2) (cd_id cmd) = Some ''Sent'' \<and>
       statuses (sv_db s3) (cd_id cmd) = Some ''Timeout''"
proof -
  let ?k = "cd_id cmd"
  define s1 where "s1 = Channel_recv now ns ok st (RecvMsg m) s"
  define s2 where "s2 = consumer_mark st s1"
  have s1: "s1 = handleCommandResult (ch_session ch) res s"
    unfolding s1_def by (rule recv_result_eq [OF assms(3,4,7)])
  have ok1: "no_faults (sv_db s1)" "db_wf (sv_db s1)" "statuses (sv_db s1) ?k = Some (cr_status res)"
    using statuses_result [OF assms(1,2), of "ch_session ch" res] assms(6,8)
    by (auto simp: s1 set_status_def)
  have held: "map_of (sv_chans s1) st = Some ch" using assms(3) by (simp add: s1)
  note mark = mark_held [OF held assms(5), folded s2_def]
  have "sv_db s2 = sv_db (set_command_status ?k ''Sent'' s1)"
    using mark(1) by (simp add: set_command_status_eq)
  then have ok2: "no_faults (sv_db s2)" "db_wf (sv_db s2)" "statuses (sv_db s2) ?k = Some ''Sent''"
    using statuses_set_command_status [OF ok1(1,2), of ?k "''Sent''"] ok1(3)
    by (auto simp: set_status_def)
  have "?k \<in> fst ` set (sv_timers s2)" using mark(2) by force
  then have "statuses (sv_db (watchCommandTimeout later ?k s2)) ?k = Some ''Timeout''"
    using statuses_watch [OF ok2(1,2)] ok2(3) by (simp add: time_out_def open_statuses_def)
  with ok1(3) ok2(3) show ?thesis by (simp add: s1_def s2_def)
qed

theorem result_before_mark_is_lost_witness:
  "statuses (sv_db (watchCommandTimeout 500 ''c1'' (consumer_mark 1 (Channel_recv 300 9 True 1
     (RecvMsg \<lparr>cm_seq = 1, cm_payload = CP_CommandResult \<lparr>cr_id = ''c1'', cr_status = ''Completed'',
        cr_exit_code = 0, cr_stdout = ''out'', cr_stderr = [], cr_started_at_unix = 0,
        cr_finished_at_unix = 0, cr_error_message = []\<rparr>\<rparr>) demo_sent)))) ''c1'' = Some ''Timeout''"
proof -
  have "no_faults (sv_db demo_sent)" "db_wf (sv_db demo_sent)"
    using reachable_ok [OF demo_reachable(4)]
    by (simp_all add: server_ok_def) (simp add: demo_sent_eq no_faults_def demo_db_def empty_db_def)
  moreover have "statuses (sv_db demo_sent) ''c1'' \<noteq> None" "cd_id demo_cmd = ''c1''"
    by (simp_all add: demo_sent_eq statuses_def demo_command_row_def demo_cmd_def)
  moreover have "map_of (sv_chans demo_sent) 1 =
      Some \<lparr>ch_session = ''s1'', ch_unmarked = Some demo_cmd, ch_result = None\<rparr>"
    by (simp add: demo_sent_eq)
  ultimately show ?thesis
    using result_before_mark_is_lost [where s = demo_sent and st = 1 and cmd = demo_cmd and later = 500]
    by (simp add: Let_def)
qed

text \<open>A result is recorded for whichever command it names: it may come on the channel of any session,
  and it replaces a status that is already final, Timeout and Completed included.\<close>

theorem result_is_not_checked:
  assumes "no_faults (sv_db s)" "db_wf (sv_db s)" "map_of (sv_chans s) st = Some ch"
    and "ch_result ch = None" "cm_payload m = CP_CommandResult res"
    and "r \<in> set (commands (sv_db s))" "c_command r = cr_id res"
  shows "\<exists>r' \<in> set (commands (sv_db (Channel_recv now ns ok st (RecvMsg m) s))).
    c_command r' = cr_id res \<and> c_session r' = c_session r \<and> c_status r' = cr_status res \<and>
    c_stdout r' = cr_stdout res \<and> c_exit r' = Some (cr_exit_code res)"
proof -
  let ?f = "\<lambda>r. r\<lparr>c_status := cr_status res, c_exit := Some (cr_exit_code res), c_stdout := cr_stdout res,
        c_stderr := cr_stderr res, c_error := cr_error_message res,
        c_started := opt_text (formatUnixTime (cr_started_at_unix res)),
        c_finished := opt_text (formatUnixTime (cr_finished_at_unix res))\<rparr>"
  have "sv_db (Channel_recv now ns ok st (RecvMsg m) s) =
      update_commands (\<lambda>r. c_command r = cr_id res) ?f (sv_db s)"
    using assms(1) by (simp add: recv_result_eq [OF assms(3-5)] handleCommandResult_def
        UpdateCommandResult_def no_faults_def)
  then have "?f r \<in> set (commands (sv_db (Channel_recv now ns ok st (RecvMsg m) s)))"
    using assms(6,7) by (auto simp: image_iff)
  then show ?thesis using assms(7) by (intro bexI [of _ "?f r"]) simp_all
qed

theorem result_is_not_checked_witness:
  "\<exists>r' \<in> set (commands (sv_db (Channel_recv 300 9 True 2
     (RecvMsg \<lparr>cm_seq = 1, cm_payload = CP_CommandResult \<lparr>cr_id = ''c1'', cr_status = ''Failed'',
        cr_exit_code = 7, cr_stdout = [], cr_stderr = [], cr_started_at_unix = 0,
        cr_finished_at_unix = 0, cr_error_message = []\<rparr>\<rparr>)
     (set_channel 2 \<lparr>ch_session = ''other'', ch_unmarked = None, ch_result = None\<rparr> demo_marked)))).
   c_command r' = ''c1'' \<and> c_session r' = ''s1'' \<and> c_status r' = ''Failed'' \<and> c_exit r' = Some 7"
proof -
  let ?s = "set_channel 2 \<lparr>ch_session = ''other'', ch_unmarked = None, ch_result = None\<rparr> demo_marked"
  let ?res = "\<lparr>cr_id = ''c1'', cr_status = ''Failed'', cr_exit_code = 7, cr_stdout = [],
    cr_stderr = [], cr_started_at_unix = 0, cr_finished_at_unix = 0, cr_error_message = []\<rparr>"
  have "db_wf (sv_db demo_marked)" using reachable_ok [OF demo_reachable(5)] by (simp add: server_ok_def)
  then have d: "db_wf (sv_db ?s)" by (simp add: set_channel_def)
  have f: "no_faults (sv_db ?s)"
    by (simp add: set_channel_def demo_marked_eq no_faults_def demo_db_def empty_db_def)
  have r: "demo_command_row ''Sent'' \<in> set (commands (sv_db ?s))"
    by (simp add: set_channel_def demo_marked_eq)
  have k: "c_command (demo_command_row ''Sent'') = ''c1''" "c_session (demo_command_row ''Sent'') = ''s1''"
    by (simp_all add: demo_command_row_def)
  have c: "map_of (sv_chans ?s) 2 = Some \<lparr>ch_session = ''other'', ch_unmarked = None, ch_result = None\<rparr>"
    by (simp add: set_channel_def update_conv')
  show ?thesis
    using result_is_not_checked [OF f d c, where m = "\<lparr>cm_seq = 1, cm_payload = CP_CommandResult ?res\<rparr>"
        and res = ?res and r = "demo_command_row ''Sent''" and now = 300 and ns = 9 and ok = True] r
    by (simp add: k) blast
qed

text \<open>The timeout of a command is its seconds as nanoseconds while the 64-bit product does not
  overflow; from 9223372037 seconds on it can wrap to a negative value, which then counts as the
  default of 30 seconds.\<close>

theorem timeout_of_seconds:
  "(0 < n \<and> n \<le> 9223372036 \<longrightarrow> sint (timeout_ns (word_of_int n)) = n * 10 ^ 9) \<and>
   timeout_ns 9223372037 = 30000000000 \<and> timeout_ns 0 = 30000000000"
proof -
  have "sint (timeout_ns (word_of_int n)) = n * 10 ^ 9" if n: "0 < n" "n \<le> 9223372036"
  proof -
    have p: "word_of_int n * 1000000000 = (word_of_int (n * 1000000000) :: int64)" by simp
    have "sint (word_of_int n * 1000000000 :: int64) = n * 1000000000"
      unfolding p using n by (intro sint_of_int64) auto
    then show ?thesis using n by (simp add: timeout_ns_def word_sle_eq Let_def)
  qed
  moreover have "timeout_ns 9223372037 = 30000000000" "timeout_ns 0 = 30000000000"
    by (simp_all add: timeout_ns_def word_sle_eq)
  ultimately show ?thesis by blast
qed

theorem timeout_of_seconds_witness: "sint (timeout_ns 5) = 5 * 10 ^ 9"
  using timeout_of_seconds [of 5] by simp

section \<open>The store\<close>

text \<open>C15: A hardware report is saved as a whole or not at all, whatever statement fails: an error leaves
  every table as it was; success either ignores an id that is already stored, changing nothing, or
  appends the main row and one row for every disk, interface, BIOS and board of the report and
  touches no other row.\<close>

theorem report_saved_whole_or_not_at_all:
  "case SaveHardwareReport now sid v rep d of
     (Inl _, d') \<Rightarrow> same_tables d d'
   | (Inr _, d') \<Rightarrow>
       if rr_report_id rep \<in> r_report ` set (reports d) then same_tables d d'
       else (\<exists>info. rr_type rep = RT_Hardware (Some info) \<and> (let k = rr_report_id rep in
         reports d' = reports d @ [report_row_of now k sid v info] \<and>
         disks d' = disks d @ map (disk_row_of k) (hw_disks info) \<and>
         nets d' = nets d @ map (net_row_of k) (hw_nets info) \<and>
         bioses d' = bioses d @ map (bios_row_of k) (case hw_bios info of None \<Rightarrow> [] | Some b \<Rightarrow> [b]) \<and>
         boards d' = boards d @ map (board_row_of k)
           (case hw_motherboard info of None \<Rightarrow> [] | Some m \<Rightarrow> [m]) \<and>
         terminals d' = terminals d \<and> commands d' = commands d))"
proof -
  obtain r d' where r: "SaveHardwareReport now sid v rep d = (r, d')" by fastforce
  then show ?thesis
  proof (cases rule: SaveHardwareReport_cases)
    case (added info)
    then show ?thesis using r same_tablesD [OF added(4)] by (auto simp: Let_def)
  qed (use r in \<open>auto split: sum.split\<close>)
qed

text \<open>C16: What GetLatestHardware reads back after a report is saved under a new id with the latest time of
  its device is that report: the same BIOS, board, disks and interfaces (the last two up to the
  order in which the engine delivers them), the same CPU and memory with absent blocks as zero
  blocks, provided that the addresses are plain ASCII without a backslash at their end.\<close>

theorem latest_hardware_roundtrip:
  fixes sid :: string
  assumes "desc_sorter (eng_order (db_engine d))" "row_scanner (eng_scan (db_engine d))"
    and "no_faults d" "db_wf d" "rr_type rep = RT_Hardware (Some info)" "plain_nets info"
    and "rr_report_id rep \<notin> r_report ` set (reports d)"
    and "\<forall>r \<in> set (reports d). r_device r = v \<longrightarrow> r_created r < nowUTC now"
  defines "d' \<equiv> snd (SaveHardwareReport now sid v rep d)"
  shows "fst (SaveHardwareReport now sid v rep d) = Inr () \<and>
    (\<exists>hw. fst (GetLatestHardware v d') = Some (Inr (Some hw)) \<and> same_hardware hw (stored_info info))"
proof -
  have save: "SaveHardwareReport now sid v rep d =
      (Inr (), add_report (report_row_of now (rr_report_id rep) sid v info) info d)"
    by (rule save_report_works [OF assms(3,4,5,7)])
  let ?row = "report_row_of now (rr_report_id rep) sid v info"
  have "r_report ?row \<notin> r_report ` set (reports d)" using assms(7) by simp
  moreover have "\<forall>r \<in> set (reports d). r_device r = v \<longrightarrow> r_created r < rfc3339 now"
    using assms(8) by (simp add: nowUTC_def)
  ultimately obtain hw where "GetLatestHardware v (add_report ?row info d) =
      (Some (Inr (Some hw)), add_report ?row info d)" "same_hardware hw (stored_info info)"
    using latest_after_add [OF assms(1-4) _ assms(6) refl] by blast
  then show ?thesis by (simp add: d'_def save)
qed

theorem latest_hardware_roundtrip_witness:
  "let info = \<lparr>hw_cpu = None, hw_memory = None, hw_disks = [], hw_nets = [\<lparr>nt_name = ''lo'',
        nt_mac_addr = [], nt_ip_addrs = [''127.0.0.1''], nt_is_loopback = True\<rparr>], hw_bios = None,
        hw_motherboard = None\<rparr>;
     d' = snd (SaveHardwareReport 100 ''s1'' ''dev''
       \<lparr>rr_report_id = ''r1'', rr_type = RT_Hardware (Some info)\<rparr> demo_db)
   in \<exists>hw. fst (GetLatestHardware ''dev'' d') = Some (Inr (Some hw)) \<and> same_hardware hw (stored_info info)"
proof -
  have d: "no_faults demo_db" "reports demo_db = []" "desc_sorter (eng_order (db_engine demo_db))"
    "row_scanner (eng_scan (db_engine demo_db))"
    by (simp_all add: demo_db_def empty_db_def no_faults_def reference.desc_sorter_axioms
        reference.row_scanner_axioms)
  show ?thesis
    unfolding Let_def
    by (rule latest_hardware_roundtrip [THEN conjunct2])
      (simp_all add: d plain_nets_def plain_item_def ascii_def byte_of_def)
qed

text \<open>C17: A history that is returned holds snapshots of the device asked for only, each within the
  requested bounds, newest first, none twice, and at most as many as the limit (100 when the limit
  is not positive); this holds also when the engine fails in some of the queries.\<close>

theorem history_of_device:
  assumes "desc_sorter (eng_order (db_engine d))" "db_wf d"
    and "fst (ListHardwareReports v since until lmt d) = Some (Inr ss)"
  shows "length ss \<le> nat (if lmt \<le> 0 then 100 else lmt) \<and> distinct (map hs_report ss) \<and>
    sorted_wrt (\<lambda>a b. hs_created b \<le> hs_created a) ss \<and>
    (\<forall>x \<in> set ss. \<exists>r \<in> set (reports d). r_report r = hs_report x \<and> r_created r = hs_created x \<and>
       r_device r = v \<and> (since \<noteq> [] \<longrightarrow> since \<le> hs_created x) \<and> (until \<noteq> [] \<longrightarrow> hs_created x \<le> until))"
proof -
  have "ListHardwareReports v since until lmt d = (Some (Inr ss), snd (ListHardwareReports v since until lmt d))"
    using assms(3) by (metis prod.collapse)
  from history_rows [OF assms(1) this] obtain rs where rs: "map hs_report ss = map r_report rs"
    "map hs_created ss = map r_created rs" "length rs \<le> nat (history_limit lmt)"
    "\<forall>r \<in> set rs. r \<in> set (reports d) \<and> r_device r = v \<and> in_range since until (r_created r)"
    "sorted_wrt (\<lambda>r s. r_created s \<le> r_created r) rs"
    "distinct (map r_report (reports d)) \<longrightarrow> distinct (map r_report rs)" by blast
  have len: "length ss = length rs" using rs(1) map_eq_imp_length_eq by blast
  have "sorted_wrt (\<lambda>a b. b \<le> a) (map r_created rs)" using rs(5) by (simp add: sorted_wrt_map)
  then have "sorted_wrt (\<lambda>a b. hs_created b \<le> hs_created a) ss"
    unfolding rs(2) [symmetric] by (simp add: sorted_wrt_map)
  moreover have "\<exists>r \<in> set (reports d). r_report r = hs_report x \<and> r_created r = hs_created x \<and>
      r_device r = v \<and> (since \<noteq> [] \<longrightarrow> since \<le> hs_created x) \<and> (until \<noteq> [] \<longrightarrow> hs_created x \<le> until)"
    if x: "x \<in> set ss" for x
  proof -
    obtain i where i: "i < length rs" "x = ss ! i" using x len by (auto simp: in_set_conv_nth)
    have "map hs_report ss ! i = map r_report rs ! i" "map hs_created ss ! i = map r_created rs ! i"
      using rs(1,2) by simp_all
    then have "r_report (rs ! i) = hs_report x" "r_created (rs ! i) = hs_created x" "rs ! i \<in> set rs"
      using i len by simp_all
    then show ?thesis using rs(4) by (intro bexI [of _ "rs ! i"]) (auto simp: in_range_def split: if_splits)
  qed
  ultimately show ?thesis
    using rs(1,3,6) len assms(2) by (simp add: history_limit_def db_wf_def keys_ok_def)
qed

theorem history_of_device_witness:
  "\<exists>x. fst (ListHardwareReports ''dev'' [] [] 5 (demo_db\<lparr>reports :=
       [report_row_of 100 ''r1'' ''s1'' ''dev'' \<lparr>hw_cpu = None, hw_memory = None, hw_disks = [],
          hw_nets = [], hw_bios = None, hw_motherboard = None\<rparr>]\<rparr>)) = Some (Inr [x]) \<and>
     hs_report x = ''r1''"
proof -
  let ?row = "report_row_of 100 ''r1'' ''s1'' ''dev'' \<lparr>hw_cpu = None, hw_memory = None, hw_disks = [],
    hw_nets = [], hw_bios = None, hw_motherboard = None\<rparr>"
  let ?d = "demo_db\<lparr>reports := [?row]\<rparr>"
  have "order_desc stable_desc r_created [?row] = [?row]"
    by (simp add: order_desc_def stable_desc_def)
  then obtain x where x: "fst (ListHardwareReports ''dev'' [] [] 5 ?d) = Some (Inr [x])"
    by (simp add: ListHardwareReports_def demo_db_def empty_db_def in_range_def sql_limit_def
        history_limit_def load_info_def loadDisks_def loadNets_def loadBIOS_def loadMotherboard_def
        sub_rows_def scan_rows_def)
  have "desc_sorter (eng_order (db_engine ?d))" "db_wf ?d"
    by (simp_all add: demo_db_def empty_db_def reference.desc_sorter_axioms db_wf_def keys_ok_def
        refs_ok_def)
  from history_of_device [OF this x] show ?thesis using x by auto
qed

section \<open>Listing and logs\<close>

lemma list_page:
  assumes "no_faults (sv_db s)" "desc_sorter (eng_order (db_engine (sv_db s)))" "p < 2 ^ 31" "n \<le> 500"
  shows "server_ListTerminals \<lparr>lt_online_filter = online, lt_page_size = of_nat n, lt_page = of_nat p\<rparr> s =
    (Inr \<lparr>lr_terminals = map terminal_summary_of (take (if n = 0 then 50 else n)
        (drop ((p - 1) * (if n = 0 then 50 else n)) (listing online (sv_db s)))),
      lr_total_count = of_nat (length (listing online (sv_db s)))\<rparr>, s)"
proof -
  let ?l = "if n = 0 then 50 else n"
  have w: "sint (of_nat m :: int32) = int m" if "m < 2 ^ 31" for m
    using that by (simp add: signed_of_nat signed_take_bit_int_eq_self)
  have sz: "page_size (sint (of_nat n :: int32)) = int ?l"
    using assms(4) by (simp add: w page_size_def)
  have off: "(page_number (sint (of_nat p :: int32)) - 1) * int ?l = int ((p - 1) * ?l)"
    unfolding w [OF assms(3)] by (cases p) (simp_all add: page_number_def)
  have cl: "clamp_limit (int ?l) = int ?l" "clamp_offset (int m) = int m" for m
    using assms(4) by (auto simp: clamp_limit_def clamp_offset_def)
  have list: "ListTerminals online (int ((p - 1) * ?l)) (int ?l) (sv_db s) =
      (Inr (take ?l (drop ((p - 1) * ?l) (listing online (sv_db s))), length (latest_rows online (sv_db s))), sv_db s)"
    using ListTerminals_works [OF assms(1), of online "int ((p - 1) * ?l)" "int ?l"] by (simp only: cl nat_int)
  show ?thesis
    using desc_sorter.listing_spec(1) [OF assms(2) refl, of online]
    by (simp only: server_ListTerminals_def Let_def list_terminals_request.select_convs sz off on_db_eq list
        fst_conv snd_conv prod.case sum.case) simp
qed

lemma listing_single: "listing None (demo_db\<lparr>terminals := [r]\<rparr>) = [scanTerminal r]"
  by (simp add: listing_def latest_rows_def first_per_partition_def order_desc_def stable_desc_def
      demo_db_def empty_db_def)

text \<open>The same server on an engine of its own for one call.\<close>

definition with_engine :: "sql_engine \<Rightarrow> server \<Rightarrow> server" where
  "with_engine e s = s\<lparr>sv_db := (sv_db s)\<lparr>db_engine := e\<rparr>\<rparr>"

text \<open>C18: Where no two rows have the same last-seen time, paging through the terminals loses and repeats
  nothing: with a working store and a page size between 1 and 500, the pages 1 to k of ListTerminals,
  for k pages that are enough, each answered by an engine of its own that keeps to ORDER BY, put
  together are the whole listing, in its order.\<close>

theorem pages_cover_listing:
  fixes k n :: nat and online :: "bool option" and e :: "nat \<Rightarrow> sql_engine"
  assumes "no_faults (sv_db s)" "desc_sorter (eng_order (db_engine (sv_db s)))"
    and "\<forall>p. desc_sorter (eng_order (e p))" "distinct (map t_last_seen (terminals (sv_db s)))"
    and "1 \<le> n" "n \<le> 500" "k < 2 ^ 31" "length (listing online (sv_db s)) \<le> k * n"
  defines "page \<equiv> \<lambda>p. server_ListTerminals
      \<lparr>lt_online_filter = online, lt_page_size = of_nat n, lt_page = of_nat p\<rparr> (with_engine (e p) s)"
  shows "\<exists>pages. (\<forall>p \<in> {1..k}. page p = (Inr (pages p), with_engine (e p) s)) \<and>
    concat (map (\<lambda>p. lr_terminals (pages p)) [1..<k + 1]) =
      map terminal_summary_of (listing online (sv_db s))"
proof -
  let ?L = "listing online (sv_db s)"
  let ?page = "\<lambda>p. \<lparr>lr_terminals = map terminal_summary_of (take n (drop ((p - 1) * n) ?L)),
      lr_total_count = of_nat (length ?L)\<rparr>"
  have "page p = (Inr (?page p), with_engine (e p) s)" if "p \<in> {1..k}" for p
    using list_page [of "with_engine (e p) s" p n online] that assms(1,3,5-7)
      listing_unique [where e = "e p" and online = online, OF assms(2) _ assms(4)]
    by (simp add: page_def with_engine_def no_faults_def)
  moreover have "concat (map (\<lambda>p. lr_terminals (?page p)) [1..<k + 1]) = map terminal_summary_of ?L"
  proof -
    have "concat (map (\<lambda>p. lr_terminals (?page p)) (map Suc [0..<k])) =
        map terminal_summary_of (concat (map (\<lambda>p. take n (drop (p * n) ?L)) [0..<k]))"
      by (simp add: map_concat o_def)
    then show ?thesis using assms(8) by (simp add: concat_pages map_Suc_upt)
  qed
  ultimately show ?thesis by (intro exI [of _ ?page] conjI ballI) simp_all
qed

theorem pages_cover_listing_witness:
  "concat (map (\<lambda>p. lr_terminals (projr (fst (server_ListTerminals
       \<lparr>lt_online_filter = None, lt_page_size = of_nat 1, lt_page = of_nat p\<rparr>
       (with_engine (reference_engine\<lparr>eng_order := if p = 1 then stable_desc else reverse_desc\<rparr>) demo_open))))) [1..<2 + 1]) =
     [terminal_summary_of (scanTerminal demo_row)]"
proof -
  let ?e = "\<lambda>p :: nat. reference_engine\<lparr>eng_order := if p = 1 then stable_desc else reverse_desc\<rparr>"
  let ?page = "\<lambda>p :: nat. server_ListTerminals
    \<lparr>lt_online_filter = None, lt_page_size = of_nat 1, lt_page = of_nat p\<rparr> (with_engine (?e p) demo_open)"
  have f: "no_faults (sv_db demo_open)" "desc_sorter (eng_order (db_engine (sv_db demo_open)))"
    "\<forall>p. desc_sorter (eng_order (?e p))" "distinct (map t_last_seen (terminals (sv_db demo_open)))"
    by (simp_all add: demo_open_eq demo_db_def empty_db_def no_faults_def reference.desc_sorter_axioms
        reversed.desc_sorter_axioms)
  have l: "listing None (sv_db demo_open) = [scanTerminal demo_row]"
    by (simp add: demo_open_eq listing_single)
  obtain pages where p: "\<forall>p \<in> {1..2}. ?page p = (Inr (pages p), with_engine (?e p) demo_open)"
    "concat (map (\<lambda>p. lr_terminals (pages p)) [1..<2 + 1]) = [terminal_summary_of (scanTerminal demo_row)]"
    using pages_cover_listing [OF f, of 1 2 None] by (auto simp: l)
  have "map (\<lambda>p. lr_terminals (projr (fst (?page p)))) [1..<2 + 1] = map (\<lambda>p. lr_terminals (pages p)) [1..<2 + 1]"
    by (rule map_cong [OF refl]) (use p(1) in auto)
  then show ?thesis by (simp only: p(2))
qed

text \<open>C34: The listing has no second sort key: of two terminals of different devices with the same last-seen
  time, one can be missing from every page. There are engines, one for each query and all of them
  sorting as ORDER BY demands, with which pages 1 and 2 of size 1 both show the other one and all
  further pages are empty, although the total says two.\<close>

theorem tied_terminal_on_no_page:
  fixes s :: server
  assumes "no_faults (sv_db s)" "terminals (sv_db s) = [a, b]" "t_device a \<noteq> t_device b" "t_last_seen a = t_last_seen b"
  shows "\<exists>e. (\<forall>p. desc_sorter (eng_order (e p))) \<and> (\<forall>p. 1 \<le> p \<and> p < 2 ^ 31 \<longrightarrow>
    fst (server_ListTerminals \<lparr>lt_online_filter = None, lt_page_size = 1, lt_page = of_nat p\<rparr> (with_engine (e p) s)) =
      Inr \<lparr>lr_terminals = (if p \<le> 2 then [terminal_summary_of (scanTerminal a)] else []), lr_total_count = 2\<rparr>)"
proof -
  let ?e = "\<lambda>p :: nat. reference_engine\<lparr>eng_order := if p = 1 then stable_desc else reverse_desc\<rparr>"
  have sorter: "desc_sorter (eng_order (?e p))" for p
    using reference.desc_sorter_axioms reversed.desc_sorter_axioms by simp
  have l: "listing None ((sv_db s)\<lparr>db_engine := ?e p\<rparr>) = map scanTerminal (if p = 1 then [a, b] else [b, a])" for p
    using assms(2-4)
    by (simp add: listing_def latest_rows_def first_per_partition_def order_desc_def stable_desc_def
        reverse_desc_def)
  have "fst (server_ListTerminals \<lparr>lt_online_filter = None, lt_page_size = 1, lt_page = of_nat p\<rparr> (with_engine (?e p) s)) =
      Inr \<lparr>lr_terminals = (if p \<le> 2 then [terminal_summary_of (scanTerminal a)] else []), lr_total_count = 2\<rparr>"
    if "1 \<le> p" "p < 2 ^ 31" for p
  proof -
    have "no_faults (sv_db (with_engine (?e p) s))" "desc_sorter (eng_order (db_engine (sv_db (with_engine (?e p) s))))"
      using assms(1) sorter [of p] by (simp_all add: with_engine_def no_faults_def)
    from list_page [OF this that(2), of 1 None] show ?thesis
      using that(1) l [of p] by (cases "p = 1"; cases "p = 2") (simp_all add: with_engine_def)
  qed
  then show ?thesis using sorter by (intro exI [of _ ?e]) blast
qed

theorem tied_terminal_on_no_page_witness:
  "\<exists>e. (\<forall>p. desc_sorter (eng_order (e p))) \<and> (\<forall>p \<in> {1, 2}. fst (server_ListTerminals
       \<lparr>lt_online_filter = None, lt_page_size = 1, lt_page = of_nat p\<rparr> (with_engine (e p)
         (demo_open\<lparr>sv_db := demo_db\<lparr>terminals := [demo_row, demo_row\<lparr>t_session := ''s2'', t_device := ''dev2''\<rparr>]\<rparr>\<rparr>))) =
     Inr \<lparr>lr_terminals = [terminal_summary_of (scanTerminal demo_row)], lr_total_count = 2\<rparr>)"
proof -
  let ?b = "demo_row\<lparr>t_session := ''s2'', t_device := ''dev2''\<rparr>"
  let ?s = "demo_open\<lparr>sv_db := demo_db\<lparr>terminals := [demo_row, ?b]\<rparr>\<rparr>"
  have "no_faults (sv_db ?s)" "terminals (sv_db ?s) = [demo_row, ?b]" "t_device demo_row \<noteq> t_device ?b"
    "t_last_seen demo_row = t_last_seen ?b"
    by (simp_all add: no_faults_def demo_db_def empty_db_def demo_row_def)
  from tied_terminal_on_no_page [OF this] obtain e where e: "\<forall>p. desc_sorter (eng_order (e p))"
    "\<forall>p. 1 \<le> p \<and> p < 2 ^ 31 \<longrightarrow> fst (server_ListTerminals
       \<lparr>lt_online_filter = None, lt_page_size = 1, lt_page = of_nat p\<rparr> (with_engine (e p) ?s)) =
     Inr \<lparr>lr_terminals = (if p \<le> 2 then [terminal_summary_of (scanTerminal demo_row)] else []), lr_total_count = 2\<rparr>"
    by (elim exE conjE)
  show ?thesis
  proof (intro exI [of _ e] conjI ballI)
    fix p :: nat assume "p \<in> {1, 2}"
    then have "1 \<le> p \<and> p < 2 ^ 31" "p \<le> 2" by auto
    with e(2) show "fst (server_ListTerminals
       \<lparr>lt_online_filter = None, lt_page_size = 1, lt_page = of_nat p\<rparr> (with_engine (e p) ?s)) =
     Inr \<lparr>lr_terminals = [terminal_summary_of (scanTerminal demo_row)], lr_total_count = 2\<rparr>" by (simp only: if_True)
  qed (rule e(1))
qed

lemma just_saved_command_listed:
  fixes now :: nat and v k sid :: string and t :: command_type
  assumes "desc_sorter (eng_order (db_engine d))" "saved_rows d" "first_key_plain ps"
    and "binds_in_order (db_engine d)" "no_faults d" "k \<notin> c_command ` set (commands d)" "length (commands d) < 200" "sid \<noteq> []"
  defines "d' \<equiv> snd (SaveCommandLog now k sid v t ps d)"
  shows "\<exists>es. GetCommandLog [] sid 200 d' = (Some (Inr es), d') \<and>
      (\<exists>e \<in> set es. le_command e = k \<and> le_session e = sid \<and> le_status e = ''Pending'' \<and> le_params e = [])"
proof -
  define row where "row = \<lparr>c_command = k, c_session = sid, c_type = cmdTypeName t,
        c_params = marshalJSONMap ps, c_status = ''Pending'', c_exit = None, c_stdout = [],
        c_stderr = [], c_error = [], c_created = rfc3339 now, c_started = None, c_finished = None\<rparr>"
  have save: "SaveCommandLog now k sid v t ps d = (Inr (), d\<lparr>commands := commands d @ [row]\<rparr>)"
    unfolding row_def by (rule save_works [OF assms(5,6)])
  have d': "d' = d\<lparr>commands := commands d @ [row]\<rparr>" by (simp add: d'_def save)
  have u: "unmarshalJSONMap (c_params row) = Some []"
    using unmarshal_marshal assms(3) by (simp add: row_def first_key_plain_def)
  then have ok: "readable d'" "no_faults d'" using saved_rows_unreadable [OF assms(2)] assms(5)
    by (simp_all add: d' readable_def)
  let ?log = "log_of WhereSession sid d'"
  let ?rows = "filter (log_where_holds WhereSession [SText sid]) (join_terminals d')"
  have e: "desc_sorter (eng_order (db_engine d'))" "binds_in_order (db_engine d')"
    using assms(1,4) by (simp_all add: d')
  have get: "GetCommandLog [] sid 200 d' = (Some (Inr (take 200 ?log)), d')"
    using desc_sorter.GetCommandLog_works [OF e(1) refl ok(2) e(2) ok(1), of "[]" sid 200] assms(8)
    by (simp add: log_query_where_def log_limit_def)
  have ms: "mset ?log = image_mset entry_of (mset ?rows)"
    by (rule desc_sorter.log_of_spec(2) [OF e(1) refl ok(1)])
  then have "size (mset ?log) = size (mset ?rows)" by (simp only: size_image_mset)
  then have "length ?log = length ?rows" by (simp only: size_mset)
  then have "length ?log \<le> 200"
    using length_filter_le [of "log_where_holds WhereSession [SText sid]" "join_terminals d'"] assms(7)
    by (simp add: join_terminals_def d')
  moreover define p where "p = (row, find (\<lambda>t. t_session t = sid) (terminals d))"
  moreover have "p \<in> set ?rows"
    by (simp add: join_terminals_def d' p_def log_where_holds_def row_def text_eq_def)
  then have "entry_of p \<in> set ?log" using ms by (metis image_eqI image_mset_is_empty_iff set_image_mset set_mset_mset)
  ultimately have "entry_of p \<in> set (take 200 ?log)" by simp
  moreover have "le_command (entry_of p) = k \<and> le_session (entry_of p) = sid \<and>
      le_status (entry_of p) = ''Pending'' \<and> le_params (entry_of p) = []"
    using u by (simp add: entry_of_def scan_entry_def p_def) (simp add: row_def)
  ultimately show ?thesis using get by auto
qed

text \<open>C23: The parameters of a command are stored but not read back: as long as every command was saved
  with a first parameter whose key does not end in a quotation mark, every answer of GetCommandLog,
  whatever ids and limit are given and whatever statements fail, shows its commands without
  parameters, because after a key the reader steps over the closing quote but not over the colon,
  and stops there. A command that was just saved is among the entries of its session when the store works
  and the log has room for it in one answer.\<close>

theorem logged_params_are_lost:
  fixes now :: nat and v k sid :: string and t :: command_type
  assumes "desc_sorter (eng_order (db_engine d))" "saved_rows d" "first_key_plain ps"
  defines "d' \<equiv> snd (SaveCommandLog now k sid v t ps d)"
  shows "saved_rows d' \<and>
    (\<forall>w s lim es d''. GetCommandLog w s lim d' = (Some (Inr es), d'') \<longrightarrow> (\<forall>e \<in> set es. le_params e = [])) \<and>
    (binds_in_order (db_engine d) \<and> no_faults d \<and> k \<notin> c_command ` set (commands d) \<and>
      length (commands d) < 200 \<and> sid \<noteq> [] \<longrightarrow>
      (\<exists>es. GetCommandLog [] sid 200 d' = (Some (Inr es), d') \<and>
        (\<exists>e \<in> set es. le_command e = k \<and> le_session e = sid \<and> le_status e = ''Pending'' \<and> le_params e = [])))"
proof (intro conjI allI impI ballI)
  show saved: "saved_rows d'" unfolding d'_def by (rule saved_rows_save [OF assms(2,3)])
  have "db_engine d' = db_engine d" unfolding d'_def
    by (cases "SaveCommandLog now k sid v t ps d", cases rule: SaveCommandLog_cases) (auto simp: same_tablesD)
  then show "le_params e = []" if "GetCommandLog w s lim d' = (Some (Inr es), d'')" "e \<in> set es" for w s lim es d'' e
    using desc_sorter.saved_rows_log [OF assms(1) _ saved that] by simp
qed (elim conjE, unfold d'_def, rule just_saved_command_listed; use assms in simp)

theorem logged_params_are_lost_witness:
  "\<exists>es. fst (GetCommandLog [] ''s1'' 200
       (snd (SaveCommandLog 100 ''c1'' ''s1'' ''dev'' ct_run_script [(''script'', ''ls'')] demo_db))) = Some (Inr es) \<and>
     (\<exists>e \<in> set es. le_command e = ''c1'' \<and> le_params e = [])"
proof -
  have d: "desc_sorter (eng_order (db_engine demo_db))" "binds_in_order (db_engine demo_db)"
    "no_faults demo_db" "saved_rows demo_db" "commands demo_db = []"
    by (simp_all add: demo_db_def empty_db_def no_faults_def reference.desc_sorter_axioms saved_rows_def
        binds_in_order_def reference_engine_def)
  have "first_key_plain [(''script'', ''ls'')]" by (simp add: first_key_plain_def)
  from logged_params_are_lost [OF d(1,4) this, of 100 "''c1''" "''s1''" "''dev''" ct_run_script]
  show ?thesis using d(2,3,5) by fastforce
qed

text \<open>A log query that names both a device and a session always fails with Internal on an engine that drops
  or refuses surplus arguments: the query has two placeholders and is given three values.\<close>

theorem log_by_both_ids_fails:
  assumes "gl_device_id req \<noteq> []" "gl_session_id req \<noteq> []" "no_faults (sv_db s)"
    and "drops_or_refuses (db_engine (sv_db s)) {gl_device_id req}"
  shows "\<exists>e. server_GetCommandLog req s = (Some (Inl (internal_error ''get command log failed''
    (wrap_err ''get command logs'' e))), s)"
proof -
  define lmt where "lmt = (let n = sint (gl_limit req) in if n \<le> 0 \<or> 200 < n then 50 else n)"
  obtain e where "GetCommandLog (gl_device_id req) (gl_session_id req) lmt (sv_db s) =
      (Some (Inl (wrap_err ''get command logs'' e)), sv_db s)"
    using GetCommandLog_both [OF assms(1,2,4,3)] by blast
  then show ?thesis by (auto simp: server_GetCommandLog_def on_db_eq lmt_def Let_def)
qed

theorem log_by_both_ids_fails_witness:
  "\<exists>e. fst (server_GetCommandLog \<lparr>gl_device_id = ''dev'', gl_session_id = ''s1'', gl_limit = 0\<rparr> demo_open) = Some (Inl e)"
proof -
  have f: "no_faults (sv_db demo_open)" "drops_or_refuses (db_engine (sv_db demo_open)) {''dev''}"
    by (simp_all add: demo_open_eq demo_db_def empty_db_def no_faults_def drops_or_refuses_def reference_engine_def)
  then show ?thesis
    using log_by_both_ids_fails [of "\<lparr>gl_device_id = ''dev'', gl_session_id = ''s1'', gl_limit = 0\<rparr>" demo_open] by auto
qed

end
