(* ===== verification/InterleavingSpec.thy ===== *)
theory InterleavingSpec
  imports InterleavingRuns Examples
begin

text \<open>
  Properties of the server whose calls are taken apart: the invariants hold in the middle of calls
  too, the sessions that a call still speaks of exist, the lock and the receive loops are exclusive, and what can go
  wrong between two critical sections.
\<close>

section \<open>What tasks rest on\<close>

text \<open>
  The sessions whose entry a call has in hand. The code keeps a pointer to the entry, the model
  looks it up by its id; that the id stays known makes these the same.
\<close>

fun task_sessions :: "task \<Rightarrow> string list" where
  "task_sessions (Persisting uuid _) = [uuid]"
| "task_sessions (Beating _ sid) = [sid]"
| "task_sessions (Closing sid) = [sid]"
| "task_sessions (Kicking sid) = [sid]"
| "task_sessions (SendReached _ sid) = [sid]"
| "task_sessions (SendSaved _ _ sid) = [sid]"
| "task_sessions (Ticking _ _ ids) = ids"
| "task_sessions (Calling sid _ _ ids) = sid # ids"
| "task_sessions _ = []"

definition at_most_one :: "('a \<Rightarrow> bool) \<Rightarrow> 'a list \<Rightarrow> bool" where
  "at_most_one P xs \<longleftrightarrow> length (filter P xs) \<le> 1"

definition tasks_ok :: "system \<Rightarrow> bool" where
  "tasks_ok x \<longleftrightarrow> (\<forall>t \<in> set (snd x). set (task_sessions t) \<subseteq> ids_of (sv_cm (fst x))) \<and>
     at_most_one holds_lock (snd x) \<and> (\<forall>st. at_most_one (serves st) (snd x))"

lemma length_filter_remove1:
  "x \<in> set xs \<Longrightarrow> length (filter P (remove1 x xs)) + (if P x then 1 else 0) = length (filter P xs)"
  by (induction xs) auto

text \<open>The tasks that a step leaves speak of the sessions of the task it went on with, or of sessions that it
  has found; a step that starts a scan takes the lock, and one that starts a message its stream.\<close>

lemma kick_check_known: "kick_check sid s \<Longrightarrow> sid \<in> ids_of (sv_cm s)"
  by (auto simp: kick_check_def dest: Get_in_ids split: option.splits)

definition held_sessions :: "micro \<Rightarrow> string set" where
  "held_sessions m = (case takes m of None \<Rightarrow> {} | Some t \<Rightarrow> set (task_sessions t))"

lemma effect_sessions:
  assumes "server_ok s" "guard m s" "u \<in> set (snd (effect m s))"
  shows "set (task_sessions u) \<subseteq> held_sessions m \<union> ids_of (sv_cm (fst (effect m s)))"
proof -
  have known: "ch_session ch \<in> ids_of (sv_cm s)" if "map_of (sv_chans s) st = Some ch" for st ch
    using assms(1) that by (simp add: server_ok_def chans_ok_def)
  have mono: "ids_of (sv_cm s) \<subseteq> ids_of (sv_cm (fst (effect m s)))"
    by (rule entry_kept_ids [OF cm_change_kept [OF effect_registry [OF assms(2)]]])
  then show ?thesis using assms(2,3) known kick_check_known
    by (cases m) (fastforce simp: held_sessions_def on_db_eq Let_def ids_Add new_conn_def
        split: option.splits sum.splits bool.splits if_splits)+
qed

lemma effect_locks:
  "length (filter holds_lock (snd (effect m s))) \<le>
     (case takes m of None \<Rightarrow> if needs_lock m then 1 else 0 | Some t \<Rightarrow> if holds_lock t then 1 else 0)"
  "length (filter (serves st) (snd (effect m s))) \<le>
     (case takes m of None \<Rightarrow> if stream_of m = Some st then 1 else 0 | Some t \<Rightarrow> if serves st t then 1 else 0)"
  by (cases m; simp add: on_db_eq Let_def split: option.split sum.split bool.split; fail)+

lemma filter_free: "\<not> list_ex P ts \<Longrightarrow> filter P ts = []"
  by (simp add: list_ex_iff filter_empty_conv)

lemma count_step:
  assumes "at_most_one P ts" "case tk of None \<Rightarrow> True | Some t \<Rightarrow> t \<in> set ts" "c \<Longrightarrow> \<not> list_ex P ts"
    and "length (filter P us) \<le> (case tk of None \<Rightarrow> if c then 1 else 0 | Some t \<Rightarrow> if P t then 1 else 0)"
  shows "at_most_one P ((case tk of None \<Rightarrow> ts | Some t \<Rightarrow> remove1 t ts) @ us)"
proof (cases tk)
  case None
  then show ?thesis using assms filter_free [of P ts] by (cases c) (auto simp: at_most_one_def)
next
  case (Some t)
  then show ?thesis using assms length_filter_remove1 [of t ts P] by (auto simp: at_most_one_def split: if_splits)
qed

lemma micro_tasks_ok:
  assumes "server_ok s" "tasks_ok (s, ts)" "enabled m (s, ts)"
  shows "tasks_ok (micro_step m (s, ts))"
proof -
  let ?rest = "case takes m of None \<Rightarrow> ts | Some t \<Rightarrow> remove1 t ts"
  obtain s' us where e: "effect m s = (s', us)" by fastforce
  have g: "guard m s" using assms(3) by simp
  have mono: "ids_of (sv_cm s) \<subseteq> ids_of (sv_cm s')"
    using entry_kept_ids [OF cm_change_kept [OF effect_registry [OF g]]] e by simp
  have old: "set (task_sessions t) \<subseteq> ids_of (sv_cm s')" if "t \<in> set ts" for t
    using assms(2) that mono by (simp add: tasks_ok_def) (meson order_trans)
  have held: "held_sessions m \<subseteq> ids_of (sv_cm s')"
    using assms(3) old by (auto simp: held_sessions_def split: option.splits)
  have new: "set (task_sessions u) \<subseteq> ids_of (sv_cm s')" if "u \<in> set us" for u
    using effect_sessions [OF assms(1) g, of u] that held e by auto
  have rest: "set ?rest \<subseteq> set ts" by (auto dest: set_remove1_subset [THEN subsetD] split: option.split)
  have "at_most_one holds_lock (?rest @ us)"
    by (rule count_step [where c = "needs_lock m"])
      (use assms(2,3) effect_locks(1) [of m s] e in \<open>simp_all add: tasks_ok_def locked_def\<close>)
  moreover have "at_most_one (serves st) (?rest @ us)" for st
    by (rule count_step [where c = "stream_of m = Some st"])
      (use assms(2,3) effect_locks(2) [of st m s] e in \<open>simp_all add: tasks_ok_def busy_def\<close>)
  moreover have "set (task_sessions u) \<subseteq> ids_of (sv_cm s')" if "u \<in> set (?rest @ us)" for u
    using that old new rest by (metis Un_iff set_append subsetD)
  ultimately show ?thesis using e by (simp add: tasks_ok_def)
qed

lemma interleaved_all_ok:
  assumes "interleaved x y" "server_ok (fst x)" "tasks_ok x"
  shows "server_ok (fst y) \<and> tasks_ok y"
  using assms
proof (induction rule: interleaved.induct)
  case (go_on x y m)
  then show ?case
    using micro_tasks_ok [of "fst y" "snd y" m] effect_ok [OF _ enabled_guard] by (simp add: fst_micro_step)
qed simp

section \<open>The invariants\<close>

lemma tasks_ok_none: "tasks_ok (s, [])"
  by (simp add: tasks_ok_def at_most_one_def)

lemma interleaved_server_ok:
  assumes "interleaved (start_server (SetMaxConns m NewConnectionManager) d, []) (s, ts)" "db_wf d"
  shows "server_ok s" "tasks_ok (s, ts)"
  using interleaved_all_ok [OF assms(1)] start_ok [OF assms(2)] tasks_ok_none by simp_all

text \<open>C1: In every state that the server can reach from a well-formed database, between any two critical
  sections, store operations or sends of any calls, and whatever statements fail: the registry has
  one entry per session, filed under its own id; the tables keep their keys and every disk,
  interface, BIOS and board row has its report; the open handlers have distinct streams and known
  sessions; every session of which an unfinished call holds an entry is still in the registry; at
  most one call holds the lock across steps, and every stream has at most one message in work.\<close>

theorem interleaved_well_formed:
  assumes "interleaved (start_server (SetMaxConns m NewConnectionManager) d, []) (s, ts)" "db_wf d"
  shows "cm_ok (sv_cm s) \<and> db_wf (sv_db s) \<and> chans_ok s \<and>
    (\<forall>t \<in> set ts. set (task_sessions t) \<subseteq> ids_of (sv_cm s)) \<and>
    length (filter holds_lock ts) \<le> 1 \<and> (\<forall>st. length (filter (serves st) ts) \<le> 1)"
  using interleaved_server_ok [OF assms] by (simp add: server_ok_def tasks_ok_def at_most_one_def)

text \<open>C2: Commands of a session are neither lost, duplicated nor reordered, however the steps of the calls
  that send them interleave: at every moment the commands queued for it are those its consumers
  have taken (sent or dropped on a failed send) followed by those still waiting, in the same order,
  and at most 32 wait.\<close>

theorem interleaved_commands_in_order:
  assumes "interleaved (start_server (SetMaxConns m NewConnectionManager) d, []) (s, ts)" "db_wf d"
  shows "queued_of sid (sv_log s) = taken_of sid (sv_log s) @ waiting sid (sv_cm s) \<and>
    length (waiting sid (sv_cm s)) \<le> 32"
  using interleaved_server_ok [OF assms] by (simp add: server_ok_def queues_ok_def cmdQueueCapacity_def)

text \<open>The server that performs every call as one event only reaches states that the server with
  interleaved calls reaches too, with no call left unfinished.\<close>

theorem atomic_runs_are_interleavings:
  assumes "reachable m d s"
  shows "interleaved (start_server (SetMaxConns m NewConnectionManager) d, []) (s, [])"
  using assms by (rule reachable_interleaved)

section \<open>What goes wrong between two steps\<close>

text \<open>C21: DisconnectTerminal looks at the session and closes its disconnect channel in two critical
  sections. When the stream of the session ends between them, the kick finds the session offline
  and does nothing, but the administrator is told that it was kicked; the agent opens its channel
  again and stays.\<close>

theorem kick_confirmed_without_effect:
  fixes ns :: int
  assumes "Get sid (sv_cm s) = Some c" "cc_online c" "\<not> cc_closed c" "extractSessionID md = Inr sid"
    and "map_of (sv_chans s) a = Some ch" "ch_session ch = sid" "ch_result ch \<noteq> None" "ch_unmarked ch = None"
    and "b \<notin> fst ` set (sv_chans s)"
  defines "run \<equiv> [McFind sid, McClear a, McKick sid, McOffline sid, Whole (EvOpen b ns md)]"
  shows "enabled_run run (s, []) \<and>
    kick_reply (kick_check sid s) = \<lparr>ar_ok = True, ar_message = ''kicked''\<rparr> \<and>
    (\<exists>t. run_micros run (s, []) = (t, []) \<and> GetStream sid (sv_cm t) = Some b \<and> Channel_kicked b t = t)"
proof -
  have b: "b \<notin> fst ` set (AList.delete a (sv_chans s))" using assms(9) by (auto simp: AList.delete_eq)
  show ?thesis using assms(1-8) b
    by (auto simp: run_def kick_check_def kick_reply_def Kick_def ClearStream_def Get_upd_conn on_db_eq
        Channel_open_def set_channel_def SetStream_def GetStream_def Channel_kicked_def update_conv' remove1_append)
qed

lemma row_now_offline:
  assumes "no_faults e" "r \<in> set (terminals (snd (MarkOffline sid e)))" "t_session r = sid"
  shows "\<not> t_online r"
proof -
  have "terminals (snd (MarkOffline sid e)) =
      map (\<lambda>r. if t_session r = sid then r\<lparr>t_online := False\<rparr> else r) (terminals e)"
    using assms(1) by (simp add: MarkOffline_def no_faults_def update_terminals_def)
  with assms(2) have "r \<in> (\<lambda>r. if t_session r = sid then r\<lparr>t_online := False\<rparr> else r) ` set (terminals e)"
    by (simp only: set_map)
  then obtain q where "r = (if t_session q = sid then q\<lparr>t_online := False\<rparr> else q)"
    by (rule imageE)
  then show ?thesis using assms(3) by (cases "t_session q = sid") simp_all
qed

text \<open>The end of a Channel call clears the stream in the registry and then writes the row. When the agent has
  opened its next channel and sent a heartbeat on it in between, the row of the session ends up
  offline while the registry has it online with its new stream.\<close>

theorem row_offline_while_online:
  fixes ns ns' :: int and now now' :: nat and ok :: bool
  assumes "Get sid (sv_cm s) = Some c" "extractSessionID md = Inr sid" "no_faults (sv_db s)"
    and "map_of (sv_chans s) a = Some ch" "ch_session ch = sid" "ch_result ch \<noteq> None" "ch_unmarked ch = None"
    and "b \<notin> fst ` set (sv_chans s)"
  defines "run \<equiv> [McClear a, Whole (EvOpen b ns md), McBeat ns' b, McBeatStore now b sid, McAck now' ok b,
    McOffline sid]"
  shows "enabled_run run (s, []) \<and>
    (\<exists>t. run_micros run (s, []) = (t, []) \<and> GetStream sid (sv_cm t) = Some b \<and>
      (\<forall>r \<in> set (terminals (sv_db t)). t_session r = sid \<longrightarrow> \<not> t_online r))"
proof -
  have b: "b \<notin> fst ` set (AList.delete a (sv_chans s))" using assms(8) by (auto simp: AList.delete_eq)
  have d: "no_faults (snd (UpdateHeartbeat now sid (sv_db s)))"
    using assms(3) by (simp add: UpdateHeartbeat_def no_faults_def update_terminals_def)
  let ?y = "run_micros run (s, [])"
  note defs = run_def ClearStream_def Get_upd_conn on_db_eq RecordHeartbeat_def Channel_open_def set_channel_def
    SetStream_def GetStream_def update_conv' remove1_append
  have e: "enabled_run run (s, [])" using assms(1,2,4-7) b by (cases ok) (simp_all add: defs)
  have y: "snd ?y = []" "GetStream sid (sv_cm (fst ?y)) = Some b"
    "sv_db (fst ?y) = snd (MarkOffline sid (snd (UpdateHeartbeat now sid (sv_db s))))"
    using assms(1,2,4-7) by (cases ok; simp add: defs)+
  show ?thesis using e y row_now_offline [OF d] by (intro conjI exI [of _ "fst ?y"]) (simp_all add: prod_eq_iff)
qed

section \<open>At concrete states\<close>

text \<open>The demo session whose agent has closed its stream: the handler is about to return.\<close>

definition demo_ended :: server where
  "demo_ended = Channel_recv 7 7 True 1 RecvEof demo_open"

lemma demo_ended_eq:
  "demo_ended = demo_open\<lparr>sv_chans := [(1, \<lparr>ch_session = ''s1'', ch_unmarked = None, ch_result = Some None\<rparr>)]\<rparr>"
  by (simp add: demo_ended_def demo_open_eq Channel_recv_def loop_returns_def set_channel_def)

lemma demo_ended_facts:
  "\<exists>c. Get ''s1'' (sv_cm demo_ended) = Some c \<and> cc_online c \<and> \<not> cc_closed c"
  "extractSessionID demo_md = Inr ''s1''" "no_faults (sv_db demo_ended)"
  "map_of (sv_chans demo_ended) 1 = Some \<lparr>ch_session = ''s1'', ch_unmarked = None, ch_result = Some None\<rparr>"
  "2 \<notin> fst ` set (sv_chans demo_ended)"
  by (simp_all add: demo_ended_eq demo_open_eq Get_def extractSessionID_def demo_md_def no_faults_def
      demo_db_def empty_db_def demo_conn_def new_conn_def)

theorem interleaved_well_formed_witness:
  "cm_ok (sv_cm demo_open) \<and> set (task_sessions (Kicking ''s1'')) \<subseteq> ids_of (sv_cm demo_open) \<and>
   length (filter holds_lock [Kicking ''s1'', Ticking 9 1 [''s1'']]) \<le> 1"
proof -
  note reachable_interleaved [OF demo_reachable(2)]
  moreover have "enabled_run [McFind ''s1'', McTick 9 1 [''s1'']] (demo_open, [])"
    by (simp add: demo_open_eq kick_check_def Get_def ids_of_def)
  then have "interleaved (demo_open, []) (demo_open, [Kicking ''s1'', Ticking 9 1 [''s1'']])"
    using enabled_run_interleaved [of "[McFind ''s1'', McTick 9 1 [''s1'']]" "(demo_open, [])"] by simp
  ultimately have "interleaved (start_server (SetMaxConns 1 NewConnectionManager) demo_db, [])
      (demo_open, [Kicking ''s1'', Ticking 9 1 [''s1'']])" using interleaved_trans by blast
  from interleaved_well_formed [OF this demo_db_wf] show ?thesis by simp
qed

theorem interleaved_commands_in_order_witness:
  "queued_of ''s1'' (sv_log demo_queued) = taken_of ''s1'' (sv_log demo_queued) @ [demo_cmd]"
  using interleaved_commands_in_order [OF reachable_interleaved [OF demo_reachable(3)] demo_db_wf, of "''s1''"]
  by (simp add: demo_queued_eq waiting_def Get_def)

theorem atomic_runs_are_interleavings_witness:
  "interleaved (start_server (SetMaxConns 1 NewConnectionManager) demo_db, []) (demo_marked, [])"
  by (rule atomic_runs_are_interleavings [OF demo_reachable(5)])

theorem kick_confirmed_without_effect_witness:
  "\<exists>t. run_micros [McFind ''s1'', McClear 1, McKick ''s1'', McOffline ''s1'', Whole (EvOpen 2 9 demo_md)]
     (demo_ended, []) = (t, []) \<and> GetStream ''s1'' (sv_cm t) = Some 2 \<and> Channel_kicked 2 t = t"
  using kick_confirmed_without_effect [OF _ _ _ demo_ended_facts(2,4) _ _ _ demo_ended_facts(5), of _ 9]
    demo_ended_facts(1) by fastforce

theorem row_offline_while_online_witness:
  "\<exists>t. run_micros [McClear 1, Whole (EvOpen 2 9 demo_md), McBeat 10 2, McBeatStore 10 2 ''s1'', McAck 10 True 2,
     McOffline ''s1''] (demo_ended, []) = (t, []) \<and> GetStream ''s1'' (sv_cm t) = Some 2 \<and>
     (\<forall>r \<in> set (terminals (sv_db t)). t_session r = ''s1'' \<longrightarrow> \<not> t_online r)"
  using row_offline_while_online [OF _ demo_ended_facts(2,3,4) _ _ _ demo_ended_facts(5), of _ 9 10 10 10 True]
    demo_ended_facts(1) by fastforce

end
