(* ===== verification/GoStrings.thy ===== *)
theory GoStrings
  imports Prelude
begin

text \<open>
  The functions of Go's \<open>strings\<close> and \<open>strconv\<close> packages that the client and the admin tool use on
  texts of the system (\<open>/proc\<close>, \<open>/sys\<close>, \<open>/etc\<close>) and of the command line: \<open>TrimSpace\<close>, \<open>Fields\<close>,
  \<open>Split\<close>, \<open>Cut\<close>, \<open>HasPrefix\<close>, \<open>TrimPrefix\<close>, \<open>TrimSuffix\<close>, \<open>ReplaceAll\<close>, \<open>Atoi\<close>, \<open>ParseUint\<close>.

  White space is \<open>unicode.IsSpace\<close>. The code points above ASCII appear as their UTF-8 encodings;
  because a first byte of an encoding never occurs inside another encoding, looking for these byte
  sequences at each position finds the runes that Go's decoder finds, in malformed text too.
\<close>

section \<open>White space\<close>

definition space_codes :: "nat list list" where
  "space_codes = [[9], [10], [11], [12], [13], [32], [0xC2, 0x85], [0xC2, 0xA0], [0xE1, 0x9A, 0x80],
     [0xE2, 0x80, 0x80], [0xE2, 0x80, 0x81], [0xE2, 0x80, 0x82], [0xE2, 0x80, 0x83],
     [0xE2, 0x80, 0x84], [0xE2, 0x80, 0x85], [0xE2, 0x80, 0x86], [0xE2, 0x80, 0x87],
     [0xE2, 0x80, 0x88], [0xE2, 0x80, 0x89], [0xE2, 0x80, 0x8A], [0xE2, 0x80, 0xA8],
     [0xE2, 0x80, 0xA9], [0xE2, 0x80, 0xAF], [0xE2, 0x81, 0x9F], [0xE3, 0x80, 0x80]]"

definition space_runes :: "string list" where
  "space_runes = map (map byte_char) space_codes"

text \<open>The length of the member of \<open>ps\<close> that \<open>s\<close> begins with; 0 when there is none.\<close>

definition lead_len :: "string list \<Rightarrow> string \<Rightarrow> nat" where
  "lead_len ps s = (case find (\<lambda>p. take (length p) s = p) ps of None \<Rightarrow> 0 | Some p \<Rightarrow> length p)"

fun skip_lead :: "string list \<Rightarrow> string \<Rightarrow> string" where
  "skip_lead ps [] = []"
| "skip_lead ps (c # s) =
     (if lead_len ps (c # s) = 0 then c # s else skip_lead ps (drop (lead_len ps (c # s) - 1) s))"

definition TrimSpace :: "string \<Rightarrow> string" where
  "TrimSpace s = rev (skip_lead (map rev space_runes) (rev (skip_lead space_runes s)))"

text \<open>\<open>strings.Fields\<close>; \<open>w\<close> is the word being read, backwards.\<close>

fun fields_loop :: "string \<Rightarrow> string \<Rightarrow> string list" where
  "fields_loop w [] = (if w = [] then [] else [rev w])"
| "fields_loop w (c # s) =
     (if lead_len space_runes (c # s) = 0 then fields_loop (c # w) s
      else (if w = [] then [] else [rev w]) @
           fields_loop [] (drop (lead_len space_runes (c # s) - 1) s))"

definition Fields :: "string \<Rightarrow> string list" where
  "Fields s = fields_loop [] s"

section \<open>Splitting and replacing\<close>

text \<open>\<open>strings.Split\<close> and \<open>strings.Cut\<close> for a separator of one byte.\<close>

fun Split :: "char \<Rightarrow> string \<Rightarrow> string list" where
  "Split c [] = [[]]"
| "Split c (x # xs) =
     (if x = c then [] # Split c xs else (case Split c xs of [] \<Rightarrow> [[x]] | l # ls \<Rightarrow> (x # l) # ls))"

fun Cut :: "char \<Rightarrow> string \<Rightarrow> (string \<times> string) option" where
  "Cut c [] = None"
| "Cut c (x # xs) =
     (if x = c then Some ([], xs) else map_option (\<lambda>(a, b). (x # a, b)) (Cut c xs))"

definition HasPrefix :: "string \<Rightarrow> string \<Rightarrow> bool" where
  [go_defs]: "HasPrefix s p \<longleftrightarrow> take (length p) s = p"

definition TrimPrefix :: "string \<Rightarrow> string \<Rightarrow> string" where
  [go_defs]: "TrimPrefix s p = (if HasPrefix s p then drop (length p) s else s)"

definition TrimSuffix :: "string \<Rightarrow> string \<Rightarrow> string" where
  [go_defs]: "TrimSuffix s p = (if length p \<le> length s \<and> drop (length s - length p) s = p
     then take (length s - length p) s else s)"

text \<open>\<open>strings.ReplaceAll\<close> for a text of one byte.\<close>

definition replace_byte :: "char \<Rightarrow> string \<Rightarrow> string \<Rightarrow> string" where
  "replace_byte c new s = concat (map (\<lambda>x. if x = c then new else [x]) s)"

section \<open>Numbers\<close>

definition digit_val :: "char \<Rightarrow> nat option" where
  "digit_val c = (if 48 \<le> byte_of c \<and> byte_of c \<le> 57 then Some (byte_of c - 48) else None)"

fun digits_value :: "nat \<Rightarrow> string \<Rightarrow> nat option" where
  "digits_value n [] = Some n"
| "digits_value n (c # s) = (case digit_val c of None \<Rightarrow> None | Some d \<Rightarrow> digits_value (10 * n + d) s)"

definition unsigned_value :: "string \<Rightarrow> nat option" where
  "unsigned_value s = (if s = [] then None else digits_value 0 s)"

text \<open>\<open>strconv.ParseUint(s, 10, 64)\<close> and \<open>strconv.Atoi\<close>; \<open>None\<close> is an error (syntax or range).\<close>

definition ParseUint :: "string \<Rightarrow> uint64 option" where
  "ParseUint s = (case unsigned_value s of
      None \<Rightarrow> None | Some n \<Rightarrow> if n < 2 ^ 64 then Some (of_nat n) else None)"

definition Atoi :: "string \<Rightarrow> int option" where
  "Atoi s = (let neg = (s \<noteq> [] \<and> hd s = CHR ''-''); plus = (s \<noteq> [] \<and> hd s = CHR ''+'')
     in case unsigned_value (if neg \<or> plus then tl s else s) of
          None \<Rightarrow> None
        | Some n \<Rightarrow> let k = (if neg then - int n else int n)
            in if - (2 ^ 63) \<le> k \<and> k < 2 ^ 63 then Some k else None)"

section \<open>Lemmas on splitting\<close>

lemma Split_not_Nil [simp]: "Split c s \<noteq> []"
  by (induction s) (auto split: list.splits)

lemma join_with_Cons: "ls \<noteq> [] \<Longrightarrow> join_with sep (l # ls) = l @ sep @ join_with sep ls"
  by (cases ls) auto

lemma join_Split: "join_with [c] (Split c s) = s"
proof (induction s)
  case (Cons x s)
  then show ?case
    by (cases "Split c s"; cases "tl (Split c s)") (auto simp: join_with_Cons)
qed simp

lemma Split_free: "c \<notin> set l \<Longrightarrow> Split c l = [l]"
  by (induction l) auto

lemma Split_append: "c \<notin> set l \<Longrightarrow> Split c (l @ c # s) = l # Split c s"
  by (induction l) auto

lemma Split_join: "ls \<noteq> [] \<Longrightarrow> \<forall>l \<in> set ls. c \<notin> set l \<Longrightarrow> Split c (join_with [c] ls) = ls"
  by (induction "[c]" ls rule: join_with.induct) (auto simp: Split_free Split_append)

lemma Split_parts: "l \<in> set (Split c s) \<Longrightarrow> c \<notin> set l"
  by (induction s arbitrary: l) (auto split: list.splits if_splits)

lemma Cut_append: "c \<notin> set a \<Longrightarrow> Cut c (a @ c # b) = Some (a, b)"
  by (induction a) auto

lemma Cut_None_iff: "Cut c s = None \<longleftrightarrow> c \<notin> set s"
  by (induction s) auto

lemma Cut_SomeD: "Cut c s = Some (a, b) \<Longrightarrow> s = a @ c # b \<and> c \<notin> set a"
  by (induction s arbitrary: a) (auto split: if_splits)

section \<open>Lemmas on numbers\<close>

lemma digit_val_digit_char [simp]: "digit_val (digit_char n) = Some (n mod 10)"
  by (simp add: digit_val_def byte_of_digit_char del: digit_char.simps)

lemma digits_value_append: "digits_value n (s @ t) =
    (case digits_value n s of None \<Rightarrow> None | Some m \<Rightarrow> digits_value m t)"
  by (induction s arbitrary: n) (auto split: option.split)

lemma digits_value_show: "digits_value 0 (show_nat k) = Some k"
proof (induction k rule: show_nat.induct)
  case (1 n)
  then show ?case
    by (cases "n < 10"; subst show_nat.simps)
      (simp_all add: digits_value_append del: digit_char.simps)
qed

lemma show_nat_not_Nil [simp]: "show_nat n \<noteq> []"
  by (subst show_nat.simps) simp

lemma show_nat_digits: "c \<in> set (show_nat n) \<Longrightarrow> \<exists>d. digit_val c = Some d"
proof (induction n rule: show_nat.induct)
  case (1 n)
  have "c = digit_char n \<or> (\<not> n < 10 \<and> c \<in> set (show_nat (n div 10)))"
    using 1(2) by (subst (asm) show_nat.simps) (auto split: if_splits simp del: digit_char.simps)
  then show ?case using 1(1) by (auto simp del: digit_char.simps)
qed

lemma unsigned_value_show [simp]: "unsigned_value (show_nat n) = Some n"
  by (simp add: unsigned_value_def digits_value_show)

lemma ParseUint_show: "n < 2 ^ 64 \<Longrightarrow> ParseUint (show_nat n) = Some (of_nat n)"
  by (simp add: ParseUint_def)

lemma sign_not_digit: "digit_val CHR ''-'' = None" "digit_val CHR ''+'' = None"
  by (simp_all add: digit_val_def byte_of_def)

lemma hd_show_nat: "hd (show_nat n) \<noteq> CHR ''-''" "hd (show_nat n) \<noteq> CHR ''+''"
  using show_nat_digits [of "hd (show_nat n)" n] sign_not_digit by auto

lemma Atoi_show: "- (2 ^ 63) \<le> k \<Longrightarrow> k < 2 ^ 63 \<Longrightarrow> Atoi (show_int k) = Some k"
  using hd_show_nat [of "nat k"] by (simp add: Atoi_def show_int_def)

lemma Atoi_range: "Atoi s = Some k \<Longrightarrow> - (2 ^ 63) \<le> k \<and> k < 2 ^ 63"
  by (simp add: Atoi_def Let_def split: option.splits if_splits)

section \<open>Lemmas on white space\<close>

text \<open>The printable ASCII characters other than the blank.\<close>

definition graphic :: "char \<Rightarrow> bool" where
  "graphic c \<longleftrightarrow> 33 \<le> byte_of c \<and> byte_of c \<le> 126"

definition space_code_ok :: "nat list \<Rightarrow> bool" where
  "space_code_ok q \<longleftrightarrow> q \<noteq> [] \<and> (\<forall>n \<in> set q. n < 256) \<and> (hd q < 33 \<or> 126 < hd q) \<and>
     (last q < 33 \<or> 126 < last q) \<and> (\<forall>n \<in> {9, 10, 32}. hd q = n \<or> last q = n \<longrightarrow> q = [n])"

lemma space_codes_facts: "q \<in> set space_codes \<Longrightarrow> space_code_ok q"
proof -
  have "list_all space_code_ok space_codes" by (simp add: space_codes_def space_code_ok_def)
  then show "q \<in> set space_codes \<Longrightarrow> space_code_ok q" by (simp add: list_all_iff)
qed

lemma space_runes_code: "p \<in> set space_runes \<Longrightarrow> \<exists>q \<in> set space_codes. p = map byte_char q"
  by (auto simp: space_runes_def)

lemma space_runes_heads:
  "\<forall>p \<in> set space_runes. p \<noteq> [] \<and> \<not> graphic (hd p) \<and> \<not> graphic (hd (rev p))"
proof
  fix p
  assume "p \<in> set space_runes"
  then obtain q where q: "q \<in> set space_codes" "p = map byte_char q" using space_runes_code by blast
  have f: "q \<noteq> []" "\<forall>n \<in> set q. n < 256" "hd q < 33 \<or> 126 < hd q" "last q < 33 \<or> 126 < last q"
    using space_codes_facts [OF q(1)] by (simp_all add: space_code_ok_def)
  have "hd q < 256" "last q < 256" using f(1,2) by simp_all
  then show "p \<noteq> [] \<and> \<not> graphic (hd p) \<and> \<not> graphic (hd (rev p))"
    using f(1,3,4) by (auto simp: q(2) hd_map hd_rev last_map graphic_def simp flip: rev_map)
qed

lemma lead_len_graphic:
  assumes "graphic c" "\<forall>p \<in> set ps. p \<noteq> [] \<and> \<not> graphic (hd p)"
  shows "lead_len ps (c # s) = 0"
proof -
  have "take (length p) (c # s) \<noteq> p" if "p \<in> set ps" for p
  proof
    assume "take (length p) (c # s) = p"
    then have "hd p = c" using assms(2) that by (cases p) auto
    with assms that show False by auto
  qed
  then have "find (\<lambda>p. take (length p) (c # s) = p) ps = None" by (simp add: find_None_iff)
  then show ?thesis by (simp add: lead_len_def)
qed

lemma skip_lead_graphic:
  "graphic c \<Longrightarrow> skip_lead space_runes (c # s) = c # s"
  "graphic c \<Longrightarrow> skip_lead (map rev space_runes) (c # s) = c # s"
  using space_runes_heads by (simp_all add: lead_len_graphic)

lemma lead_len_single:
  assumes "[c] \<in> set ps" "\<forall>p \<in> set ps. p \<noteq> [] \<and> (hd p = c \<longrightarrow> p = [c])"
  shows "lead_len ps (c # s) = 1"
proof (cases "find (\<lambda>p. take (length p) (c # s) = p) ps")
  case None
  then show ?thesis using assms(1) by (auto simp: find_None_iff)
next
  case (Some p)
  then have "p \<in> set ps" "take (length p) (c # s) = p" by (auto simp: find_Some_iff)
  then have "p \<noteq> []" "hd p = c \<longrightarrow> p = [c]" "take (length p) (c # s) = p" using assms(2) by blast+
  then have "p = [c]" by (cases p) auto
  with Some show ?thesis by (simp add: lead_len_def)
qed

lemma byte_char_eq_iff: "byte_char a = byte_char b \<longleftrightarrow> a mod 256 = b mod 256"
  by (metis byte_of_byte_char byte_of_eq_iff)

lemma space_runes_single:
  assumes "c \<in> {CHR '' '', CHR 0x0A, CHR 0x09}"
  shows "[c] \<in> set space_runes \<and> (\<forall>p \<in> set space_runes. (hd p = c \<longrightarrow> p = [c]) \<and> (last p = c \<longrightarrow> p = [c]))"
proof -
  have "CHR '' '' = byte_char 32" "CHR 0x0A = byte_char 10" "CHR 0x09 = byte_char 9"
    by (rule byte_of_eqD; simp add: byte_of_def)+
  then obtain n where n: "c = byte_char n" "n \<in> {9, 10, 32}" using assms by auto
  have "[n] \<in> set space_codes" using n(2) by (auto simp: space_codes_def)
  then have "[c] \<in> set space_runes" by (force simp: space_runes_def n(1))
  moreover have "(hd p = c \<longrightarrow> p = [c]) \<and> (last p = c \<longrightarrow> p = [c])" if p: "p \<in> set space_runes" for p
  proof -
    obtain q where q: "q \<in> set space_codes" "p = map byte_char q" using space_runes_code [OF p] by blast
    have f: "q \<noteq> []" "\<forall>n \<in> set q. n < 256" "\<forall>n \<in> {9, 10, 32}. hd q = n \<or> last q = n \<longrightarrow> q = [n]"
      using space_codes_facts [OF q(1)] by (simp_all add: space_code_ok_def)
    have "hd q < 256" "last q < 256" "n < 256" using f(1,2) n(2) by auto
    then have "hd p = c \<longrightarrow> hd q = n" "last p = c \<longrightarrow> last q = n"
      using f(1) by (simp_all add: q(2) n(1) hd_map last_map byte_char_eq_iff)
    moreover have "q = [n] \<longrightarrow> p = [c]" by (simp add: q(2) n(1))
    ultimately show ?thesis using bspec [OF f(3) n(2)] by blast
  qed
  ultimately show ?thesis by blast
qed

lemma lead_len_space:
  assumes "c \<in> {CHR '' '', CHR 0x0A, CHR 0x09}"
  shows "lead_len space_runes (c # s) = 1" "lead_len (map rev space_runes) (c # s) = 1"
proof -
  have s: "[c] \<in> set space_runes" "p \<in> set space_runes \<Longrightarrow> p \<noteq> []"
    "p \<in> set space_runes \<Longrightarrow> hd p = c \<longrightarrow> p = [c]" "p \<in> set space_runes \<Longrightarrow> last p = c \<longrightarrow> p = [c]" for p
    using space_runes_single [OF assms] space_runes_heads by blast+
  show "lead_len space_runes (c # s) = 1" using s by (intro lead_len_single) blast+
  have "p \<noteq> [] \<and> (hd p = c \<longrightarrow> p = [c])" if p: "p \<in> set (map rev space_runes)" for p
  proof -
    obtain q where q: "q \<in> set space_runes" "p = rev q" using p by auto
    then show ?thesis using s(2,4) [OF q(1)] by (metis hd_rev rev_is_Nil_conv rev_singleton_conv)
  qed
  moreover have "[c] \<in> set (map rev space_runes)" using s(1) by (metis image_eqI image_set rev_singleton_conv)
  ultimately show "lead_len (map rev space_runes) (c # s) = 1" by (intro lead_len_single) blast+
qed

lemmas lead_len_blank = lead_len_space [of "CHR '' ''", simplified]

lemma skip_lead_blanks: "skip_lead space_runes (replicate n (CHR '' '') @ s) = skip_lead space_runes s"
  "skip_lead (map rev space_runes) (replicate n (CHR '' '') @ s) = skip_lead (map rev space_runes) s"
  by (induction n) (simp_all add: lead_len_blank)

lemma TrimSpace_text:
  assumes "s = [] \<or> graphic (hd s) \<and> graphic (last s)"
  shows "TrimSpace (replicate m (CHR '' '') @ s @ replicate n (CHR '' '')) = s"
proof (cases "s = []")
  case True
  then show ?thesis
    using skip_lead_blanks(1) [of "m + n" "[]"] by (simp add: TrimSpace_def replicate_add)
next
  case False
  obtain a s' where a: "s = a # s'" using False by (cases s) auto
  have "skip_lead space_runes (replicate m (CHR '' '') @ s @ replicate n (CHR '' '')) =
      s @ replicate n (CHR '' '')"
    using assms a by (simp add: skip_lead_blanks skip_lead_graphic del: skip_lead.simps)
  moreover obtain z s'' where z: "rev s = z # s''" "z = last s"
    using False by (metis hd_rev list.exhaust_sel rev_is_Nil_conv)
  moreover have "graphic z" using assms False z(2) by simp
  moreover have "skip_lead (map rev space_runes) (rev s) = rev s"
    unfolding z(1) by (rule skip_lead_graphic) fact
  ultimately have "TrimSpace (replicate m (CHR '' '') @ s @ replicate n (CHR '' '')) = rev (rev s)"
    by (simp add: TrimSpace_def skip_lead_blanks)
  then show ?thesis by simp
qed

lemmas TrimSpace_tight = TrimSpace_text [of _ 0 0, simplified]

lemma fields_loop_word: "\<forall>c \<in> set x. graphic c \<Longrightarrow> fields_loop w (x @ s) = fields_loop (rev x @ w) s"
  using space_runes_heads by (induction x arbitrary: w) (simp_all add: lead_len_graphic)

text \<open>\<open>Fields\<close> undoes a join with blanks.\<close>

lemma Fields_join:
  "\<forall>x \<in> set ws. x \<noteq> [] \<and> (\<forall>c \<in> set x. graphic c) \<Longrightarrow> Fields (join_with '' '' ws) = ws"
proof (induction "'' ''" ws rule: join_with.induct)
  case (2 x)
  then show ?case using fields_loop_word [of x "[]" "[]"] by (simp add: Fields_def)
next
  case (3 x y ys)
  have "Fields (join_with '' '' (x # y # ys)) = x # Fields (join_with '' '' (y # ys))"
    using 3(2) fields_loop_word [of x "[]" "'' '' @ join_with '' '' (y # ys)"]
    by (simp add: Fields_def lead_len_blank)
  then show ?case using 3 by simp
qed (simp add: Fields_def)

end
