(* ===== verification/Host.thy ===== *)
theory Host
  imports GoStrings Proto
begin

text \<open>
  The machine that the client runs on, as the client's code sees it through the operating system:
  the content of the files it opens, the directory listings, the capacity of a mounted file
  system, the network interfaces. What a call answers is a field, a failed call is \<open>None\<close>.
\<close>

record iface_addr =
  ad_text :: string
  ad_ip :: "string option"
  ad_global_unicast :: bool

record net_iface =
  if_name :: string
  if_mac :: string
  if_loopback :: bool
  if_up :: bool
  if_addrs :: "iface_addr list option"

record fs_stat =
  fs_bsize :: int64
  fs_blocks :: uint64
  fs_bfree :: uint64

record host =
  ho_goos :: string
  ho_goarch :: string
  ho_hostname :: "string option"
  ho_file :: "string \<Rightarrow> string option"
  ho_dir :: "string \<Rightarrow> string list option"
  ho_exists :: "string \<Rightarrow> bool"
  ho_writable :: bool
  ho_home :: "string option"
  ho_temp :: string
  ho_ifaces :: "net_iface list option"
  ho_statfs :: "string \<Rightarrow> fs_stat option"
  ho_parse_cidr :: "string \<Rightarrow> string option"
  ho_parse_ip :: "string \<Rightarrow> string option"

text \<open>
  \<open>ad_ip\<close> is the text of the IP of an address that is an \<open>IPNet\<close>; \<open>ho_parse_cidr\<close> and
  \<open>ho_parse_ip\<close> give the canonical text of the address that the \<open>net\<close> package reads from a text.
\<close>

text \<open>Reading a small file of \<open>/sys\<close>: absent or unreadable is the empty text.\<close>

definition readFile :: "host \<Rightarrow> string \<Rightarrow> string" where
  "readFile h path = (case ho_file h path of None \<Rightarrow> [] | Some data \<Rightarrow> TrimSpace data)"

definition newline :: char where "newline = CHR 0x0A"

abbreviation text_lines :: "string \<Rightarrow> string list" where
  "text_lines s \<equiv> Split newline s"

end
