(* ===== verification/Sha256.thy ===== *)
theory Sha256
  imports Prelude
begin

unbundle bit_operations_syntax

text \<open>
  \<open>crypto/sha256.Sum256\<close> and its hexadecimal text (\<open>fmt.Sprintf("%x")\<close>, \<open>hex.EncodeToString\<close>), as
  the device fingerprint and the report cache use them: the compression function on 32-bit words,
  the message schedule, the padding, and the digest. The lemmas give the shape of the result: 64
  lower-case hexadecimal digits for every input.
\<close>

type_synonym chain = "int32 \<times> int32 \<times> int32 \<times> int32 \<times> int32 \<times> int32 \<times> int32 \<times> int32"

text \<open>
  The constants are the first 32 bits of the fractional parts of the cube roots of the first 64
  primes, the initial state those of the square roots of the first 8; a root is built from its
  highest bit downwards.
\<close>

definition first_primes :: "nat list" where
  "first_primes = filter (\<lambda>n. list_all (\<lambda>d. n mod d \<noteq> 0) [2..<n]) [2..<312]"

definition int_root :: "nat \<Rightarrow> nat \<Rightarrow> nat" where
  "int_root k n = foldl (\<lambda>r i. if (r + 2 ^ i) ^ k \<le> n then r + 2 ^ i else r) 0 (rev [0..<40])"

definition root_fraction :: "nat \<Rightarrow> nat \<Rightarrow> int32" where
  "root_fraction k p = of_nat (int_root k (p * 2 ^ (32 * k)))"

definition K256 :: "int32 list" where
  "K256 = map (root_fraction 3) first_primes"

definition initial_chain :: chain where
  "initial_chain = (case map (root_fraction 2) first_primes of
      a # b # c # d # e # f # g # h # _ \<Rightarrow> (a, b, c, d, e, f, g, h))"

definition small_sigma0 :: "int32 \<Rightarrow> int32" where
  "small_sigma0 x = word_rotr 7 x XOR word_rotr 18 x XOR drop_bit 3 x"

definition small_sigma1 :: "int32 \<Rightarrow> int32" where
  "small_sigma1 x = word_rotr 17 x XOR word_rotr 19 x XOR drop_bit 10 x"

definition big_sigma0 :: "int32 \<Rightarrow> int32" where
  "big_sigma0 x = word_rotr 2 x XOR word_rotr 13 x XOR word_rotr 22 x"

definition big_sigma1 :: "int32 \<Rightarrow> int32" where
  "big_sigma1 x = word_rotr 6 x XOR word_rotr 11 x XOR word_rotr 25 x"

definition sha_ch :: "int32 \<Rightarrow> int32 \<Rightarrow> int32 \<Rightarrow> int32" where
  "sha_ch x y z = (x AND y) XOR (NOT x AND z)"

definition sha_maj :: "int32 \<Rightarrow> int32 \<Rightarrow> int32 \<Rightarrow> int32" where
  "sha_maj x y z = (x AND y) XOR (x AND z) XOR (y AND z)"

text \<open>The schedule is kept backwards: the newest word first.\<close>

definition schedule_step :: "int32 list \<Rightarrow> int32 list" where
  "schedule_step w =
     (small_sigma1 (w ! 1) + w ! 6 + small_sigma0 (w ! 14) + w ! 15) # w"

definition schedule :: "int32 list \<Rightarrow> int32 list" where
  "schedule block = rev ((schedule_step ^^ 48) (rev block))"

fun round_step :: "chain \<Rightarrow> int32 \<times> int32 \<Rightarrow> chain" where
  "round_step (a, b, c, d, e, f, g, h) (k, w) =
     (let t1 = h + big_sigma1 e + sha_ch e f g + k + w;
          t2 = big_sigma0 a + sha_maj a b c
      in (t1 + t2, a, b, c, d + t1, e, f, g))"

fun add_chain :: "chain \<Rightarrow> chain \<Rightarrow> chain" where
  "add_chain (a, b, c, d, e, f, g, h) (a', b', c', d', e', f', g', h') =
     (a + a', b + b', c + c', d + d', e + e', f + f', g + g', h + h')"

definition compress_block :: "chain \<Rightarrow> int32 list \<Rightarrow> chain" where
  "compress_block c block = add_chain c (foldl round_step c (zip K256 (schedule block)))"

text \<open>The padding: a one bit, zeros up to 56 bytes modulo 64, the length in bits as 8 bytes.\<close>

definition be_bytes :: "nat \<Rightarrow> nat \<Rightarrow> nat list" where
  "be_bytes k n = map (\<lambda>i. n div 256 ^ (k - Suc i) mod 256) [0..<k]"

definition padded :: "string \<Rightarrow> nat list" where
  "padded s = map byte_of s @ [128] @ replicate ((119 - length s mod 64) mod 64) 0 @
     be_bytes 8 (8 * length s)"

fun be_words :: "nat list \<Rightarrow> int32 list" where
  "be_words (a # b # c # d # bs) =
     of_nat (a * 2 ^ 24 + b * 2 ^ 16 + c * 2 ^ 8 + d) # be_words bs"
| "be_words _ = []"

function compress_all :: "chain \<Rightarrow> int32 list \<Rightarrow> chain" where
  "compress_all c ws = (if length ws < 16 then c
     else compress_all (compress_block c (take 16 ws)) (drop 16 ws))"
  by pat_completeness auto
termination by (relation "measure (length \<circ> snd)") auto

declare compress_all.simps [simp del]

fun chain_bytes :: "chain \<Rightarrow> nat list" where
  "chain_bytes (a, b, c, d, e, f, g, h) =
     concat (map (\<lambda>w. be_bytes 4 (unat w)) [a, b, c, d, e, f, g, h])"

definition Sum256 :: "string \<Rightarrow> nat list" where
  "Sum256 s = chain_bytes (compress_all initial_chain (be_words (padded s)))"

definition hex_digits :: string where
  "hex_digits = ''0123456789abcdef''"

definition hex_digit :: "nat \<Rightarrow> char" where
  "hex_digit n = hex_digits ! (n mod 16)"

definition EncodeToString :: "nat list \<Rightarrow> string" where
  "EncodeToString bs = concat (map (\<lambda>b. [hex_digit (b div 16), hex_digit b]) bs)"

text \<open>\<open>sha256Hex\<close> of \<open>fingerprint.go\<close>.\<close>

definition sha256Hex :: "string \<Rightarrow> string" where
  "sha256Hex s = EncodeToString (Sum256 s)"

section \<open>The shape of a digest\<close>

definition hex_text :: "string \<Rightarrow> bool" where
  "hex_text s \<longleftrightarrow> set s \<subseteq> set hex_digits"

lemma hex_digit_in: "hex_digit n \<in> set hex_digits"
  unfolding hex_digit_def by (rule nth_mem) (simp add: hex_digits_def)

lemma length_Sum256 [simp]: "length (Sum256 s) = 32"
proof -
  obtain a b c d e f g h where "compress_all initial_chain (be_words (padded s)) = (a, b, c, d, e, f, g, h)"
    by (cases "compress_all initial_chain (be_words (padded s))") auto
  then show ?thesis by (simp add: Sum256_def be_bytes_def)
qed

lemma length_EncodeToString [simp]: "length (EncodeToString bs) = 2 * length bs"
  by (induction bs) (simp_all add: EncodeToString_def)

lemma EncodeToString_hex: "hex_text (EncodeToString bs)"
  by (auto simp: hex_text_def EncodeToString_def hex_digit_in)

lemma length_sha256Hex [simp]: "length (sha256Hex s) = 64"
  by (simp add: sha256Hex_def)

lemma sha256Hex_hex: "hex_text (sha256Hex s)"
  by (simp add: sha256Hex_def EncodeToString_hex)

lemma sha256Hex_not_Nil [simp]: "sha256Hex s \<noteq> []"
  using length_sha256Hex [of s] by (metis list.size(3) zero_neq_numeral)

lemma length_padded: "64 dvd length (padded s)"
proof -
  define r where "r = length s mod 64"
  define m where "m = (119 - r) mod 64"
  obtain q where r: "length s = 64 * q + r" "r < 64"
    using mult_div_mod_eq [of 64 "length s"] by (metis r_def mod_less_divisor zero_less_numeral)
  have "(119 - r) mod 64 = (if r \<le> 55 then 55 - r else 119 - r)"
    using r(2) by (simp add: le_mod_geq)
  then have "\<exists>k. r + 1 + (119 - r) mod 64 + 8 = 64 * k"
    using r(2) by (cases "r \<le> 55") (auto intro: exI [of _ 1] exI [of _ 2])
  then obtain k where "r + 1 + m + 8 = 64 * k" unfolding m_def ..
  moreover have "length (padded s) = length s + 1 + m + 8"
    by (simp add: padded_def be_bytes_def r_def m_def)
  ultimately have "length (padded s) = 64 * q + 64 * k" using r(1) by linarith
  then have "length (padded s) = 64 * (q + k)" by (simp only: distrib_left)
  then show ?thesis by simp
qed

lemma hex_digit_eq: "hex_digit a = hex_digit b \<Longrightarrow> a mod 16 = b mod 16"
proof -
  have "distinct hex_digits" "length hex_digits = 16" by (simp_all add: hex_digits_def)
  then show "hex_digit a = hex_digit b \<Longrightarrow> a mod 16 = b mod 16"
    by (simp add: hex_digit_def nth_eq_iff_index_eq)
qed

lemma EncodeToString_inj:
  "\<forall>x \<in> set a \<union> set b. x < 256 \<Longrightarrow> EncodeToString a = EncodeToString b \<Longrightarrow> a = b"
proof (induction a arbitrary: b)
  case Nil
  then show ?case by (cases b) (simp_all add: EncodeToString_def)
next
  case (Cons x a)
  then obtain y b' where b: "b = y # b'" by (cases b) (simp_all add: EncodeToString_def)
  have "hex_digit (x div 16) = hex_digit (y div 16)" "hex_digit x = hex_digit y"
    "EncodeToString a = EncodeToString b'"
    using Cons.prems(2) by (simp_all add: b EncodeToString_def)
  moreover have "x < 256" "y < 256" using Cons.prems(1) by (simp_all add: b)
  ultimately have "x div 16 = y div 16" "x mod 16 = y mod 16"
    using hex_digit_eq [of "x div 16" "y div 16"] hex_digit_eq [of x y] by simp_all
  then have "x = y" by (metis mult_div_mod_eq)
  moreover have "a = b'" using Cons.IH [of b'] Cons.prems(1) \<open>EncodeToString a = EncodeToString b'\<close>
    by (simp add: b)
  ultimately show ?case by (simp add: b)
qed

lemma Sum256_bytes: "x \<in> set (Sum256 s) \<Longrightarrow> x < 256"
  by (cases "compress_all initial_chain (be_words (padded s))")
    (auto simp: Sum256_def be_bytes_def)

lemma hash_digest: "EncodeToString (Sum256 a) = EncodeToString (Sum256 b) \<longleftrightarrow> Sum256 a = Sum256 b"
proof -
  have "\<forall>x \<in> set (Sum256 a) \<union> set (Sum256 b). x < 256" by (auto dest: Sum256_bytes)
  then show ?thesis using EncodeToString_inj by auto
qed

end
