(* ===== verification/Fingerprint.thy ===== *)
theory Fingerprint
  imports Host Sha256
begin

text \<open>
  The identity of a terminal: the device fingerprint (\<open>fingerprint.go\<close>, \<open>fingerprint_linux.go\<close>,
  \<open>fingerprint_windows.go\<close>) and the system information of the handshake (\<open>sysinfo*.go\<close>). The
  lemmas state what a device id looks like and that the cached id is found again.
\<close>

section \<open>Which sources are valid\<close>

definition isAll :: "string \<Rightarrow> char \<Rightarrow> bool" where
  "isAll s ch \<longleftrightarrow> (\<forall>c \<in> set s. c = ch) \<and> 0 < length s"

definition upper_char :: "char \<Rightarrow> char" where
  "upper_char c = (if 97 \<le> byte_of c \<and> byte_of c \<le> 122 then byte_char (byte_of c - 32) else c)"

text \<open>
  \<open>strings.ToUpper\<close>, as far as a comparison with an ASCII text can tell: besides the letters a to z
  only the runes U+017F and U+0131 have an ASCII upper case; all other runes above ASCII are
  mapped to runes above ASCII and are left as they are here.
\<close>

fun upper_text :: "string \<Rightarrow> string" where
  "upper_text [] = []"
| "upper_text [a] = [upper_char a]"
| "upper_text (a # b # s) =
     (if byte_of a = 0xC5 \<and> byte_of b = 0xBF then CHR ''S'' # upper_text s
      else if byte_of a = 0xC4 \<and> byte_of b = 0xB1 then CHR ''I'' # upper_text s
      else upper_char a # upper_text (b # s))"

definition filler_texts :: "string list" where
  "filler_texts = [''NOT SPECIFIED'', ''TO BE FILLED BY O.E.M.'', ''TO BE FILLED BY OEM'', ''NONE'',
     ''UNKNOWN'', ''DEFAULT STRING'', ''00000000-0000-0000-0000-000000000000'']"

definition isInvalidDeviceSource :: "string \<Rightarrow> bool" where
  "isInvalidDeviceSource s \<longleftrightarrow>
     (let u = upper_text s in isAll u (CHR ''0'') \<or> isAll u (CHR ''F'') \<or> u \<in> set filler_texts)"

definition valid_sources :: "string list \<Rightarrow> string list" where
  "valid_sources ss = filter (\<lambda>s. s \<noteq> [] \<and> \<not> isInvalidDeviceSource s) (map TrimSpace ss)"

section \<open>The sources on Linux and Windows\<close>

definition virtual_iface :: "string \<Rightarrow> bool" where
  "virtual_iface name \<longleftrightarrow> name = ''lo'' \<or> HasPrefix name ''docker'' \<or> HasPrefix name ''veth'' \<or>
     HasPrefix name ''virbr'' \<or> HasPrefix name ''br-'' \<or> HasPrefix name ''wg''"

fun mac_loop :: "host \<Rightarrow> string list \<Rightarrow> string \<Rightarrow> string" where
  "mac_loop h [] fallback = fallback"
| "mac_loop h (name # names) fallback =
     (if virtual_iface name then mac_loop h names fallback
      else let addr = readFile h (''/sys/class/net/'' @ name @ ''/address'') in
        if addr = [] then mac_loop h names fallback
        else if ho_exists h (''/sys/class/net/'' @ name @ ''/device'') then addr
        else mac_loop h names (if fallback = [] then addr else fallback))"

definition primaryMAC :: "host \<Rightarrow> string" where
  "primaryMAC h = (case ho_dir h ''/sys/class/net'' of
      None \<Rightarrow> [] | Some names \<Rightarrow> mac_loop h names [])"

definition systemDiskSerial :: "host \<Rightarrow> string" where
  "systemDiskSerial h =
     (case find (\<lambda>s. s \<noteq> []) (map (\<lambda>dev. readFile h (''/sys/block/'' @ dev @ ''/device/serial''))
        [''sda'', ''vda'', ''nvme0n1'', ''hda'']) of None \<Rightarrow> [] | Some s \<Rightarrow> s)"

definition collectHardwareSources :: "host \<Rightarrow> string list" where
  "collectHardwareSources h =
     [readFile h ''/sys/class/dmi/id/product_uuid'', readFile h ''/etc/machine-id'',
      primaryMAC h, systemDiskSerial h]"

definition collectHardwareSources_windows :: "host \<Rightarrow> string list" where
  "collectHardwareSources_windows h = []"

definition hostnameKernelFallback :: "host \<Rightarrow> string" where
  "hostnameKernelFallback h =
     (let host = (case ho_hostname h of None \<Rightarrow> ''unknown'' | Some n \<Rightarrow> n);
          kernel = readFile h ''/proc/version''
      in host @ ''|'' @ (if kernel = [] then ''unknown'' else kernel))"

definition hostnameKernelFallback_windows :: "host \<Rightarrow> string" where
  "hostnameKernelFallback_windows h =
     (case ho_hostname h of None \<Rightarrow> ''unknown'' | Some n \<Rightarrow> n) @ ''|windows''"

section \<open>The device id\<close>

text \<open>\<open>filepath.Join\<close> for a home directory whose path is already clean.\<close>

definition deviceIDCachePath :: "host \<Rightarrow> string" where
  "deviceIDCachePath h =
     (case ho_home h of Some home \<Rightarrow> home | None \<Rightarrow> ho_temp h) @ ''/.teamx/device_id''"

definition fresh_device_id :: "host \<Rightarrow> string" where
  "fresh_device_id h =
     (let win = (ho_goos h = ''windows'');
          valid = valid_sources (if win then collectHardwareSources_windows h
                                 else collectHardwareSources h)
      in if valid = []
         then sha256Hex (if win then hostnameKernelFallback_windows h else hostnameKernelFallback h)
         else sha256Hex (join_with ''|'' valid))"

text \<open>The file is written as the last step; a failure to write it is ignored.\<close>

definition GenerateDeviceID :: "host \<Rightarrow> string \<times> host" where
  "GenerateDeviceID h =
     (let path = deviceIDCachePath h; cached = ho_file h path in
      case cached of
        Some i \<Rightarrow> if length i = 64 then (i, h) else
          (let i = fresh_device_id h
           in (i, if ho_writable h then h\<lparr>ho_file := (ho_file h)(path \<mapsto> i)\<rparr> else h))
      | None \<Rightarrow>
          (let i = fresh_device_id h
           in (i, if ho_writable h then h\<lparr>ho_file := (ho_file h)(path \<mapsto> i)\<rparr> else h)))"

section \<open>System information\<close>

record SysInfo =
  sy_hostname :: string
  sy_os :: string
  sy_os_version :: string
  sy_kernel_version :: string
  sy_ip_addrs :: "string list"
  sy_mac_addrs :: "string list"

definition collectHostname :: "host \<Rightarrow> SysInfo \<Rightarrow> SysInfo" where
  "collectHostname h s = s\<lparr>sy_hostname := (case ho_hostname h of None \<Rightarrow> ''unknown'' | Some n \<Rightarrow> n)\<rparr>"

definition unicast_ip :: "iface_addr \<Rightarrow> string option" where
  "unicast_ip a = (case ad_ip a of
      Some ip \<Rightarrow> if ad_global_unicast a then Some ip else None | None \<Rightarrow> None)"

fun network_loop :: "net_iface list \<Rightarrow> SysInfo \<Rightarrow> SysInfo" where
  "network_loop [] s = s"
| "network_loop (i # is) s =
     (if if_loopback i then network_loop is s
      else if \<not> if_up i then network_loop is s
      else let s1 = (if if_mac i \<noteq> [] then s\<lparr>sy_mac_addrs := sy_mac_addrs s @ [if_mac i]\<rparr> else s) in
        case if_addrs i of
          None \<Rightarrow> network_loop is s1
        | Some addrs \<Rightarrow> network_loop is
            (s1\<lparr>sy_ip_addrs := sy_ip_addrs s1 @ List.map_filter unicast_ip addrs\<rparr>))"

definition sysinfo_collectNetwork :: "host \<Rightarrow> SysInfo \<Rightarrow> SysInfo" where
  "sysinfo_collectNetwork h s = (case ho_ifaces h of None \<Rightarrow> s | Some ifs \<Rightarrow> network_loop ifs s)"

definition release_name :: "string \<Rightarrow> string option" where
  "release_name line =
     (if HasPrefix (TrimSpace line) ''PRETTY_NAME=''
      then Some (trim_both [CHR 0x22] (TrimPrefix (TrimSpace line) ''PRETTY_NAME='')) else None)"

definition readOSRelease :: "host \<Rightarrow> string" where
  "readOSRelease h =
     (case (case ho_file h ''/etc/os-release'' of
              None \<Rightarrow> ho_file h ''/usr/lib/os-release'' | Some d \<Rightarrow> Some d) of
        None \<Rightarrow> ''unknown''
      | Some data \<Rightarrow> (case List.map_filter release_name (text_lines data) of
          [] \<Rightarrow> ''unknown'' | v # _ \<Rightarrow> v))"

definition readProcVersion :: "host \<Rightarrow> string" where
  "readProcVersion h = (case ho_file h ''/proc/version'' of
      None \<Rightarrow> ''unknown''
    | Some data \<Rightarrow> let line = TrimSpace data; parts = Fields line in
        if 3 \<le> length parts then join_with '' '' (take 3 parts) else line)"

definition collectOSVersion :: "host \<Rightarrow> SysInfo \<Rightarrow> SysInfo" where
  "collectOSVersion h s = s\<lparr>sy_os_version := readOSRelease h, sy_kernel_version := readProcVersion h\<rparr>"

definition collectOSVersion_windows :: "host \<Rightarrow> SysInfo \<Rightarrow> SysInfo" where
  "collectOSVersion_windows h s = s\<lparr>sy_os_version := ''windows'', sy_kernel_version := ''windows''\<rparr>"

definition Collect :: "host \<Rightarrow> SysInfo" where
  "Collect h =
     (let s0 = \<lparr>sy_hostname = [], sy_os = ho_goos h, sy_os_version = [], sy_kernel_version = [],
                sy_ip_addrs = [], sy_mac_addrs = []\<rparr>;
          s1 = sysinfo_collectNetwork h (collectHostname h s0)
      in if ho_goos h = ''windows'' then collectOSVersion_windows h s1 else collectOSVersion h s1)"

section \<open>Lemmas\<close>

lemma fresh_device_id_hex: "length (fresh_device_id h) = 64 \<and> hex_text (fresh_device_id h)"
  by (simp add: fresh_device_id_def Let_def sha256Hex_hex)

lemma GenerateDeviceID_cases:
  obtains (cached) i where "ho_file h (deviceIDCachePath h) = Some i" "length i = 64"
      "GenerateDeviceID h = (i, h)"
  | (fresh) "\<nexists>i. ho_file h (deviceIDCachePath h) = Some i \<and> length i = 64"
      "GenerateDeviceID h = (fresh_device_id h, if ho_writable h
        then h\<lparr>ho_file := (ho_file h)(deviceIDCachePath h \<mapsto> fresh_device_id h)\<rparr> else h)"
proof (cases "ho_file h (deviceIDCachePath h)")
  case None
  then show ?thesis by (intro fresh) (simp_all add: GenerateDeviceID_def Let_def)
next
  case (Some i)
  then show ?thesis
  proof (cases "length i = 64")
    case True
    with Some show ?thesis by (intro cached) (simp_all add: GenerateDeviceID_def Let_def)
  next
    case False
    with Some show ?thesis by (intro fresh) (simp_all add: GenerateDeviceID_def Let_def)
  qed
qed

lemma GenerateDeviceID_length: "length (fst (GenerateDeviceID h)) = 64"
  by (cases h rule: GenerateDeviceID_cases) (simp_all add: fresh_device_id_hex)

lemma GenerateDeviceID_cached:
  assumes "ho_writable h" "deviceIDCachePath h' = deviceIDCachePath h"
    and "ho_file h' (deviceIDCachePath h) = ho_file (snd (GenerateDeviceID h)) (deviceIDCachePath h)"
  shows "GenerateDeviceID h' = (fst (GenerateDeviceID h), h')"
proof (cases h rule: GenerateDeviceID_cases)
  case (cached i)
  then show ?thesis using assms by (simp add: GenerateDeviceID_def [of h'] Let_def)
next
  case fresh
  then show ?thesis using assms by (simp add: GenerateDeviceID_def [of h'] Let_def fresh_device_id_hex)
qed

lemma network_loop_eq:
  "network_loop is s = s\<lparr>
     sy_mac_addrs := sy_mac_addrs s @
       filter (\<lambda>m. m \<noteq> []) (map if_mac (filter (\<lambda>i. \<not> if_loopback i \<and> if_up i) is)),
     sy_ip_addrs := sy_ip_addrs s @
       concat (map (\<lambda>i. case if_addrs i of None \<Rightarrow> [] | Some as \<Rightarrow> List.map_filter unicast_ip as)
         (filter (\<lambda>i. \<not> if_loopback i \<and> if_up i) is))\<rparr>"
proof (induction "is" arbitrary: s)
  case (Cons i "is")
  show ?case
    by (cases "if_loopback i"; cases "if_up i"; cases "if_addrs i"; cases "if_mac i = []")
      (simp_all add: Cons.IH Let_def)
qed simp

end
