(* ===== verification/Collector.thy ===== *)
theory Collector
  imports Host Sha256
begin

unbundle bit_operations_syntax

text \<open>
  The package \<open>internal/client/collector\<close>: \<open>CollectHardware\<close> with its Linux parsers
  (\<open>hardware_linux.go\<close>) and the cache that suppresses unchanged reports (\<open>cache.go\<close>). The lemmas
  give the parsers' results on the format of \<open>/proc\<close>, and the law of the cache.
\<close>

section \<open>CPU\<close>

record cpu_scan =
  cs_model :: string
  cs_cores :: int32
  cs_threads :: int32

definition cpu_line :: "string \<Rightarrow> cpu_scan \<Rightarrow> cpu_scan" where
  "cpu_line line st = (case Cut (CHR '':'') line of
      None \<Rightarrow> st
    | Some (k, v) \<Rightarrow> let key = TrimSpace k; val = TrimSpace v in
        if key = ''model name'' then (if cs_model st = [] then st\<lparr>cs_model := val\<rparr> else st)
        else if key = ''cpu cores'' then
          (if cs_cores st = 0 then (case Atoi val of Some n \<Rightarrow> st\<lparr>cs_cores := word_of_int n\<rparr> | None \<Rightarrow> st)
           else st)
        else if key = ''siblings'' then
          (if cs_threads st = 0 then (case Atoi val of Some n \<Rightarrow> st\<lparr>cs_threads := word_of_int n\<rparr> | None \<Rightarrow> st)
           else st)
        else st)"

fun cpu_lines :: "string list \<Rightarrow> cpu_scan \<Rightarrow> cpu_scan" where
  "cpu_lines [] st = st"
| "cpu_lines (l # ls) st =
     (if TrimSpace l = []
      then (if cs_model st \<noteq> [] \<and> 0 <s cs_cores st then st else cpu_lines ls st)
      else cpu_lines ls (cpu_line (TrimSpace l) st))"

definition cpu_scan_start :: cpu_scan where
  "cpu_scan_start = \<lparr>cs_model = [], cs_cores = 0, cs_threads = 0\<rparr>"

definition collectCPU :: "host \<Rightarrow> cpu_info" where
  "collectCPU h = (case ho_file h ''/proc/cpuinfo'' of
      None \<Rightarrow> \<lparr>cpu_model = [], cpu_cores = 0, cpu_threads = 0, cpu_arch = ho_goarch h\<rparr>
    | Some data \<Rightarrow> let st = cpu_lines (text_lines data) cpu_scan_start in
        \<lparr>cpu_model = cs_model st, cpu_cores = cs_cores st, cpu_threads = cs_threads st,
         cpu_arch = ho_goarch h\<rparr>)"

section \<open>Memory\<close>

text \<open>The pair is \<open>(totalKB, availKB)\<close>.\<close>

definition mem_line :: "string \<Rightarrow> uint64 \<times> uint64 \<Rightarrow> (uint64 \<times> uint64) option" where
  "mem_line line = (\<lambda>(total, avail). case Cut (CHR '':'') line of
      None \<Rightarrow> None
    | Some (k, v) \<Rightarrow> let key = TrimSpace k; val = TrimSuffix (TrimSpace v) '' kB'' in
        (case ParseUint val of
           None \<Rightarrow> None
         | Some n \<Rightarrow> Some (if key = ''MemTotal'' then n else total,
                          if key = ''MemAvailable'' then n else avail)))"

fun mem_lines :: "string list \<Rightarrow> uint64 \<times> uint64 \<Rightarrow> uint64 \<times> uint64" where
  "mem_lines [] st = st"
| "mem_lines (l # ls) st = (case mem_line l st of
      None \<Rightarrow> mem_lines ls st
    | Some st' \<Rightarrow> if 0 < fst st' \<and> 0 < snd st' then st' else mem_lines ls st')"

definition memory_of_kb :: "uint64 \<times> uint64 \<Rightarrow> memory_info" where
  "memory_of_kb = (\<lambda>(totalKB, availKB). let total = totalKB * 1024; avail = availKB * 1024 in
      \<lparr>mem_total = total, mem_avail = avail, mem_used = total - avail\<rparr>)"

definition collectMemory :: "host \<Rightarrow> memory_info" where
  "collectMemory h = (case ho_file h ''/proc/meminfo'' of
      None \<Rightarrow> \<lparr>mem_total = 0, mem_avail = 0, mem_used = 0\<rparr>
    | Some data \<Rightarrow> memory_of_kb (mem_lines (text_lines data) (0, 0)))"

section \<open>Disks\<close>

definition realFSTypes :: "string list" where
  "realFSTypes = [''ext2'', ''ext3'', ''ext4'', ''xfs'', ''btrfs'', ''zfs'', ''ntfs'', ''ntfs-3g'',
     ''vfat'', ''msdos'', ''fat'', ''exfat'', ''f2fs'', ''jfs'', ''reiserfs'', ''nfs'', ''nfs4'',
     ''cifs'', ''smbfs'', ''hfs'', ''hfsplus'', ''apfs'']"

definition disk_of_stat :: "string \<Rightarrow> string \<Rightarrow> string \<Rightarrow> fs_stat \<Rightarrow> disk_info" where
  "disk_of_stat device mountpoint fstype st =
     (let total = fs_blocks st * fs_bsize st; free = fs_bfree st * fs_bsize st in
      \<lparr>dk_device = device, dk_mount_point = mountpoint, dk_fs_type = fstype,
       dk_total = total, dk_used = total - free, dk_free = free\<rparr>)"

definition disk_of_line :: "host \<Rightarrow> string \<Rightarrow> disk_info option" where
  "disk_of_line h l = (if TrimSpace l = [] then None else
     (case Fields (TrimSpace l) of
        device # mountpoint # fstype # _ \<Rightarrow>
          if fstype \<notin> set realFSTypes then None
          else map_option (disk_of_stat device mountpoint fstype) (ho_statfs h mountpoint)
      | _ \<Rightarrow> None))"

definition collectDisks :: "host \<Rightarrow> disk_info list" where
  "collectDisks h = (case ho_file h ''/proc/mounts'' of
      None \<Rightarrow> [] | Some data \<Rightarrow> List.map_filter (disk_of_line h) (text_lines data))"

section \<open>Network interfaces\<close>

definition ip_of_addr :: "host \<Rightarrow> iface_addr \<Rightarrow> string option" where
  "ip_of_addr h a = (case ho_parse_cidr h (ad_text a) of
      Some ip \<Rightarrow> Some ip | None \<Rightarrow> ho_parse_ip h (TrimSuffix (ad_text a) ''/32''))"

definition net_of_iface :: "host \<Rightarrow> net_iface \<Rightarrow> net_info option" where
  "net_of_iface h i = (case if_addrs i of
      None \<Rightarrow> None
    | Some addrs \<Rightarrow> Some \<lparr>nt_name = if_name i,
        nt_mac_addr = (if if_mac i = [] then ''00:00:00:00:00:00'' else if_mac i),
        nt_ip_addrs = List.map_filter (ip_of_addr h) addrs,
        nt_is_loopback = if_loopback i\<rparr>)"

definition collectNetwork :: "host \<Rightarrow> net_info list" where
  "collectNetwork h = (case ho_ifaces h of
      None \<Rightarrow> [] | Some ifs \<Rightarrow> List.map_filter (net_of_iface h) ifs)"

section \<open>BIOS and motherboard\<close>

definition readDMIField :: "host \<Rightarrow> string \<Rightarrow> string" where
  "readDMIField h name = (case ho_file h (''/sys/class/dmi/id/'' @ name) of
      None \<Rightarrow> [] | Some data \<Rightarrow> TrimSpace data)"

definition collectBIOS :: "host \<Rightarrow> bios_info option" where
  "collectBIOS h =
     (let vendor = readDMIField h ''bios_vendor''; version = readDMIField h ''bios_version'';
          date = readDMIField h ''bios_date''
      in if vendor = [] \<and> version = [] \<and> date = [] then None
         else Some \<lparr>bi_vendor = vendor, bi_version = version, bi_release_date = date\<rparr>)"

definition collectMotherboard :: "host \<Rightarrow> motherboard_info option" where
  "collectMotherboard h =
     (let mfr = readDMIField h ''board_vendor''; product = readDMIField h ''board_name'';
          serial = readDMIField h ''board_serial''
      in if mfr = [] \<and> product = [] \<and> serial = [] then None
         else Some \<lparr>mb_manufacturer = mfr, mb_product = product, mb_serial = serial\<rparr>)"

definition CollectHardware :: "host \<Rightarrow> hardware_info" where
  "CollectHardware h = \<lparr>hw_cpu = Some (collectCPU h), hw_memory = Some (collectMemory h),
     hw_disks = collectDisks h, hw_nets = collectNetwork h, hw_bios = collectBIOS h,
     hw_motherboard = collectMotherboard h\<rparr>"

text \<open>The Windows build collects the architecture only.\<close>

definition collectCPU_windows :: "host \<Rightarrow> cpu_info" where
  "collectCPU_windows h = \<lparr>cpu_model = [], cpu_cores = 0, cpu_threads = 0, cpu_arch = ho_goarch h\<rparr>"

definition collectMemory_windows :: memory_info where
  "collectMemory_windows = \<lparr>mem_total = 0, mem_avail = 0, mem_used = 0\<rparr>"

definition collectDisks_windows :: "disk_info list" where "collectDisks_windows = []"
definition collectNetwork_windows :: "net_info list" where "collectNetwork_windows = []"
definition collectBIOS_windows :: "bios_info option" where "collectBIOS_windows = None"
definition collectMotherboard_windows :: "motherboard_info option" where
  "collectMotherboard_windows = None"

definition CollectHardware_windows :: "host \<Rightarrow> hardware_info" where
  "CollectHardware_windows h = \<lparr>hw_cpu = Some (collectCPU_windows h), hw_memory = Some collectMemory_windows,
     hw_disks = collectDisks_windows, hw_nets = collectNetwork_windows, hw_bios = collectBIOS_windows,
     hw_motherboard = collectMotherboard_windows\<rparr>"

section \<open>The report cache\<close>

text \<open>
  The cache is the string \<open>lastHash\<close>. \<open>proto.Marshal\<close> belongs to the protobuf library: it is the
  parameter \<open>marshal\<close>, \<open>None\<close> for an error (a string that is not UTF-8, say).
\<close>

definition hashHardware :: "(hardware_info \<Rightarrow> string option) \<Rightarrow> hardware_info \<Rightarrow> string" where
  "hashHardware marshal info = (case marshal info of
      None \<Rightarrow> ''error-'' @ EncodeToString (replicate 32 0)
    | Some b \<Rightarrow> EncodeToString (Sum256 b))"

definition IsChanged :: "(hardware_info \<Rightarrow> string option) \<Rightarrow> hardware_info \<Rightarrow> string \<Rightarrow> bool" where
  "IsChanged marshal info lastHash \<longleftrightarrow> lastHash = [] \<or> hashHardware marshal info \<noteq> lastHash"

definition MarkSent :: "(hardware_info \<Rightarrow> string option) \<Rightarrow> hardware_info \<Rightarrow> string \<Rightarrow> string" where
  "MarkSent marshal info lastHash = hashHardware marshal info"

lemma hashHardware_not_Nil [simp]: "hashHardware marshal info \<noteq> []"
proof -
  have "length (EncodeToString (Sum256 b)) \<noteq> 0" for b by simp
  then have "EncodeToString (Sum256 b) \<noteq> []" for b by (metis list.size(3))
  then show ?thesis by (simp add: hashHardware_def split: option.split)
qed

lemma IsChanged_MarkSent:
  "IsChanged marshal x (MarkSent marshal y c) \<longleftrightarrow> hashHardware marshal x \<noteq> hashHardware marshal y"
  by (simp add: IsChanged_def MarkSent_def)

lemma hash_error_apart:
  assumes "marshal x = None" "marshal y = Some b"
  shows "hashHardware marshal x \<noteq> hashHardware marshal y"
proof -
  have "length (hashHardware marshal x) = 70" "length (hashHardware marshal y) = 64"
    using assms by (simp_all add: hashHardware_def)
  then show ?thesis by auto
qed

section \<open>Lemmas on the parsers\<close>

text \<open>A line \<open>key: value\<close> of \<open>/proc\<close> with blanks around the key and the value.\<close>

definition plain_text :: "string \<Rightarrow> bool" where
  "plain_text s \<longleftrightarrow> s = [] \<or> graphic (hd s) \<and> graphic (last s)"

lemma trim_plain: "plain_text s \<Longrightarrow> TrimSpace (replicate m CHR '' '' @ s @ replicate n CHR '' '') = s"
  by (simp add: plain_text_def TrimSpace_text)

lemma graphic_digit: "digit_val c = Some d \<Longrightarrow> graphic c"
  by (simp add: digit_val_def graphic_def split: if_splits)

lemma graphic_show_nat: "c \<in> set (show_nat n) \<Longrightarrow> graphic c"
  using show_nat_digits graphic_digit by blast

lemma plain_show_nat: "plain_text (show_nat n @ '' kB'')"
proof -
  have "graphic (hd (show_nat n))" by (rule graphic_show_nat [where n = n]) simp
  moreover have "graphic CHR ''B''" by (simp add: graphic_def byte_of_def)
  ultimately show ?thesis by (simp add: plain_text_def)
qed

lemma TrimSuffix_append: "TrimSuffix (s @ p) p = s"
  by (simp add: TrimSuffix_def)

lemma mem_line_kB:
  assumes "CHR '':'' \<notin> set k" "plain_text k" "n < 2 ^ 64"
  shows "mem_line (k @ '':'' @ replicate b CHR '' '' @ show_nat n @ '' kB'') st =
    Some (if k = ''MemTotal'' then of_nat n else fst st, if k = ''MemAvailable'' then of_nat n else snd st)"
proof -
  have "Cut CHR '':'' (k @ '':'' @ replicate b CHR '' '' @ show_nat n @ '' kB'') =
      Some (k, replicate b CHR '' '' @ show_nat n @ '' kB'')"
    using assms(1) by (simp add: Cut_append)
  moreover have "TrimSpace (replicate b CHR '' '' @ show_nat n @ '' kB'') = show_nat n @ '' kB''"
    using trim_plain [OF plain_show_nat, of b n 0] by simp
  moreover have "TrimSpace k = k" using trim_plain [OF assms(2), of 0 0] by simp
  ultimately show ?thesis
    using TrimSuffix_append [of "show_nat n" "'' kB''"] assms(3)
    by (simp add: mem_line_def ParseUint_show split: prod.split)
qed

lemma TrimSuffix_none: "last p \<notin> set s \<Longrightarrow> p \<noteq> [] \<Longrightarrow> TrimSuffix s p = s"
  by (auto simp: TrimSuffix_def)
    (metis in_set_dropD last_in_set)

lemma mem_line_plain:
  assumes "CHR '':'' \<notin> set k" "plain_text k" "n < 2 ^ 64"
  shows "mem_line (k @ '':'' @ replicate b CHR '' '' @ show_nat n) st =
    Some (if k = ''MemTotal'' then of_nat n else fst st, if k = ''MemAvailable'' then of_nat n else snd st)"
proof -
  have "Cut CHR '':'' (k @ '':'' @ replicate b CHR '' '' @ show_nat n) =
      Some (k, replicate b CHR '' '' @ show_nat n)"
    using assms(1) by (simp add: Cut_append)
  moreover have "plain_text (show_nat n)"
    using graphic_show_nat [of "hd (show_nat n)" n] graphic_show_nat [of "last (show_nat n)" n]
    by (simp add: plain_text_def)
  then have "TrimSpace (replicate b CHR '' '' @ show_nat n) = show_nat n"
    using trim_plain [of "show_nat n" b 0] by simp
  moreover have "TrimSpace k = k" using trim_plain [OF assms(2), of 0 0] by simp
  moreover have "TrimSuffix (show_nat n) '' kB'' = show_nat n"
    using show_nat_digits [of "CHR ''B''" n] by (intro TrimSuffix_none) (auto simp: digit_val_def byte_of_def)
  ultimately show ?thesis
    using assms(3) by (simp add: mem_line_def ParseUint_show split: prod.split)
qed

lemma cpu_lines_append:
  assumes "cs_model (cpu_lines ls st) \<noteq> []" "0 <s cs_cores (cpu_lines ls st)" "TrimSpace l = []"
  shows "cpu_lines (ls @ l # rest) st = cpu_lines ls st"
  using assms(1,2)
proof (induction ls st rule: cpu_lines.induct)
  case (1 st)
  then show ?case using assms(3) by simp
next
  case (2 la ls st)
  then show ?case by (cases "TrimSpace la = []") (auto split: if_splits)
qed

end
