(* ===== verification/Agent.thy ===== *)
theory Agent
  imports Fingerprint Collector
begin

unbundle bit_operations_syntax

text \<open>
  The terminal agent's state and its command executor (\<open>internal/client/client.go\<close>,
  \<open>executor.go\<close>): the \<open>Client\<close> object, the sending side of the stream, the handlers of the four
  command types, and \<open>dispatchCommand\<close> with its panic isolation.

  One session is the state of a \<open>connect\<close> call after the stream is open: the client object shared by
  its three goroutines, the stream, and where each goroutine stands.
\<close>

section \<open>State\<close>

text \<open>Durations are nanoseconds in an \<open>int64\<close>.\<close>

definition second :: int64 where "second = 10 ^ 9"

record Config =
  cf_server_addr :: string
  cf_heartbeat :: int64
  cf_report :: int64
  cf_reconnect_initial :: int64
  cf_reconnect_max :: int64
  cf_version :: string

definition DefaultConfig :: Config where
  "DefaultConfig = \<lparr>cf_server_addr = ''localhost:50051'', cf_heartbeat = 10 * second,
     cf_report = 300 * second, cf_reconnect_initial = 1 * second, cf_reconnect_max = 60 * second,
     cf_version = ''0.2.0''\<rparr>"

text \<open>
  The errors that reach \<open>Run\<close>: the client's own fatal error, a gRPC status, and everything else (a
  context error, an error without a status, a status whose code the program does not look at).
\<close>

datatype client_err = FatalError string | StatusError grpc_status | OtherError string

text \<open>\<open>cl_marshal\<close> is \<open>proto.Marshal\<close> on reports; \<open>cl_hash\<close> is the report cache.\<close>

record client =
  cl_cfg :: Config
  cl_info :: SysInfo
  cl_marshal :: "hardware_info \<Rightarrow> string option"
  cl_device :: string
  cl_session :: string
  cl_seq :: uint64
  cl_hash :: string
  cl_cancelled :: bool
  cl_restart :: bool
  cl_shutdown :: bool
  cl_parent_done :: bool
  cl_exited :: bool

definition NewClient :: "Config \<Rightarrow> (hardware_info \<Rightarrow> string option) \<Rightarrow> host \<Rightarrow> client" where
  "NewClient cfg marshal h = \<lparr>cl_cfg = cfg, cl_info = Collect h, cl_marshal = marshal, cl_device = [],
     cl_session = [], cl_seq = 0, cl_hash = [], cl_cancelled = False, cl_restart = False,
     cl_shutdown = False, cl_parent_done = False, cl_exited = False\<rparr>"

text \<open>
  The stream as the sender sees it: the error of the n-th \<open>Send\<close> (\<open>None\<close>: accepted), how many were
  tried, and the accepted messages.
\<close>

record wire =
  wr_err :: "nat \<Rightarrow> string option"
  wr_tried :: nat
  wr_sent :: "client_message list"

text \<open>
  A goroutine of the session is between two turns, or holds what it is about to send, or has
  returned.
\<close>

datatype 'a routine = Idle | Holding 'a | Gone

record session =
  se_client :: client
  se_wire :: wire
  se_hb :: "client_message routine"
  se_rp :: "(client_message \<times> hardware_info) routine"
  se_in_recv :: bool
  se_result :: "client_err option option"

section \<open>Sending\<close>

definition nextSeq :: "client \<Rightarrow> uint64 \<times> client" where
  "nextSeq c = (cl_seq c + 1, c\<lparr>cl_seq := cl_seq c + 1\<rparr>)"

definition Send :: "client_message \<Rightarrow> wire \<Rightarrow> string option \<times> wire" where
  "Send m w = (case wr_err w (wr_tried w) of
      None \<Rightarrow> (None, w\<lparr>wr_tried := wr_tried w + 1, wr_sent := wr_sent w @ [m]\<rparr>)
    | Some e \<Rightarrow> (Some e, w\<lparr>wr_tried := wr_tried w + 1\<rparr>))"

text \<open>Numbering a payload and sending it.\<close>

definition send_payload :: "client_payload \<Rightarrow> session \<Rightarrow> string option \<times> session" where
  "send_payload p s =
     (case nextSeq (se_client s) of (n, c) \<Rightarrow>
        case Send \<lparr>cm_seq = n, cm_payload = p\<rparr> (se_wire s) of (e, w) \<Rightarrow>
          (e, s\<lparr>se_client := c, se_wire := w\<rparr>))"

definition sendCommandResult ::
  "string \<Rightarrow> string \<Rightarrow> int32 \<Rightarrow> string \<Rightarrow> string \<Rightarrow> string \<Rightarrow> int64 \<Rightarrow> int64 \<Rightarrow> session \<Rightarrow> session" where
  "sendCommandResult k status exitCode stdout stderr errorMsg startedAt finishedAt s =
     snd (send_payload (CP_CommandResult \<lparr>cr_id = k, cr_status = status, cr_exit_code = exitCode,
       cr_stdout = stdout, cr_stderr = stderr, cr_started_at_unix = startedAt,
       cr_finished_at_unix = finishedAt, cr_error_message = errorMsg\<rparr>) s)"

section \<open>The command handlers\<close>

text \<open>
  What a command's execution meets: the readings of the clock in their order (the first one is
  that of the \<open>Executing\<close> message), the collected hardware (or the panic of a collector), a new
  report id, the run of a shell (standard output, error, whether the deadline has passed) for the
  given script and timeout.
\<close>

datatype run_error = ExitError int string | StartError string

record script_run =
  sx_stdout :: string
  sx_err :: "run_error option"
  sx_deadline :: bool

record cmd_env =
  en_clock :: "nat \<Rightarrow> int64"
  en_collect :: "string + hardware_info option"
  en_uuid :: string
  en_script :: "string \<Rightarrow> int64 \<Rightarrow> script_run"

text \<open>The panic of a handler, with what was printed of its value.\<close>

type_synonym handled = "string option \<times> session"

definition handleCollectNow :: "cmd_env \<Rightarrow> command \<Rightarrow> session \<Rightarrow> handled" where
  "handleCollectNow env cmd s = (case en_collect env of
      Inl v \<Rightarrow> (Some v, s)
    | Inr None \<Rightarrow> (None, sendCommandResult (cd_id cmd) ''Failed'' (- 1) [] []
        ''hardware collection returned nil'' (en_clock env 1) (en_clock env 2) s)
    | Inr (Some hw) \<Rightarrow>
        let done = sendCommandResult (cd_id cmd) ''Completed'' 0 ''hardware report triggered'' [] []
                     (en_clock env 1) (en_clock env 2)
        in if IsChanged (cl_marshal (se_client s)) hw (cl_hash (se_client s))
           then (case send_payload (CP_ReportRequest \<lparr>rr_report_id = en_uuid env,
                     rr_type = RT_Hardware (Some hw)\<rparr>) s of
               (Some e, s1) \<Rightarrow> (None, sendCommandResult (cd_id cmd) ''Failed'' (- 1) [] []
                  (''send report failed: '' @ e) (en_clock env 1) (en_clock env 2) s1)
             | (None, s1) \<Rightarrow> (None, done (s1\<lparr>se_client := (se_client s1)
                  \<lparr>cl_hash := MarkSent (cl_marshal (se_client s1)) hw (cl_hash (se_client s1))\<rparr>\<rparr>)))
           else (None, done s))"

definition script_timeout :: "int64 \<Rightarrow> int64" where
  "script_timeout sec = (let t = sec * second in if t \<le>s 0 then 30 * second else t)"

definition exit_code :: "run_error option \<Rightarrow> int32" where
  "exit_code err = (case err of
      None \<Rightarrow> 0 | Some (ExitError n _) \<Rightarrow> word_of_int n | Some (StartError _) \<Rightarrow> - 1)"

definition handleRunScript :: "cmd_env \<Rightarrow> command \<Rightarrow> session \<Rightarrow> session" where
  "handleRunScript env cmd s =
     (let script = (case map_of (cd_params cmd) ''cmd'' of None \<Rightarrow> [] | Some v \<Rightarrow> v) in
      if script = []
      then sendCommandResult (cd_id cmd) ''Failed'' (- 1) [] [] ''missing required param: cmd''
             (en_clock env 1) (en_clock env 2) s
      else let run = en_script env script (script_timeout (cd_timeout_sec cmd));
               started = en_clock env 1; finished = en_clock env 2
        in if sx_err run \<noteq> None \<and> sx_deadline run
           then sendCommandResult (cd_id cmd) ''Failed'' (- 1) [] [] ''command timed out'' started finished s
           else let exit = exit_code (sx_err run);
                    stderr = (if exit \<noteq> 0 then (case sx_err run of
                        None \<Rightarrow> [] | Some (ExitError _ t) \<Rightarrow> t | Some (StartError t) \<Rightarrow> t) else [])
                in sendCommandResult (cd_id cmd) (if exit \<noteq> 0 then ''Failed'' else ''Completed'')
                     exit (sx_stdout run) stderr [] started finished s)"

definition cancelSession :: "session \<Rightarrow> session" where
  "cancelSession s = s\<lparr>se_client := (se_client s)\<lparr>cl_cancelled := True\<rparr>\<rparr>"

definition handleRestart :: "cmd_env \<Rightarrow> command \<Rightarrow> session \<Rightarrow> session" where
  "handleRestart env cmd s =
     (let s1 = sendCommandResult (cd_id cmd) ''Completed'' 0 ''restarting'' [] []
                 (en_clock env 1) (en_clock env 1) s
      in cancelSession (s1\<lparr>se_client := (se_client s1)\<lparr>cl_restart := True\<rparr>\<rparr>))"

definition handleShutdown :: "cmd_env \<Rightarrow> command \<Rightarrow> session \<Rightarrow> session" where
  "handleShutdown env cmd s =
     (let s1 = sendCommandResult (cd_id cmd) ''Completed'' 0 ''shutting down'' [] []
                 (en_clock env 1) (en_clock env 1) s;
          s2 = cancelSession (s1\<lparr>se_client := (se_client s1)\<lparr>cl_shutdown := True\<rparr>\<rparr>)
      in s2\<lparr>se_client := (se_client s2)\<lparr>cl_exited := True\<rparr>\<rparr>)"

definition run_handler :: "cmd_env \<Rightarrow> command \<Rightarrow> session \<Rightarrow> handled" where
  "run_handler env cmd s =
     (if cd_type cmd = ct_collect_now then handleCollectNow env cmd s
      else if cd_type cmd = ct_run_script then (None, handleRunScript env cmd s)
      else if cd_type cmd = ct_restart then (None, handleRestart env cmd s)
      else if cd_type cmd = ct_shutdown then (None, handleShutdown env cmd s)
      else (None, sendCommandResult (cd_id cmd) ''Failed'' (- 1) [] []
              (''unsupported command type: '' @ type_string (cd_type cmd))
              (en_clock env 1) (en_clock env 2) s))"

definition dispatchCommand :: "cmd_env \<Rightarrow> command \<Rightarrow> session \<Rightarrow> session" where
  "dispatchCommand env cmd s =
     (let s1 = sendCommandResult (cd_id cmd) ''Executing'' 0 [] [] [] (en_clock env 0) 0 s
      in case run_handler env cmd s1 of
           (None, s2) \<Rightarrow> s2
         | (Some v, s2) \<Rightarrow> sendCommandResult (cd_id cmd) ''Failed'' (- 1) [] []
             (''handler panic: '' @ v) (en_clock env 1) (en_clock env 2) s2)"

end
