(* ===== verification/Float64.thy ===== *)
theory Float64
  imports Complex_Main "HOL-Library.Log_Nat"
begin

text \<open>
  Go's \<open>float64\<close> arithmetic on the range the program uses it for (normal numbers: the results are 0
  or have a magnitude between 2^-1022 and 2^1024): a value is a rational number, and every
  operation rounds its exact result to 53 significant bits, ties to even, with \<open>f64\<close>. The lemmas
  say which numbers are exact and bound the error of one rounding.
\<close>

definition pow2 :: "int \<Rightarrow> rat" where
  "pow2 k = (if 0 \<le> k then 2 ^ nat k else 1 / 2 ^ nat (- k))"

text \<open>The binary exponent of a positive number.\<close>

definition ilog2 :: "rat \<Rightarrow> int" where
  "ilog2 x = (case quotient_of x of (a, b) \<Rightarrow>
     let k = bitlen a - bitlen b in if pow2 k \<le> x then k else k - 1)"

definition round_half_even :: "rat \<Rightarrow> int" where
  "round_half_even x = (let f = \<lfloor>x\<rfloor>; r = x - of_int f in
     if r < 1 / 2 then f else if 1 / 2 < r then f + 1 else if even f then f else f + 1)"

definition f64 :: "rat \<Rightarrow> rat" where
  "f64 x = (if x = 0 then 0 else let e = ilog2 \<bar>x\<bar> - 52 in
     of_int (round_half_even (x / pow2 e)) * pow2 e)"

definition go_trunc :: "rat \<Rightarrow> int" where
  "go_trunc x = (if x < 0 then - \<lfloor>- x\<rfloor> else \<lfloor>x\<rfloor>)"

section \<open>Powers of two\<close>

lemma pow2_pos [simp]: "0 < pow2 k"
  by (simp add: pow2_def)

lemma pow2_not_0 [simp]: "pow2 k \<noteq> 0"
  using pow2_pos [of k] by linarith

lemma abs_pow2 [simp]: "\<bar>pow2 k\<bar> = pow2 k"
  by (simp add: less_imp_le)

lemma pow2_add: "pow2 (a + b) = pow2 a * pow2 b"
proof (cases "0 \<le> a"; cases "0 \<le> b")
  assume *: "0 \<le> a" "\<not> 0 \<le> b"
  show ?thesis
  proof (cases "0 \<le> a + b")
    case True
    with * have "nat a = nat (a + b) + nat (- b)" by simp
    then have "(2 :: rat) ^ nat a = 2 ^ nat (a + b) * 2 ^ nat (- b)" by (simp add: power_add)
    with * True show ?thesis by (simp add: pow2_def)
  next
    case False
    with * have "nat (- b) = nat (- (a + b)) + nat a" by simp
    then have "(2 :: rat) ^ nat (- b) = 2 ^ nat (- (a + b)) * 2 ^ nat a" by (metis power_add)
    with * False show ?thesis by (simp add: pow2_def)
  qed
next
  assume *: "\<not> 0 \<le> a" "0 \<le> b"
  show ?thesis
  proof (cases "0 \<le> a + b")
    case True
    with * have "nat b = nat (a + b) + nat (- a)" by simp
    then have "(2 :: rat) ^ nat b = 2 ^ nat (a + b) * 2 ^ nat (- a)" by (simp add: power_add)
    with * True show ?thesis by (simp add: pow2_def)
  next
    case False
    with * have "nat (- a) = nat (- (a + b)) + nat b" by simp
    then have "(2 :: rat) ^ nat (- a) = 2 ^ nat (- (a + b)) * 2 ^ nat b" by (metis power_add)
    with * False show ?thesis by (simp add: pow2_def)
  qed
next
  assume *: "\<not> 0 \<le> a" "\<not> 0 \<le> b"
  then have "nat (- (a + b)) = nat (- a) + nat (- b)" by simp
  then have "(2 :: rat) ^ nat (- (a + b)) = 2 ^ nat (- a) * 2 ^ nat (- b)" by (metis power_add)
  with * show ?thesis by (simp add: pow2_def)
qed (simp add: pow2_def nat_add_distrib power_add)

lemma pow2_nonneg: "0 \<le> k \<Longrightarrow> pow2 k = of_int (2 ^ nat k)"
  by (simp add: pow2_def)

lemma pow2_le_iff: "pow2 a \<le> pow2 b \<longleftrightarrow> a \<le> b"
proof -
  have "pow2 b = pow2 a * pow2 (b - a)" using pow2_add [of a "b - a"] by simp
  moreover have "1 \<le> pow2 (b - a) \<longleftrightarrow> a \<le> b"
  proof (cases "a \<le> b")
    case False
    then have "1 < (2 :: rat) ^ nat (a - b)" by (intro one_less_power) simp_all
    with False show ?thesis by (simp add: pow2_def not_le)
  qed (simp add: pow2_def)
  ultimately show ?thesis by (metis mult.right_neutral mult_le_cancel_left_pos pow2_pos)
qed

lemma pow2_less_iff: "pow2 a < pow2 b \<longleftrightarrow> a < b"
  using pow2_le_iff [of b a] by (simp add: not_le [symmetric])

section \<open>The exponent\<close>

lemma bitlen_between:
  assumes "0 < n"
  shows "pow2 (bitlen n - 1) \<le> of_int n \<and> of_int n < pow2 (bitlen n)"
proof -
  have "1 \<le> bitlen n" using assms by (simp add: bitlen_alt_def)
  then have "pow2 (bitlen n - 1) = of_int (2 ^ nat (bitlen n - 1))"
    "pow2 (bitlen n) = of_int (2 ^ nat (bitlen n))" by (simp_all add: pow2_nonneg del: of_int_power)
  then show ?thesis using bitlen_bounds [OF assms] by (simp del: of_int_power)
qed

lemma ilog2_bounds:
  assumes "0 < x"
  shows "pow2 (ilog2 x) \<le> x \<and> x < pow2 (ilog2 x + 1)"
proof -
  obtain a b where q: "quotient_of x = (a, b)" by fastforce
  then have b: "0 < b" by (rule quotient_of_denom_pos)
  have x: "x = of_int a / of_int b" by (rule quotient_of_div [OF q])
  with assms b have a: "0 < a" by (simp add: zero_less_divide_iff)
  let ?k = "bitlen a - bitlen b"
  have A: "pow2 (bitlen a - 1) \<le> of_int a" "of_int a < pow2 (bitlen a)"
    and B: "pow2 (bitlen b - 1) \<le> of_int b" "of_int b < pow2 (bitlen b)"
    using bitlen_between [OF a] bitlen_between [OF b] by simp_all
  have "pow2 (?k - 1) * pow2 (bitlen b) = pow2 (bitlen a - 1)" by (simp flip: pow2_add)
  then have "pow2 (?k - 1) * of_int b < of_int a"
    using mult_strict_left_mono [OF B(2) pow2_pos [of "?k - 1"]] A(1) by simp
  then have lo: "pow2 (?k - 1) \<le> x" using b x by (simp add: pos_le_divide_eq)
  have "pow2 (?k + 1) * pow2 (bitlen b - 1) = pow2 (bitlen a)" by (simp flip: pow2_add)
  then have "of_int a < pow2 (?k + 1) * of_int b"
    using mult_left_mono [OF B(1) less_imp_le [OF pow2_pos [of "?k + 1"]]] A(2) by simp
  then have hi: "x < pow2 (?k + 1)" using b x by (simp add: pos_divide_less_eq)
  show ?thesis using lo hi by (simp add: ilog2_def q Let_def)
qed

lemma ilog2_less: "0 < x \<Longrightarrow> x < pow2 k \<Longrightarrow> ilog2 x < k"
  using ilog2_bounds [of x] pow2_less_iff [of "ilog2 x" k] by linarith

section \<open>Rounding\<close>

lemma round_half_even_error: "\<bar>of_int (round_half_even x) - x\<bar> \<le> 1 / 2"
proof -
  have "of_int \<lfloor>x\<rfloor> \<le> x" "x < of_int \<lfloor>x\<rfloor> + 1" by linarith+
  then show ?thesis by (auto simp: round_half_even_def Let_def)
qed

lemma round_half_even_int [simp]: "round_half_even (of_int i) = i"
  by (simp add: round_half_even_def)

lemma f64_0 [simp]: "f64 0 = 0"
  by (simp add: f64_def)

lemma f64_grid:
  assumes "x = of_int n * pow2 (ilog2 \<bar>x\<bar> - 52)"
  shows "f64 x = x"
proof -
  let ?e = "ilog2 \<bar>x\<bar> - 52"
  have "x / pow2 ?e = of_int n" using assms by (simp add: divide_eq_eq)
  then have "f64 x = (if x = 0 then 0 else of_int n * pow2 ?e)" by (simp add: f64_def Let_def)
  then show ?thesis using assms by simp
qed

text \<open>A number with a mantissa of at most 53 bits is exact.\<close>

lemma f64_exact:
  assumes "\<bar>m\<bar> < 2 ^ 53"
  shows "f64 (of_int m * pow2 k) = of_int m * pow2 k"
proof (cases "m = 0")
  case False
  let ?x = "of_int m * pow2 k"
  let ?e = "ilog2 \<bar>?x\<bar> - 52"
  have "of_int \<bar>m\<bar> < (of_int (2 ^ 53) :: rat)" using assms by (simp only: of_int_less_iff)
  then have "\<bar>of_int m\<bar> < pow2 53" by (simp add: pow2_def)
  then have "\<bar>?x\<bar> < pow2 53 * pow2 k" by (simp add: abs_mult)
  then have "\<bar>?x\<bar> < pow2 (53 + k)" by (simp add: pow2_add)
  moreover have "0 < \<bar>?x\<bar>" using False by simp
  ultimately have "?e \<le> k" using ilog2_less [of "\<bar>?x\<bar>" "53 + k"] by linarith
  then have "?x = of_int (m * 2 ^ nat (k - ?e)) * pow2 ?e"
    using pow2_add [of "k - ?e" ?e] by (simp add: pow2_nonneg)
  then show ?thesis by (rule f64_grid)
qed simp

lemma f64_error: "\<bar>f64 x - x\<bar> \<le> \<bar>x\<bar> * pow2 (- 53)"
proof (cases "x = 0")
  case False
  let ?e = "ilog2 \<bar>x\<bar> - 52"
  have "\<bar>of_int (round_half_even (x / pow2 ?e)) - x / pow2 ?e\<bar> * pow2 ?e \<le> 1 / 2 * pow2 ?e"
    by (intro mult_right_mono round_half_even_error) (simp add: less_imp_le)
  moreover have "f64 x - x = (of_int (round_half_even (x / pow2 ?e)) - x / pow2 ?e) * pow2 ?e"
    using False by (simp add: f64_def Let_def left_diff_distrib)
  ultimately have "\<bar>f64 x - x\<bar> \<le> 1 / 2 * pow2 ?e" by (simp add: abs_mult)
  also have "1 / 2 * pow2 ?e = pow2 (- 53) * pow2 (ilog2 \<bar>x\<bar>)"
  proof -
    have "1 / 2 * pow2 ?e = pow2 (- 1) * pow2 ?e" by (simp add: pow2_def)
    also have "\<dots> = pow2 (- 1 + ?e)" by (rule pow2_add [symmetric])
    also have "- 1 + ?e = - 53 + ilog2 \<bar>x\<bar>" by simp
    finally show ?thesis unfolding pow2_add .
  qed
  also have "\<dots> \<le> pow2 (- 53) * \<bar>x\<bar>"
    using ilog2_bounds [of "\<bar>x\<bar>"] False by (intro mult_left_mono) (simp_all add: less_imp_le)
  finally show ?thesis by (simp add: mult.commute)
qed simp

end
