(* ===== verification/Client.thy ===== *)
theory Client
  imports Agent Float64
begin

unbundle bit_operations_syntax

text \<open>
  The agent's sessions and its main loop (\<open>internal/client/client.go\<close>, \<open>report.go\<close>): the heartbeat,
  report and receive goroutines as steps that interleave freely, \<open>connect\<close>, the back-off, and
  \<open>Run\<close>.

  What the world does is an input: a session is driven by a list of events, \<open>Run\<close> by a list of
  cycles, one for each turn of its loop. When the list ends before the call has returned, the call
  is still running.
\<close>

section \<open>The goroutines of a session\<close>

datatype server_recv = GotMessage server_message | GotEOF | GotError client_err

datatype sess_event =
    HbTick int64 | HbSend | HbDone
  | RpTick hardware_info string | RpSend | RpDone
  | RecvCheck | RecvReturn cmd_env server_recv
  | ParentDone

definition heartbeat_tick_msg :: "int64 \<Rightarrow> session \<Rightarrow> session" where
  "heartbeat_tick_msg now s = (case nextSeq (se_client s) of (n, c) \<Rightarrow>
     s\<lparr>se_client := c, se_hb := Holding \<lparr>cm_seq = n, cm_payload = CP_Heartbeat
       \<lparr>hb_timestamp_unix = now, hb_cpu_percent = 0, hb_mem_percent = 0, hb_goroutines = 0\<rparr>\<rparr>\<rparr>)"

definition report_tick :: "hardware_info \<Rightarrow> string \<Rightarrow> session \<Rightarrow> session" where
  "report_tick info uuid s =
     (if IsChanged (cl_marshal (se_client s)) info (cl_hash (se_client s))
      then (case nextSeq (se_client s) of (n, c) \<Rightarrow>
        s\<lparr>se_client := c, se_rp := Holding (\<lparr>cm_seq = n, cm_payload = CP_ReportRequest
            \<lparr>rr_report_id = uuid, rr_type = RT_Hardware (Some info)\<rparr>\<rparr>, info)\<rparr>)
      else s)"

definition report_send :: "client_message \<Rightarrow> hardware_info \<Rightarrow> session \<Rightarrow> session" where
  "report_send m info s = (case Send m (se_wire s) of
      (Some _, w) \<Rightarrow> s\<lparr>se_wire := w, se_rp := Gone\<rparr>
    | (None, w) \<Rightarrow> s\<lparr>se_wire := w, se_rp := Idle, se_client := (se_client s)
        \<lparr>cl_hash := MarkSent (cl_marshal (se_client s)) info (cl_hash (se_client s))\<rparr>\<rparr>)"

text \<open>The return of \<open>recvLoop\<close>, after which \<open>connect\<close> cancels the session.\<close>

definition recv_returns :: "client_err option \<Rightarrow> session \<Rightarrow> session" where
  "recv_returns r s = cancelSession (s\<lparr>se_result := Some r, se_in_recv := False\<rparr>)"

definition recv_message :: "cmd_env \<Rightarrow> server_message \<Rightarrow> session \<Rightarrow> session" where
  "recv_message env m s = (case sm_payload m of
      SP_HeartbeatAck _ \<Rightarrow> s
    | SP_Command cmd \<Rightarrow> dispatchCommand env cmd s
    | SP_Unset \<Rightarrow> s)"

text \<open>
  Each event is one turn of one goroutine; an event that does not fit the goroutine's place has no
  effect, and none has after \<open>os.Exit\<close>.
\<close>

fun session_step :: "sess_event \<Rightarrow> session \<Rightarrow> session" where
  "session_step (HbTick now) s = (if se_hb s = Idle then heartbeat_tick_msg now s else s)"
| "session_step HbSend s = (case se_hb s of
      Holding m \<Rightarrow> (case Send m (se_wire s) of
        (e, w) \<Rightarrow> s\<lparr>se_wire := w, se_hb := (if e = None then Idle else Gone)\<rparr>)
    | _ \<Rightarrow> s)"
| "session_step HbDone s =
     (if se_hb s = Idle \<and> cl_cancelled (se_client s) then s\<lparr>se_hb := Gone\<rparr> else s)"
| "session_step (RpTick info uuid) s = (if se_rp s = Idle then report_tick info uuid s else s)"
| "session_step RpSend s = (case se_rp s of Holding (m, info) \<Rightarrow> report_send m info s | _ \<Rightarrow> s)"
| "session_step RpDone s =
     (if se_rp s = Idle \<and> cl_cancelled (se_client s) then s\<lparr>se_rp := Gone\<rparr> else s)"
| "session_step RecvCheck s =
     (if se_result s \<noteq> None \<or> se_in_recv s then s
      else if cl_cancelled (se_client s) then recv_returns (Some (OtherError ''context canceled'')) s
      else s\<lparr>se_in_recv := True\<rparr>)"
| "session_step (RecvReturn env r) s =
     (if \<not> se_in_recv s then s
      else (case r of
          GotEOF \<Rightarrow> recv_returns None s
        | GotError e \<Rightarrow> recv_returns (Some e) s
        | GotMessage m \<Rightarrow> recv_message env m (s\<lparr>se_in_recv := False\<rparr>)))"
| "session_step ParentDone s =
     s\<lparr>se_client := (se_client s)\<lparr>cl_parent_done := True, cl_cancelled := True\<rparr>\<rparr>"

fun run_session :: "sess_event list \<Rightarrow> session \<Rightarrow> session" where
  "run_session [] s = s"
| "run_session (e # es) s =
     run_session es (if cl_exited (se_client s) then s else session_step e s)"

section \<open>Connecting\<close>

record connect_env =
  cn_dial :: "client_err option"
  cn_host :: host
  cn_register :: "handshake_request \<Rightarrow> client_err + handshake_response"
  cn_channel :: "client_err option"
  cn_wire_err :: "nat \<Rightarrow> string option"
  cn_events :: "sess_event list"

datatype outcome = Returned "client_err option" | Crashed string | Exited | Running

definition register_request :: "client \<Rightarrow> handshake_request" where
  "register_request c = \<lparr>hs_hostname = sy_hostname (cl_info c), hs_os = sy_os (cl_info c),
     hs_os_version = sy_os_version (cl_info c), hs_kernel_version = sy_kernel_version (cl_info c),
     hs_client_version = cf_version (cl_cfg c), hs_mac_addrs = sy_mac_addrs (cl_info c),
     hs_ip_addrs = sy_ip_addrs (cl_info c), hs_device_id = cl_device c\<rparr>"

definition with_device :: "host \<Rightarrow> client \<Rightarrow> client" where
  "with_device h c = (if cl_device c = [] then c\<lparr>cl_device := fst (GenerateDeviceID h)\<rparr> else c)"

definition start_session :: "(nat \<Rightarrow> string option) \<Rightarrow> client \<Rightarrow> session" where
  "start_session errs c = \<lparr>se_client = c\<lparr>cl_cancelled := cl_parent_done c\<rparr>,
     se_wire = \<lparr>wr_err = errs, wr_tried = 0, wr_sent = []\<rparr>, se_hb = Idle, se_rp = Idle,
     se_in_recv = False, se_result = None\<rparr>"

text \<open>\<open>time.NewTicker\<close> panics on a duration that is not positive.\<close>

definition tickers_ok :: "Config \<Rightarrow> bool" where
  "tickers_ok cfg \<longleftrightarrow> 0 <s cf_heartbeat cfg \<and> 0 <s cf_report cfg"

text \<open>The end of \<open>connect\<close>: the result of the receive loop once all goroutines have returned.\<close>

definition session_outcome :: "session \<Rightarrow> outcome \<times> client" where
  "session_outcome s =
     (if cl_exited (se_client s) then (Exited, se_client s)
      else case se_result s of
        None \<Rightarrow> (Running, se_client s)
      | Some r \<Rightarrow> if se_hb s = Gone \<and> se_rp s = Gone
          then (Returned (if cl_restart (se_client s) then None else r),
                (se_client s)\<lparr>cl_restart := False\<rparr>)
          else (Running, se_client s))"

definition connect_session :: "connect_env \<Rightarrow> client \<Rightarrow> outcome \<times> client" where
  "connect_session env c =
     (if go_slice (cl_session c) 0 8 = None \<or> go_slice (cl_device c) 0 16 = None
      then (Crashed ''slice bounds out of range'', c)
      else case cn_channel env of
        Some e \<Rightarrow> (Returned (Some e), c)
      | None \<Rightarrow> if \<not> tickers_ok (cl_cfg c)
          then (Crashed ''non-positive interval for NewTicker'', c)
          else session_outcome (run_session (cn_events env) (start_session (cn_wire_err env) c)))"

definition connect :: "connect_env \<Rightarrow> client \<Rightarrow> outcome \<times> client" where
  "connect env c = (case cn_dial env of
      Some e \<Rightarrow> (Returned (Some e), c)
    | None \<Rightarrow> let c1 = with_device (cn_host env) c in
        (case cn_register env (register_request c1) of
           Inl e \<Rightarrow> (Returned (Some e), c1)
         | Inr r \<Rightarrow> if \<not> hr_ok r then (Returned (Some (FatalError (hr_message r))), c1)
             else connect_session env (c1\<lparr>cl_session := hr_session_id r\<rparr>)))"

section \<open>The main loop\<close>

definition isFatal :: "client_err \<Rightarrow> bool" where
  "isFatal e \<longleftrightarrow> (case e of
      FatalError _ \<Rightarrow> True | StatusError s \<Rightarrow> st_code s = PermissionDenied | OtherError _ \<Rightarrow> False)"

text \<open>
  \<open>m\<close> stands for \<open>rand.Float64()\<close>, which returns \<open>m / 2^53\<close> for some \<open>m < 2^53\<close>. The conversion to
  \<open>Duration\<close> truncates.
\<close>

definition backoff_delay :: "int64 \<Rightarrow> int64 \<Rightarrow> nat \<Rightarrow> rat" where
  "backoff_delay initial maxd attempt =
     (let f = min attempt 63;
          d = f64 (f64 (of_int (sint initial)) * 2 ^ f)
      in if f64 (of_int (sint maxd)) < d then f64 (of_int (sint maxd)) else d)"

definition backoff :: "int64 \<Rightarrow> int64 \<Rightarrow> nat \<Rightarrow> nat \<Rightarrow> int64" where
  "backoff initial maxd attempt m =
     (let d = backoff_delay initial maxd attempt;
          r = of_nat m / 2 ^ 53;
          jitter = f64 (f64 (d * (1 / 4)) * f64 (f64 (r * 2) - 1))
      in word_of_int (go_trunc (f64 (d + jitter))))"

datatype cancel_point = NoCancel | AtTop | InSleep

record cycle =
  cy_cancel :: cancel_point
  cy_rand :: nat
  cy_connect :: connect_env

definition context_canceled :: client_err where
  "context_canceled = OtherError ''context canceled''"

text \<open>The result is how \<open>Run\<close> ended, the delays it has slept, and the client.\<close>

fun Run_loop :: "nat \<Rightarrow> cycle list \<Rightarrow> client \<Rightarrow> outcome \<times> int64 list \<times> client" where
  "Run_loop attempt [] c = (Running, [], c)"
| "Run_loop attempt (cy # cys) c =
     (if cl_shutdown c then (Returned None, [], c)
      else if cl_parent_done c \<or> cy_cancel cy = AtTop then (Returned (Some context_canceled), [], c)
      else let delays = (if 0 < attempt then [backoff (cf_reconnect_initial (cl_cfg c))
                           (cf_reconnect_max (cl_cfg c)) attempt (cy_rand cy)] else [])
        in if 0 < attempt \<and> cy_cancel cy = InSleep then (Returned (Some context_canceled), delays, c)
           else case connect (cy_connect cy) c of
               (Returned None, c1) \<Rightarrow>
                 (case Run_loop 0 cys c1 of (r, ds, c2) \<Rightarrow> (r, delays @ ds, c2))
             | (Returned (Some e), c1) \<Rightarrow>
                 if isFatal e then (Returned (Some e), delays, c1)
                 else (case Run_loop (attempt + 1) cys c1 of (r, ds, c2) \<Rightarrow> (r, delays @ ds, c2))
             | (out, c1) \<Rightarrow> (out, delays, c1))"

definition Run :: "cycle list \<Rightarrow> client \<Rightarrow> outcome \<times> int64 list \<times> client" where
  "Run cycles c = Run_loop 0 cycles c"

end
