(* ===== verification/ClientRuns.thy ===== *)
theory ClientRuns
  imports Client "HOL-Library.Multiset"
begin

text \<open>
  Lemmas on the agent: each command is reported once as started and once as finished; the numbers
  of a session's messages are distinct; every goroutine returns once the session is cancelled; the
  back-off with its jitter stays near the doubled delay; and how \<open>Run\<close> goes through its cycles.
\<close>


section \<open>What a command reports\<close>

text \<open>The command results among the messages of a stream.\<close>

definition results_of :: "client_message list \<Rightarrow> command_result list" where
  "results_of ms = concat (map (\<lambda>m. case cm_payload m of CP_CommandResult r \<Rightarrow> [r] | _ \<Rightarrow> []) ms)"

definition sent_results :: "session \<Rightarrow> command_result list" where
  "sent_results s = results_of (wr_sent (se_wire s))"

definition stream_works :: "session \<Rightarrow> bool" where
  "stream_works s \<longleftrightarrow> (\<forall>n. wr_err (se_wire s) n = None)"

lemma results_of_append [simp]: "results_of (a @ b) = results_of a @ results_of b"
  by (simp add: results_of_def)

lemma send_payload_works:
  assumes "stream_works s"
  shows "fst (send_payload p s) = None" "stream_works (snd (send_payload p s))"
    "sent_results (snd (send_payload p s)) =
      sent_results s @ (case p of CP_CommandResult r \<Rightarrow> [r] | _ \<Rightarrow> [])"
    "cl_marshal (se_client (snd (send_payload p s))) = cl_marshal (se_client s)"
    "cl_hash (se_client (snd (send_payload p s))) = cl_hash (se_client s)"
  using assms by (auto simp: send_payload_def nextSeq_def Send_def stream_works_def sent_results_def
      results_of_def split: client_payload.split)

lemma sendCommandResult_works:
  assumes "stream_works s"
  shows "stream_works (sendCommandResult k st x out err msg a b s)"
    "sent_results (sendCommandResult k st x out err msg a b s) = sent_results s @
      [\<lparr>cr_id = k, cr_status = st, cr_exit_code = x, cr_stdout = out, cr_stderr = err,
        cr_started_at_unix = a, cr_finished_at_unix = b, cr_error_message = msg\<rparr>]"
  using send_payload_works [OF assms] by (simp_all add: sendCommandResult_def)

text \<open>A handler that does not panic reports the outcome of its command exactly once.\<close>

definition final_result :: "string \<Rightarrow> command_result \<Rightarrow> bool" where
  "final_result k r \<longleftrightarrow> cr_id r = k \<and> cr_status r \<in> {''Completed'', ''Failed''} \<and>
     (cr_status r = ''Completed'' \<longleftrightarrow> cr_exit_code r = 0)"

definition reports_once :: "string \<Rightarrow> session \<Rightarrow> session \<Rightarrow> bool" where
  "reports_once k s t \<longleftrightarrow> (\<exists>r. sent_results t = sent_results s @ [r] \<and> final_result k r)"

lemma reports_once_result:
  assumes "stream_works s" "st = ''Completed'' \<and> x = 0 \<or> st = ''Failed'' \<and> x \<noteq> 0"
  shows "reports_once k s (sendCommandResult k st x out err msg a b s)"
  using assms(2) by (auto simp: reports_once_def final_result_def sendCommandResult_works [OF assms(1)])

lemma sent_results_client [simp]:
  "sent_results (s\<lparr>se_client := c\<rparr>) = sent_results s" "stream_works (s\<lparr>se_client := c\<rparr>) = stream_works s"
  "sent_results (cancelSession s) = sent_results s"
  by (simp_all add: sent_results_def stream_works_def cancelSession_def)

lemma reports_once_client [simp]:
  "reports_once k s (t\<lparr>se_client := c\<rparr>) = reports_once k s t"
  "reports_once k s (cancelSession t) = reports_once k s t"
  by (simp_all add: reports_once_def)

lemma handleRunScript_once:
  assumes "stream_works s"
  shows "reports_once (cd_id cmd) s (handleRunScript env cmd s)"
  unfolding handleRunScript_def Let_def
  by (auto simp: reports_once_result [OF assms])

lemma handleCollectNow_once:
  assumes s: "stream_works s" and h: "handleCollectNow env cmd s = (None, t)"
  shows "reports_once (cd_id cmd) s t"
proof (cases "en_collect env")
  case (Inr h)
  show ?thesis
  proof (cases h)
    case (Some hw)
    let ?p = "CP_ReportRequest \<lparr>rr_report_id = en_uuid env, rr_type = RT_Hardware (Some hw)\<rparr>"
    have p: "fst (send_payload ?p s) = None" "stream_works (snd (send_payload ?p s))"
      "sent_results (snd (send_payload ?p s)) = sent_results s"
      using send_payload_works [OF s, of ?p] by simp_all
    obtain s1 where s1: "send_payload ?p s = (None, s1)" using p(1) by (metis prod.collapse)
    with p have "stream_works s1" "sent_results s1 = sent_results s" by simp_all
    then show ?thesis
      using assms Inr Some s1
      by (auto simp: handleCollectNow_def Let_def reports_once_def final_result_def
          sendCommandResult_works split: if_splits)
  qed (use h Inr in \<open>auto simp: handleCollectNow_def intro: reports_once_result [OF s]\<close>)
qed (use h in \<open>simp add: handleCollectNow_def\<close>)

lemma run_handler_once:
  assumes "stream_works s" "run_handler env cmd s = (None, t)"
  shows "reports_once (cd_id cmd) s t"
  using assms handleRunScript_once [OF assms(1)] handleCollectNow_once [OF assms(1)]
  by (auto simp: run_handler_def handleRestart_def handleShutdown_def Let_def reports_once_result
      split: if_splits)

lemma run_handler_panic:
  assumes "run_handler env cmd s = (Some v, t)"
  shows "t = s"
  using assms by (auto simp: run_handler_def handleCollectNow_def Let_def
      split: if_splits sum.splits option.splits prod.splits)

lemma dispatch_reports:
  assumes "stream_works s"
  shows "\<exists>r. sent_results (dispatchCommand env cmd s) = sent_results s @
      [\<lparr>cr_id = cd_id cmd, cr_status = ''Executing'', cr_exit_code = 0, cr_stdout = [],
        cr_stderr = [], cr_started_at_unix = en_clock env 0, cr_finished_at_unix = 0,
        cr_error_message = []\<rparr>, r] \<and> final_result (cd_id cmd) r"
proof -
  let ?s1 = "sendCommandResult (cd_id cmd) ''Executing'' 0 [] [] [] (en_clock env 0) 0 s"
  note s1 = sendCommandResult_works [OF assms, of "cd_id cmd" "''Executing''" 0 "[]" "[]" "[]" "en_clock env 0" 0]
  obtain v t where vt: "run_handler env cmd ?s1 = (v, t)" by fastforce
  have "reports_once (cd_id cmd) ?s1 (dispatchCommand env cmd s)"
  proof (cases v)
    case None
    with vt run_handler_once [OF s1(1)] show ?thesis by (simp add: dispatchCommand_def)
  next
    case (Some x)
    with vt run_handler_panic have "t = ?s1" by simp
    with Some vt show ?thesis by (simp add: dispatchCommand_def reports_once_result [OF s1(1)])
  qed
  then show ?thesis using s1(2) by (auto simp: reports_once_def)
qed


section \<open>Sequence numbers\<close>

text \<open>The messages of a session: those on the wire and those a goroutine is about to send.\<close>

definition held :: "session \<Rightarrow> client_message list" where
  "held s = (case se_hb s of Holding m \<Rightarrow> [m] | _ \<Rightarrow> []) @
     (case se_rp s of Holding (m, _) \<Rightarrow> [m] | _ \<Rightarrow> [])"

definition seqs :: "session \<Rightarrow> nat list" where
  "seqs s = map (unat \<circ> cm_seq) (wr_sent (se_wire s) @ held s)"

definition counter :: "session \<Rightarrow> nat" where
  "counter s = unat (cl_seq (se_client s))"

definition seq_ok :: "nat \<Rightarrow> session \<Rightarrow> bool" where
  "seq_ok lo s \<longleftrightarrow> lo \<le> counter s \<and> distinct (seqs s) \<and> (\<forall>q \<in> set (seqs s). lo < q \<and> q \<le> counter s)"

text \<open>\<open>t\<close> follows \<open>s\<close> with at most \<open>n\<close> new numbers, while the counter does not wrap.\<close>

definition numbers :: "nat \<Rightarrow> nat \<Rightarrow> session \<Rightarrow> session \<Rightarrow> bool" where
  "numbers lo n s t \<longleftrightarrow> (seq_ok lo s \<and> counter s + n < 2 ^ 64 \<longrightarrow>
     seq_ok lo t \<and> counter t \<le> counter s + n)"

lemma numbers_trans: "numbers lo n s t \<Longrightarrow> numbers lo m t u \<Longrightarrow> numbers lo (n + m) s u"
  by (auto simp: numbers_def)

lemma numbers_mono: "numbers lo n s t \<Longrightarrow> n \<le> m \<Longrightarrow> numbers lo m s t"
  by (auto simp: numbers_def)

lemma distinct_submset: "mset ys \<subseteq># mset xs \<Longrightarrow> distinct xs \<Longrightarrow> distinct ys"
proof -
  assume "mset ys \<subseteq># mset xs" "distinct xs"
  then obtain zs where "mset xs = mset (ys @ zs)"
    by (metis ex_mset mset_append mset_subset_eq_exists_conv)
  with \<open>distinct xs\<close> show ?thesis by (metis distinct_append mset_eq_imp_distinct_iff)
qed

lemma numbers_same:
  assumes "cl_seq (se_client t) = cl_seq (se_client s)"
    and "mset (seqs t) \<subseteq># mset (seqs s)"
  shows "numbers lo n s t"
proof -
  have "counter t = counter s" using assms(1) by (simp add: counter_def)
  moreover have "set (seqs t) \<subseteq> set (seqs s)" using assms(2) by (metis set_mset_mono set_mset_mset)
  moreover have "distinct (seqs s) \<Longrightarrow> distinct (seqs t)"
    using assms(2) by (rule distinct_submset)
  ultimately show ?thesis by (auto simp: numbers_def seq_ok_def)
qed

lemma unat_inc: "unat n + 1 < 2 ^ 64 \<Longrightarrow> unat (n + 1) = unat n + 1" for n :: uint64
  by (subst unat_plus_if') simp

text \<open>A new number is put at one end of the messages.\<close>

lemma numbers_next:
  assumes "cl_seq (se_client t) = cl_seq (se_client s) + 1"
    and "mset (seqs t) \<subseteq># add_mset (unat (cl_seq (se_client t))) (mset (seqs s))"
  shows "numbers lo 1 s t"
proof -
  let ?q = "unat (cl_seq (se_client t))"
  have "counter t = counter s + 1" "?q = counter s + 1" if "counter s + 1 < 2 ^ 64"
    using assms(1) that unat_inc [of "cl_seq (se_client s)"]
    by (simp_all add: counter_def)
  moreover have "set (seqs t) \<subseteq> insert ?q (set (seqs s))"
    using set_mset_mono [OF assms(2)] by simp
  moreover have "distinct (seqs s) \<Longrightarrow> ?q \<notin> set (seqs s) \<Longrightarrow> distinct (seqs t)"
    using assms(2) distinct_submset [of "seqs t" "?q # seqs s"] by simp
  ultimately show ?thesis by (fastforce simp: numbers_def seq_ok_def)
qed

lemma numbers_send_payload: "numbers lo 1 s (snd (send_payload p s))"
  by (rule numbers_next)
    (auto simp: send_payload_def nextSeq_def Send_def seqs_def held_def split: option.split)

lemma numbers_result: "numbers lo 1 s (sendCommandResult k st x out err msg a b s)"
  unfolding sendCommandResult_def by (rule numbers_send_payload)

lemma numbers_client:
  assumes "cl_seq c = cl_seq (se_client s)"
  shows "numbers lo 0 s (s\<lparr>se_client := c\<rparr>)"
  by (rule numbers_same) (simp_all add: assms seqs_def held_def)

lemma numbers_result_client:
  assumes "cl_seq c = cl_seq (se_client (sendCommandResult k st x out err msg a b s))"
  shows "numbers lo 1 s (sendCommandResult k st x out err msg a b s\<lparr>se_client := c\<rparr>)"
  using numbers_trans [OF numbers_result numbers_client [OF assms]] by simp

lemma numbers_collect: "numbers lo 2 s (snd (handleCollectNow env cmd s))"
proof (cases "en_collect env")
  case (Inl a)
  then show ?thesis by (simp add: handleCollectNow_def numbers_same)
next
  case (Inr h)
  show ?thesis
  proof (cases h)
    case None
    then show ?thesis using Inr numbers_mono [OF numbers_result, of 2]
      by (simp add: handleCollectNow_def)
  next
    case (Some hw)
    let ?p = "CP_ReportRequest \<lparr>rr_report_id = en_uuid env, rr_type = RT_Hardware (Some hw)\<rparr>"
    obtain e s1 where s1: "send_payload ?p s = (e, s1)" by fastforce
    then have "numbers lo 1 s s1" using numbers_send_payload [of lo s ?p] by simp
    have two: "numbers lo 2 s (sendCommandResult k st x out err msg a b (s1\<lparr>se_client := c\<rparr>))"
      if "cl_seq c = cl_seq (se_client s1)" for c k st x out err msg a b
      using numbers_trans [OF \<open>numbers lo 1 s s1\<close> numbers_trans [OF numbers_client [OF that] numbers_result]]
      by (simp add: numeral_2_eq_2)
    have two': "numbers lo 2 s (sendCommandResult k st x out err msg a b s1)" for k st x out err msg a b
      using numbers_trans [OF \<open>numbers lo 1 s s1\<close> numbers_result] by (simp add: numeral_2_eq_2)
    show ?thesis
      using Inr Some s1 numbers_mono [OF numbers_result, of 2]
      by (auto simp: handleCollectNow_def Let_def two two' split: option.split)
  qed
qed

lemma numbers_handler: "numbers lo 2 s (snd (run_handler env cmd s))"
proof -
  have one: "numbers lo 1 s t \<Longrightarrow> numbers lo 2 s t" for t by (erule numbers_mono) simp
  show ?thesis
    by (auto simp: run_handler_def numbers_collect handleRunScript_def handleRestart_def
        handleShutdown_def cancelSession_def Let_def intro!: one numbers_result numbers_result_client)
qed

lemma numbers_dispatch: "numbers lo 3 s (dispatchCommand env cmd s)"
proof -
  let ?s1 = "sendCommandResult (cd_id cmd) ''Executing'' 0 [] [] [] (en_clock env 0) 0 s"
  obtain v t where vt: "run_handler env cmd ?s1 = (v, t)" by fastforce
  show ?thesis
  proof (cases v)
    case None
    have "numbers lo 2 ?s1 t" using numbers_handler [of lo ?s1 env cmd] vt by simp
    from numbers_trans [OF numbers_result this] show ?thesis
      using vt None by (simp add: dispatchCommand_def numeral_2_eq_2 numeral_3_eq_3)
  next
    case (Some x)
    with vt run_handler_panic have "t = ?s1" by simp
    then show ?thesis
      using vt Some numbers_mono [OF numbers_trans [OF numbers_result numbers_result]]
      by (auto simp: dispatchCommand_def)
  qed
qed

lemma numbers_hb: "numbers lo 1 s (session_step (HbTick now) s)" "numbers lo 0 s (session_step HbSend s)"
  "numbers lo 0 s (session_step HbDone s)"
proof -
  show "numbers lo 1 s (session_step (HbTick now) s)"
  proof (cases "se_hb s = Idle")
    case True
    then show ?thesis
      by (intro numbers_next) (auto simp: heartbeat_tick_msg_def nextSeq_def seqs_def held_def)
  qed (simp add: numbers_same)
  show "numbers lo 0 s (session_step HbSend s)"
    by (rule numbers_same) (auto simp: Send_def seqs_def held_def split: routine.split option.split)
  show "numbers lo 0 s (session_step HbDone s)"
    by (rule numbers_same) (auto simp: seqs_def held_def)
qed

lemma numbers_rp: "numbers lo 1 s (session_step (RpTick info uuid) s)"
  "numbers lo 0 s (session_step RpSend s)" "numbers lo 0 s (session_step RpDone s)"
proof -
  show "numbers lo 1 s (session_step (RpTick info uuid) s)"
  proof (cases "se_rp s = Idle \<and> IsChanged (cl_marshal (se_client s)) info (cl_hash (se_client s))")
    case True
    then show ?thesis
      by (intro numbers_next) (auto simp: report_tick_def nextSeq_def seqs_def held_def)
  qed (simp add: numbers_same report_tick_def)
  show "numbers lo 0 s (session_step RpSend s)"
    by (rule numbers_same)
      (auto simp: report_send_def Send_def seqs_def held_def split: routine.split option.split)
  show "numbers lo 0 s (session_step RpDone s)"
    by (rule numbers_same) (auto simp: seqs_def held_def)
qed

lemma numbers_returns: "numbers lo 0 s (recv_returns r s)"
  by (rule numbers_same) (simp_all add: recv_returns_def cancelSession_def seqs_def held_def)

lemma numbers_recv: "numbers lo 3 s (session_step (RecvReturn env r) s)"
proof (cases "se_in_recv s")
  case True
  have "numbers lo 0 s (s\<lparr>se_in_recv := False\<rparr>)"
    by (rule numbers_same) (simp_all add: seqs_def held_def)
  note m = numbers_trans [OF this numbers_dispatch, simplified] numbers_mono [OF this]
  show ?thesis
    using True m numbers_mono [OF numbers_returns]
    by (cases r) (auto simp: recv_message_def split: server_payload.split)
qed (simp add: numbers_same)

lemma numbers_step: "numbers lo 3 s (session_step e s)"
proof (cases e)
  case RecvCheck
  have "numbers lo 0 s (s\<lparr>se_in_recv := True\<rparr>)"
    by (rule numbers_same) (simp_all add: seqs_def held_def)
  then have "numbers lo 0 s (session_step RecvCheck s)" by (simp add: numbers_same numbers_returns)
  then show ?thesis using RecvCheck numbers_mono by blast
next
  case ParentDone
  then show ?thesis using numbers_mono [OF numbers_client, of _ s 3 lo] by simp
qed (use numbers_mono [OF numbers_hb(1)] numbers_mono [OF numbers_hb(2)] numbers_mono [OF numbers_hb(3)]
    numbers_mono [OF numbers_rp(1)] numbers_mono [OF numbers_rp(2)] numbers_mono [OF numbers_rp(3)]
    numbers_recv in \<open>auto simp del: session_step.simps\<close>)

lemma numbers_run: "numbers lo (3 * length es) s (run_session es s)"
proof (induction es arbitrary: s)
  case Nil
  then show ?case by (simp add: numbers_same)
next
  case (Cons e es)
  have "numbers lo 3 s (if cl_exited (se_client s) then s else session_step e s)"
    by (simp add: numbers_step numbers_same)
  from numbers_trans [OF this Cons] show ?case by (simp add: algebra_simps)
qed


section \<open>The end of a session\<close>

lemma run_session_append: "run_session (a @ b) s = run_session b (run_session a s)"
  by (induction a arbitrary: s) simp_all

lemma run_session_exited: "cl_exited (se_client s) \<Longrightarrow> run_session es s = s"
  by (induction es) simp_all

text \<open>The turns that let every goroutine return once the session is cancelled.\<close>

definition winding_up :: "sess_event list" where
  "winding_up = [HbSend, HbDone, RpSend, RpDone]"

definition hb_ends :: "session \<Rightarrow> session" where
  "hb_ends s = session_step HbDone (session_step HbSend s)"

definition rp_ends :: "session \<Rightarrow> session" where
  "rp_ends s = session_step RpDone (session_step RpSend s)"

lemma hb_ends_eq:
  assumes "cl_cancelled (se_client s)"
  shows "se_hb (hb_ends s) = Gone" "se_client (hb_ends s) = se_client s" "se_rp (hb_ends s) = se_rp s"
    "se_result (hb_ends s) = se_result s"
  using assms by (auto simp: hb_ends_def split: routine.split prod.split)

lemma rp_ends_eq:
  assumes "cl_cancelled (se_client s)"
  shows "se_rp (rp_ends s) = Gone" "se_hb (rp_ends s) = se_hb s" "se_result (rp_ends s) = se_result s"
    "cl_restart (se_client (rp_ends s)) = cl_restart (se_client s)"
    "cl_exited (se_client (rp_ends s)) = cl_exited (se_client s)"
    "cl_shutdown (se_client (rp_ends s)) = cl_shutdown (se_client s)"
    "cl_parent_done (se_client (rp_ends s)) = cl_parent_done (se_client s)"
  using assms by (auto simp: rp_ends_def report_send_def split: routine.split prod.split option.split)

lemma winding_up_exited:
  "cl_exited (se_client (session_step HbSend s)) = cl_exited (se_client s)"
  "cl_exited (se_client (session_step HbDone s)) = cl_exited (se_client s)"
  "cl_exited (se_client (session_step RpSend s)) = cl_exited (se_client s)"
  by (auto simp: report_send_def split: routine.split prod.split option.split)

lemma run_winding_up: "\<not> cl_exited (se_client s) \<Longrightarrow> run_session winding_up s = rp_ends (hb_ends s)"
  by (simp add: winding_up_def hb_ends_def rp_ends_def winding_up_exited del: session_step.simps)

lemma winding_up_ends:
  assumes "\<not> cl_exited (se_client s)" "cl_cancelled (se_client s)" "se_result s = Some r"
  shows "fst (session_outcome (run_session winding_up s)) =
      Returned (if cl_restart (se_client s) then None else r)"
    "\<not> cl_restart (snd (session_outcome (run_session winding_up s)))"
    "cl_shutdown (snd (session_outcome (run_session winding_up s))) = cl_shutdown (se_client s)"
    "cl_parent_done (snd (session_outcome (run_session winding_up s))) = cl_parent_done (se_client s)"
  using assms by (simp_all add: run_winding_up session_outcome_def hb_ends_eq rp_ends_eq)

text \<open>Whatever a session is doing, a cancellation from above ends it in finitely many turns.\<close>

lemma parent_done_ends:
  assumes "\<not> cl_exited (se_client s)" "\<not> cl_restart (se_client s)" "se_result s = None"
  shows "fst (session_outcome (run_session
      ([ParentDone, RecvReturn env (GotError e), RecvCheck] @ winding_up) s)) =
    Returned (Some (if se_in_recv s then e else context_canceled))"
proof -
  let ?s = "run_session [ParentDone, RecvReturn env (GotError e), RecvCheck] s"
  have "\<not> cl_exited (se_client ?s)" "cl_cancelled (se_client ?s)" "\<not> cl_restart (se_client ?s)"
    "se_result ?s = Some (Some (if se_in_recv s then e else context_canceled))"
    using assms by (simp_all add: recv_returns_def cancelSession_def context_canceled_def)
  from winding_up_ends(1) [OF this(1,2,4)] this(3) show ?thesis by (simp only: run_session_append if_False)
qed

section \<open>Restart and shutdown\<close>

lemma sendCommandResult_client [simp]:
  "cl_restart (se_client (sendCommandResult k st x out err msg a b s)) = cl_restart (se_client s)"
  "cl_shutdown (se_client (sendCommandResult k st x out err msg a b s)) = cl_shutdown (se_client s)"
  "cl_exited (se_client (sendCommandResult k st x out err msg a b s)) = cl_exited (se_client s)"
  "cl_cancelled (se_client (sendCommandResult k st x out err msg a b s)) = cl_cancelled (se_client s)"
  "cl_parent_done (se_client (sendCommandResult k st x out err msg a b s)) = cl_parent_done (se_client s)"
  "se_result (sendCommandResult k st x out err msg a b s) = se_result s"
  "se_in_recv (sendCommandResult k st x out err msg a b s) = se_in_recv s"
  by (simp_all add: sendCommandResult_def send_payload_def nextSeq_def split: prod.split)

lemma dispatch_restart:
  assumes "cd_type cmd = ct_restart"
  shows "cl_restart (se_client (dispatchCommand env cmd s))"
    "cl_cancelled (se_client (dispatchCommand env cmd s))"
    "cl_exited (se_client (dispatchCommand env cmd s)) = cl_exited (se_client s)"
    "cl_shutdown (se_client (dispatchCommand env cmd s)) = cl_shutdown (se_client s)"
    "cl_parent_done (se_client (dispatchCommand env cmd s)) = cl_parent_done (se_client s)"
    "se_result (dispatchCommand env cmd s) = se_result s"
    "se_in_recv (dispatchCommand env cmd s) = se_in_recv s"
  using assms by (simp_all add: dispatchCommand_def run_handler_def handleRestart_def ct_defs
      cancelSession_def Let_def)

lemma dispatch_shutdown:
  assumes "cd_type cmd = ct_shutdown"
  shows "cl_exited (se_client (dispatchCommand env cmd s))"
  using assms by (simp add: dispatchCommand_def run_handler_def handleShutdown_def ct_defs
      cancelSession_def Let_def)

lemma restart_ends_session:
  assumes "se_in_recv s" "se_result s = None" "\<not> cl_exited (se_client s)"
    and "sm_payload m = SP_Command cmd" "cd_type cmd = ct_restart"
  shows "fst (session_outcome (run_session
      ([RecvReturn env (GotMessage m), RecvCheck] @ winding_up) s)) = Returned None"
    "\<not> cl_restart (snd (session_outcome (run_session
      ([RecvReturn env (GotMessage m), RecvCheck] @ winding_up) s)))"
proof -
  let ?d = "dispatchCommand env cmd (s\<lparr>se_in_recv := False\<rparr>)"
  let ?s = "run_session [RecvReturn env (GotMessage m), RecvCheck] s"
  have s: "?s = recv_returns (Some context_canceled) ?d"
    using assms by (simp add: recv_message_def dispatch_restart context_canceled_def)
  have "\<not> cl_exited (se_client ?s)" "cl_cancelled (se_client ?s)" "cl_restart (se_client ?s)"
    "se_result ?s = Some (Some context_canceled)"
    using assms unfolding s by (simp_all add: recv_returns_def cancelSession_def dispatch_restart)
  from winding_up_ends(1,2) [OF this(1,2,4)] this(3) show
    "fst (session_outcome (run_session ([RecvReturn env (GotMessage m), RecvCheck] @ winding_up) s)) = Returned None"
    "\<not> cl_restart (snd (session_outcome (run_session
      ([RecvReturn env (GotMessage m), RecvCheck] @ winding_up) s)))"
    by (simp_all only: run_session_append if_True not_False_eq_True)
qed

section \<open>Every goroutine returns\<close>

text \<open>What a schedule must contain for a goroutine to come to an end once the session is cancelled.\<close>

definition recv_turns :: "bool \<Rightarrow> sess_event list \<Rightarrow> bool" where
  "recv_turns blocked es \<longleftrightarrow> (\<exists>xs ys. es = xs @ RecvCheck # ys \<and>
     (blocked \<longrightarrow> (\<exists>env r. RecvReturn env r \<in> set xs)))"

definition hb_turns :: "sess_event list \<Rightarrow> bool" where
  "hb_turns es \<longleftrightarrow> (\<exists>xs ys zs. es = xs @ HbSend # ys @ HbDone # zs \<and> (\<forall>now. HbTick now \<notin> set ys))"

definition rp_turns :: "sess_event list \<Rightarrow> bool" where
  "rp_turns es \<longleftrightarrow> (\<exists>xs ys zs. es = xs @ RpSend # ys @ RpDone # zs \<and> (\<forall>info uuid. RpTick info uuid \<notin> set ys))"

lemma run_inv: "(\<And>e s. e \<in> set es \<Longrightarrow> P s \<Longrightarrow> P (session_step e s)) \<Longrightarrow> P s \<Longrightarrow> P (run_session es s)"
  by (induction es arbitrary: s) (simp_all del: session_step.simps)

lemma send_result_routines [simp]:
  "se_hb (sendCommandResult k st x out err msg a b s) = se_hb s"
  "se_rp (sendCommandResult k st x out err msg a b s) = se_rp s"
  by (simp_all add: sendCommandResult_def send_payload_def nextSeq_def split: prod.split)

definition recv_frame :: "session \<Rightarrow> session \<Rightarrow> bool" where
  "recv_frame s t \<longleftrightarrow> (cl_cancelled (se_client s) \<longrightarrow> cl_cancelled (se_client t)) \<and> se_hb t = se_hb s \<and>
     se_rp t = se_rp s \<and> se_in_recv t = se_in_recv s \<and> se_result t = se_result s"

lemma dispatch_frame: "recv_frame s (dispatchCommand env cmd s)"
  by (auto simp: recv_frame_def dispatchCommand_def Let_def run_handler_def handleCollectNow_def handleRunScript_def
      handleRestart_def handleShutdown_def cancelSession_def send_payload_def nextSeq_def
      split: prod.splits option.splits sum.splits)

lemma dispatch_exits:
  "cd_type cmd \<noteq> ct_shutdown \<Longrightarrow> cl_exited (se_client (dispatchCommand env cmd s)) = cl_exited (se_client s)"
  by (auto simp: dispatchCommand_def Let_def run_handler_def handleCollectNow_def handleRunScript_def
      handleRestart_def cancelSession_def send_payload_def nextSeq_def
      split: prod.splits option.splits sum.splits)

lemma dispatch_exitsD:
  "cl_exited (se_client (dispatchCommand env cmd s)) \<Longrightarrow> \<not> cl_exited (se_client s) \<Longrightarrow> cd_type cmd = ct_shutdown"
  using dispatch_exits by metis

lemma message_frame: "recv_frame s (recv_message env m s)"
  using dispatch_frame by (auto simp: recv_message_def recv_frame_def split: server_payload.split)


lemma step_cancelled: "cl_cancelled (se_client s) \<Longrightarrow> cl_cancelled (se_client (session_step e s))"
  using message_frame
  by (cases e) (auto simp: recv_frame_def heartbeat_tick_msg_def report_tick_def report_send_def nextSeq_def
      recv_returns_def cancelSession_def split: routine.split server_recv.split prod.split option.split)

lemma step_result: "se_result s \<noteq> None \<Longrightarrow> se_result (session_step e s) \<noteq> None"
  using message_frame
  by (cases e) (auto simp: recv_frame_def heartbeat_tick_msg_def report_tick_def report_send_def nextSeq_def
      recv_returns_def cancelSession_def split: routine.split server_recv.split prod.split option.split)

lemma step_in_recv:
  "cl_cancelled (se_client s) \<Longrightarrow> \<not> se_in_recv s \<Longrightarrow> \<not> se_in_recv (session_step e s)"
  by (cases e) (auto simp: heartbeat_tick_msg_def report_tick_def report_send_def nextSeq_def
      recv_returns_def cancelSession_def split: routine.split server_recv.split prod.split option.split)

lemma step_hb:
  "se_hb s = Gone \<Longrightarrow> se_hb (session_step e s) = Gone"
  "(\<nexists>m. se_hb s = Holding m) \<Longrightarrow> \<forall>now. e \<noteq> HbTick now \<Longrightarrow> \<nexists>m. se_hb (session_step e s) = Holding m"
  using message_frame
  by (cases e; auto simp: recv_frame_def heartbeat_tick_msg_def report_tick_def report_send_def nextSeq_def
      recv_returns_def cancelSession_def split: routine.splits server_recv.splits prod.splits option.splits)+

lemma step_rp:
  "se_rp s = Gone \<Longrightarrow> se_rp (session_step e s) = Gone"
  "(\<nexists>m. se_rp s = Holding m) \<Longrightarrow> \<forall>info uuid. e \<noteq> RpTick info uuid \<Longrightarrow> \<nexists>m. se_rp (session_step e s) = Holding m"
  using message_frame
  by (cases e; auto simp: recv_frame_def heartbeat_tick_msg_def report_tick_def report_send_def nextSeq_def
      recv_returns_def cancelSession_def split: routine.splits server_recv.splits prod.splits option.splits)+


lemmas run_cancelled = run_inv [where P = "\<lambda>s. cl_cancelled (se_client s)", OF step_cancelled]

text \<open>If the process has not exited after a run, it had not at any point of it.\<close>

lemma run_split:
  assumes "\<not> cl_exited (se_client (run_session (xs @ e # ys) s))"
  shows "run_session (xs @ e # ys) s = run_session ys (session_step e (run_session xs s))"
proof -
  have "\<not> cl_exited (se_client (run_session xs s))"
    using assms run_session_exited [of "run_session xs s" "e # ys"] by (auto simp only: run_session_append)
  then show ?thesis by (simp add: run_session_append del: session_step.simps)
qed

lemma recv_returns_at_last:
  assumes "cl_cancelled (se_client s)" "recv_turns (se_in_recv s) es" "\<not> cl_exited (se_client (run_session es s))"
  shows "se_result (run_session es s) \<noteq> None"
proof -
  obtain xs ys where es: "es = xs @ RecvCheck # ys"
    "se_in_recv s \<Longrightarrow> \<exists>env r. RecvReturn env r \<in> set xs"
    using assms(2) by (auto simp: recv_turns_def)
  let ?t = "run_session xs s"
  let ?P = "\<lambda>s. cl_cancelled (se_client s) \<and> \<not> se_in_recv s"
  have run: "run_session es s = run_session ys (session_step RecvCheck ?t)"
    using run_split assms(3) unfolding es(1) by blast
  have keep: "?P (run_session zs u)" if "?P u" for zs u
    by (rule run_inv [where P = ?P]) (use that step_cancelled step_in_recv in blast)+
  have "\<not> cl_exited (se_client ?t)"
    using assms(3) run_session_exited [of ?t "RecvCheck # ys"] unfolding es(1) by (auto simp only: run_session_append)
  have "?P ?t"
  proof (cases "se_in_recv s")
    case True
    then obtain env r as bs where xs: "xs = as @ RecvReturn env r # bs" using es(2) by (meson split_list)
    have t: "?t = run_session bs (session_step (RecvReturn env r) (run_session as s))"
      using run_split \<open>\<not> cl_exited (se_client ?t)\<close> unfolding xs by blast
    have "cl_cancelled (se_client (run_session as s))" by (rule run_cancelled [OF _ assms(1)])
    then have "?P (session_step (RecvReturn env r) (run_session as s))"
      using step_cancelled message_frame
      by (auto simp: recv_frame_def recv_returns_def cancelSession_def split: server_recv.split)
    from keep [OF this] t show ?thesis by simp
  qed (use keep assms(1) in simp)
  then have "se_result (session_step RecvCheck ?t) \<noteq> None" by (simp add: recv_returns_def cancelSession_def)
  then show ?thesis unfolding run
    by (intro run_inv [where P = "\<lambda>s. se_result s \<noteq> None"]) (rule step_result)
qed

lemma hb_returns_at_last:
  assumes "cl_cancelled (se_client s)" "hb_turns es" "\<not> cl_exited (se_client (run_session es s))"
  shows "se_hb (run_session es s) = Gone"
proof -
  obtain xs ys zs where es: "es = xs @ HbSend # ys @ HbDone # zs" "\<forall>now. HbTick now \<notin> set ys"
    using assms(2) by (auto simp: hb_turns_def)
  let ?t = "session_step HbSend (run_session xs s)"
  have 1: "run_session es s = run_session (ys @ HbDone # zs) ?t"
    using run_split assms(3) unfolding es(1) by blast
  have 2: "run_session (ys @ HbDone # zs) ?t = run_session zs (session_step HbDone (run_session ys ?t))"
    by (rule run_split) (use assms(3) 1 in simp)
  have "\<nexists>m. se_hb ?t = Holding m" by (auto split: routine.split prod.split)
  then have "\<nexists>m. se_hb (run_session ys ?t) = Holding m"
    by (rule run_inv [where P = "\<lambda>s. \<nexists>m. se_hb s = Holding m", rotated]) (rule step_hb(2); use es(2) in blast)
  moreover have "cl_cancelled (se_client (run_session ys ?t))"
    by (intro run_cancelled step_cancelled assms(1))
  ultimately have last: "se_hb (session_step HbDone (run_session ys ?t)) = Gone"
    by (cases "se_hb (run_session ys ?t)") auto
  show ?thesis unfolding 1 2
    by (rule run_inv [where P = "\<lambda>s. se_hb s = Gone", OF step_hb(1) last])
qed

lemma rp_returns_at_last:
  assumes "cl_cancelled (se_client s)" "rp_turns es" "\<not> cl_exited (se_client (run_session es s))"
  shows "se_rp (run_session es s) = Gone"
proof -
  obtain xs ys zs where es: "es = xs @ RpSend # ys @ RpDone # zs" "\<forall>info uuid. RpTick info uuid \<notin> set ys"
    using assms(2) by (auto simp: rp_turns_def)
  let ?t = "session_step RpSend (run_session xs s)"
  have 1: "run_session es s = run_session (ys @ RpDone # zs) ?t"
    using run_split assms(3) unfolding es(1) by blast
  have 2: "run_session (ys @ RpDone # zs) ?t = run_session zs (session_step RpDone (run_session ys ?t))"
    by (rule run_split) (use assms(3) 1 in simp)
  have "\<nexists>m. se_rp ?t = Holding m" by (auto simp: report_send_def split: routine.split prod.split option.split)
  then have "\<nexists>m. se_rp (run_session ys ?t) = Holding m"
    by (rule run_inv [where P = "\<lambda>s. \<nexists>m. se_rp s = Holding m", rotated]) (rule step_rp(2); use es(2) in blast)
  moreover have "cl_cancelled (se_client (run_session ys ?t))"
    by (intro run_cancelled step_cancelled assms(1))
  ultimately have last: "se_rp (session_step RpDone (run_session ys ?t)) = Gone"
    by (cases "se_rp (run_session ys ?t)") auto
  show ?thesis unfolding 1 2
    by (rule run_inv [where P = "\<lambda>s. se_rp s = Gone", OF step_rp(1) last])
qed

lemma exits_by_shutdown:
  assumes "\<not> cl_exited (se_client s)" "cl_exited (se_client (run_session es s))"
  shows "\<exists>env m cmd. RecvReturn env (GotMessage m) \<in> set es \<and> sm_payload m = SP_Command cmd \<and> cd_type cmd = ct_shutdown"
  using assms
proof (induction es arbitrary: s)
  case (Cons e es)
  show ?case
  proof (cases "cl_exited (se_client (session_step e s))")
    case True
    have "\<exists>env m cmd. e = RecvReturn env (GotMessage m) \<and> sm_payload m = SP_Command cmd \<and> cd_type cmd = ct_shutdown"
      using True Cons.prems(1)
      by (cases e) (auto simp: heartbeat_tick_msg_def report_tick_def report_send_def nextSeq_def recv_message_def
          recv_returns_def cancelSession_def split: routine.splits server_recv.splits prod.splits option.splits
          if_splits server_payload.splits dest: dispatch_exitsD)
    then show ?thesis by force
  next
    case False
    then show ?thesis using Cons.IH [of "session_step e s"] Cons.prems by (auto simp del: session_step.simps)
  qed
qed simp

section \<open>The back-off\<close>

text \<open>The delay before the jitter: the initial delay doubled for each attempt, up to the maximum.\<close>

definition plain_delay :: "int \<Rightarrow> int \<Rightarrow> nat \<Rightarrow> int" where
  "plain_delay initial maxd attempt = min (initial * 2 ^ min attempt 63) maxd"

lemma f64_int: "\<bar>i\<bar> < 2 ^ 53 \<Longrightarrow> f64 (of_int i) = of_int i"
  using f64_exact [of i 0] by (simp add: pow2_def)

lemma backoff_delay_eq:
  assumes "0 \<le> sint initial" "sint initial \<le> 2 ^ 50" "0 \<le> sint maxd" "sint maxd \<le> 2 ^ 50"
  shows "backoff_delay initial maxd attempt = of_int (plain_delay (sint initial) (sint maxd) attempt)"
proof -
  let ?f = "min attempt 63"
  define i x where "i = sint initial" and "x = sint maxd"
  have bounds: "\<bar>i\<bar> < 2 ^ 53" "\<bar>x\<bar> < 2 ^ 53" using assms by (simp_all add: i_def x_def)
  have "f64 (of_int i * 2 ^ ?f) = of_int i * pow2 (int ?f)"
    using f64_exact [OF bounds(1), of "int ?f"] by (simp add: pow2_nonneg)
  also have "\<dots> = of_int (i * 2 ^ ?f)" by (simp add: pow2_nonneg)
  finally have "backoff_delay initial maxd attempt =
      (if of_int x < (of_int (i * 2 ^ ?f) :: rat) then of_int x else of_int (i * 2 ^ ?f))"
    unfolding backoff_delay_def i_def [symmetric] x_def [symmetric] Let_def
      f64_int [OF bounds(1)] f64_int [OF bounds(2)] by simp
  also have "\<dots> = of_int (min (i * 2 ^ ?f) x)"
    unfolding of_int_less_iff by (simp add: min_def)
  finally show ?thesis by (simp add: plain_delay_def i_def x_def)
qed

text \<open>The jitter changes the delay by at most a quarter.\<close>

lemma backoff_bounds:
  fixes attempt :: nat
  assumes "0 \<le> sint initial" "sint initial \<le> 2 ^ 50" "0 \<le> sint maxd" "sint maxd \<le> 2 ^ 50" "m < 2 ^ 53"
  defines "d \<equiv> plain_delay (sint initial) (sint maxd) attempt"
  shows "3 * d \<le> 4 * sint (backoff initial maxd attempt m) + 8"
    "4 * sint (backoff initial maxd attempt m) \<le> 5 * d + 5"
proof -
  have d: "0 \<le> d" "d \<le> 2 ^ 50" using assms by (auto simp: d_def plain_delay_def)
  define t where "t = (of_nat m / 2 ^ 53 * 2 - 1 :: rat)"
  have "f64 (of_int (int m) * pow2 (- 52)) = of_int (int m) * pow2 (- 52)"
    using assms(5) by (intro f64_exact) simp
  then have r2: "f64 (of_nat m / 2 ^ 53 * 2) = of_nat m / 2 ^ 53 * 2" by (simp add: pow2_def)
  have "f64 (of_int (int m - 2 ^ 52) * pow2 (- 52)) = of_int (int m - 2 ^ 52) * pow2 (- 52)"
    using assms(5) by (intro f64_exact) simp
  then have t: "f64 t = t" by (simp add: pow2_def t_def field_simps)
  have "f64 (of_int d * pow2 (- 2)) = of_int d * pow2 (- 2)"
    using d by (intro f64_exact) simp
  then have q: "f64 (of_int d * (1 / 4)) = of_int d * (1 / 4)" by (simp add: pow2_def)
  have tb: "\<bar>t\<bar> \<le> 1" using assms(5) by (simp add: t_def abs_le_iff field_simps)
  define x where "x = of_int d * (1 / 4) * t"
  have d': "0 \<le> (of_int d :: rat)" "of_int d \<le> (1125899906842624 :: rat)" using d by simp_all
  have x: "\<bar>x\<bar> \<le> of_int d / 4" unfolding x_def using tb d' mult_left_mono [OF tb, of "of_int d * (1 / 4)"]
    by (simp add: abs_mult)
  have e1: "\<bar>f64 x - x\<bar> \<le> 1 / 4"
  proof -
    have "\<bar>x\<bar> * pow2 (- 53) \<le> 1125899906842624 * pow2 (- 53)"
      using x d' by (intro mult_right_mono) (simp_all add: less_imp_le)
    then show ?thesis using f64_error [of x] by (simp add: pow2_def)
  qed
  define y where "y = of_int d + f64 x"
  have y: "\<bar>y\<bar> \<le> 2251799813685248" using x e1 d' unfolding y_def by linarith
  have e2: "\<bar>f64 y - y\<bar> \<le> 1 / 4"
  proof -
    have "\<bar>y\<bar> * pow2 (- 53) \<le> 2251799813685248 * pow2 (- 53)"
      using y by (intro mult_right_mono) (simp_all add: less_imp_le)
    then show ?thesis using f64_error [of y] by (simp add: pow2_def)
  qed
  have lo: "of_int d * (3 / 4) - 1 / 2 \<le> f64 y" and hi: "f64 y \<le> of_int d * (5 / 4) + 1 / 2"
    using x e1 e2 unfolding y_def by linarith+
  define k where "k = go_trunc (f64 y)"
  have k: "of_int k - 1 < f64 y" "f64 y < of_int k + 1"
    unfolding k_def go_trunc_def by (auto; linarith)+
  have "- 2 < k" "k < 4503599627370496" using k lo hi d' by linarith+
  then have "sint (word_of_int k :: int64) = k" by (intro sint_of_int64) simp_all
  moreover have "backoff initial maxd attempt m = word_of_int k"
    unfolding backoff_def backoff_delay_eq [OF assms(1-4)] Let_def d_def [symmetric] q r2
    using t by (simp add: k_def y_def x_def t_def)
  moreover have "3 * d \<le> 4 * k + 8" "4 * k \<le> 5 * d + 5"
  proof -
    have "of_int (3 * d) < (of_int (4 * k + 8) :: rat)" using k(2) lo by simp
    then show "3 * d \<le> 4 * k + 8" by linarith
    have "of_int (4 * k) < (of_int (5 * d + 6) :: rat)" using k(1) hi by simp
    then show "4 * k \<le> 5 * d + 5" by linarith
  qed
  ultimately show "3 * d \<le> 4 * sint (backoff initial maxd attempt m) + 8"
    "4 * sint (backoff initial maxd attempt m) \<le> 5 * d + 5" by simp_all
qed


section \<open>What a session leaves alone\<close>

definition identity :: "client \<Rightarrow> Config \<times> SysInfo \<times> (hardware_info \<Rightarrow> string option) \<times> string \<times> string" where
  "identity c = (cl_cfg c, cl_info c, cl_marshal c, cl_device c, cl_session c)"

lemma identity_updates [simp]:
  "identity (c\<lparr>cl_seq := n\<rparr>) = identity c" "identity (c\<lparr>cl_hash := h\<rparr>) = identity c"
  "identity (c\<lparr>cl_cancelled := b\<rparr>) = identity c" "identity (c\<lparr>cl_restart := b\<rparr>) = identity c"
  "identity (c\<lparr>cl_shutdown := b\<rparr>) = identity c" "identity (c\<lparr>cl_parent_done := b\<rparr>) = identity c"
  "identity (c\<lparr>cl_exited := b\<rparr>) = identity c"
  by (simp_all add: identity_def)

lemma identity_send [simp]: "identity (se_client (snd (send_payload p s))) = identity (se_client s)"
  "identity (se_client (sendCommandResult k st x out err msg a b s)) = identity (se_client s)"
  by (simp_all add: send_payload_def sendCommandResult_def nextSeq_def split: prod.split)

lemma identity_cancel [simp]: "identity (se_client (cancelSession s)) = identity (se_client s)"
  by (simp add: cancelSession_def)

lemma identity_collect: "identity (se_client (snd (handleCollectNow env cmd s))) = identity (se_client s)"
proof (cases "en_collect env")
  case (Inr h)
  show ?thesis
  proof (cases h)
    case (Some hw)
    let ?p = "CP_ReportRequest \<lparr>rr_report_id = en_uuid env, rr_type = RT_Hardware (Some hw)\<rparr>"
    obtain e s1 where s1: "send_payload ?p s = (e, s1)" by fastforce
    then have "identity (se_client s1) = identity (se_client s)" using identity_send(1) [of ?p s] by simp
    then show ?thesis using Inr Some s1
      by (auto simp: handleCollectNow_def Let_def split: option.split)
  qed (simp add: Inr handleCollectNow_def)
qed (simp add: handleCollectNow_def)

lemma identity_dispatch [simp]: "identity (se_client (dispatchCommand env cmd s)) = identity (se_client s)"
proof -
  have "identity (se_client (snd (run_handler env cmd t))) = identity (se_client t)" for t
    by (simp add: run_handler_def identity_collect handleRunScript_def handleRestart_def
        handleShutdown_def Let_def)
  then show ?thesis
    by (simp add: dispatchCommand_def split: prod.split option.split) (metis identity_send(2) snd_conv)
qed

lemma identity_report_send [simp]: "identity (se_client (report_send m info s)) = identity (se_client s)"
  by (simp add: report_send_def split: prod.split option.split)

lemma identity_recv [simp]:
  "identity (se_client (recv_returns r s)) = identity (se_client s)"
  "identity (se_client (recv_message env m s)) = identity (se_client s)"
  by (simp_all add: recv_returns_def recv_message_def split: server_payload.split)

lemma identity_step [simp]: "identity (se_client (session_step e s)) = identity (se_client s)"
proof (cases e)
  case (RecvReturn env r)
  then show ?thesis by (cases r) simp_all
qed (simp_all add: heartbeat_tick_msg_def report_tick_def nextSeq_def split: routine.split prod.split)

lemma identity_run [simp]: "identity (se_client (run_session es s)) = identity (se_client s)"
  by (induction es arbitrary: s) simp_all

lemma session_outcome_cfg [simp]: "cl_cfg (snd (session_outcome s)) = cl_cfg (se_client s)"
  by (simp add: session_outcome_def split: option.split)

lemma run_session_cfg [simp]: "cl_cfg (se_client (run_session es s)) = cl_cfg (se_client s)"
  using identity_run [of es s] by (simp add: identity_def)

lemma connect_session_cfg [simp]: "cl_cfg (snd (connect_session env c)) = cl_cfg c"
  by (simp add: connect_session_def start_session_def split: option.split)

lemma connect_cfg [simp]: "cl_cfg (snd (connect env c)) = cl_cfg c"
proof -
  have d: "cl_cfg (with_device h c) = cl_cfg c" for h by (simp add: with_device_def)
  show ?thesis
    by (cases "cn_dial env"; cases "cn_register env (register_request (with_device (cn_host env) c))")
      (simp_all add: connect_def d Let_def)
qed

section \<open>The loop\<close>

text \<open>
  The client after a list of cycles in each of which the connection attempt failed or the session
  ended with an error that is not fatal, and nobody asked the client to stop.
\<close>

fun failing :: "cycle list \<Rightarrow> client \<Rightarrow> client option" where
  "failing [] c = Some c"
| "failing (cy # cys) c =
     (if cl_shutdown c \<or> cl_parent_done c \<or> cy_cancel cy \<noteq> NoCancel then None
      else case connect (cy_connect cy) c of
          (Returned (Some e), c1) \<Rightarrow> if isFatal e then None else failing cys c1
        | _ \<Rightarrow> None)"

definition retry_delays :: "Config \<Rightarrow> nat \<Rightarrow> cycle list \<Rightarrow> int64 list" where
  "retry_delays cfg a cys = map (\<lambda>(k, cy). backoff (cf_reconnect_initial cfg) (cf_reconnect_max cfg) k
      (cy_rand cy)) (filter (\<lambda>p. 0 < fst p) (zip [a..<a + length cys] cys))"

lemma retry_delays_Cons: "retry_delays cfg a (cy # cys) =
    (if 0 < a then [backoff (cf_reconnect_initial cfg) (cf_reconnect_max cfg) a (cy_rand cy)] else []) @
    retry_delays cfg (Suc a) cys"
proof -
  have "[a..<a + length (cy # cys)] = a # [Suc a..<Suc a + length cys]"
    by (simp add: upt_conv_Cons del: upt_Suc)
  then show ?thesis by (simp add: retry_delays_def del: upt_Suc)
qed

lemma retry_delays_0: "retry_delays cfg 0 cys = map (\<lambda>k. backoff (cf_reconnect_initial cfg)
    (cf_reconnect_max cfg) (k + 1) (cy_rand (cys ! (k + 1)))) [0..<length cys - 1]"
proof (cases cys)
  case (Cons cy cs)
  have "retry_delays cfg 0 cys = retry_delays cfg 1 cs" by (simp add: Cons retry_delays_Cons)
  moreover have "filter (\<lambda>p. 0 < fst p) (zip [1..<1 + length cs] cs) = zip [1..<1 + length cs] cs"
    by (auto simp: filter_id_conv simp del: upt_Suc dest!: set_zip_leftD)
  ultimately have "retry_delays cfg 0 cys = map (\<lambda>(k, cy). backoff (cf_reconnect_initial cfg)
      (cf_reconnect_max cfg) k (cy_rand cy)) (zip [1..<1 + length cs] cs)"
    by (simp only: retry_delays_def)
  then show ?thesis by (simp only:) (rule nth_equalityI, simp_all add: Cons del: upt_Suc)
qed (simp add: retry_delays_def)

lemma failing_run:
  "failing cys c = Some d \<Longrightarrow> Run_loop a (cys @ rest) c =
     (case Run_loop (a + length cys) rest d of (r, ds, e) \<Rightarrow> (r, retry_delays (cl_cfg c) a cys @ ds, e)) \<and>
   cl_cfg d = cl_cfg c"
proof (induction cys arbitrary: a c)
  case Nil
  then show ?case by (simp add: retry_delays_def)
next
  case (Cons cy cys)
  obtain o1 c1 where o1: "connect (cy_connect cy) c = (o1, c1)" by fastforce
  with Cons.prems obtain e where e: "o1 = Returned (Some e)" "\<not> isFatal e" "failing cys c1 = Some d"
    by (auto split: if_splits outcome.splits option.splits)
  have cfg: "cl_cfg c1 = cl_cfg c" using connect_cfg [of "cy_connect cy" c] o1 by simp
  have run: "\<not> cl_shutdown c" "\<not> cl_parent_done c" "cy_cancel cy = NoCancel"
    using Cons.prems by (auto split: if_splits)
  show ?case
    using Cons.IH [OF e(3), of "Suc a"] o1 e cfg run
    by (simp add: retry_delays_Cons split: prod.split)
qed

lemma run_delays:
  assumes "\<And>k cy. 0 < k \<Longrightarrow> cy \<in> set cys \<Longrightarrow>
      Q (backoff (cf_reconnect_initial (cl_cfg c)) (cf_reconnect_max (cl_cfg c)) k (cy_rand cy))"
  shows "\<forall>x \<in> set (fst (snd (Run_loop a cys c))). Q x"
  using assms
proof (induction cys arbitrary: a c)
  case (Cons cy cys)
  obtain o1 c1 where o1: "connect (cy_connect cy) c = (o1, c1)" by fastforce
  have cfg: "cl_cfg c1 = cl_cfg c" using connect_cfg [of "cy_connect cy" c] o1 by simp
  have "\<forall>x \<in> set (fst (snd (Run_loop b cys c1))). Q x" for b
    by (rule Cons.IH) (simp add: cfg Cons.prems)
  moreover have "0 < a \<Longrightarrow> Q (backoff (cf_reconnect_initial (cl_cfg c)) (cf_reconnect_max (cl_cfg c)) a
      (cy_rand cy))" by (rule Cons.prems) simp_all
  ultimately show ?case
    using o1 by (auto simp: Let_def case_prod_beta split: outcome.split option.split)
qed simp

end
