(* ===== verification/ClientSpec.thy ===== *)
theory ClientSpec
  imports ClientRuns
begin

text \<open>
  Properties of the terminal agent: its device id, what it reads from \<open>/proc\<close>, what a command
  reports, the messages of a session, how sessions end, and how it connects again.
\<close>

section \<open>Identity\<close>

text \<open>C31: The device id always has 64 characters; it consists of lower-case hexadecimal digits unless
  a cached file of 64 other bytes exists, which is taken as it is; and where the first call can
  write the home directory, every later call returns the same id as long as the cache file keeps its
  contents and its place, whatever else of the machine has changed.\<close>

theorem device_id_stable:
  "length (fst (GenerateDeviceID h)) = 64 \<and>
   (hex_text (fst (GenerateDeviceID h)) \<or>
      ho_file h (deviceIDCachePath h) = Some (fst (GenerateDeviceID h))) \<and>
   (ho_writable h \<longrightarrow> (\<forall>h'. deviceIDCachePath h' = deviceIDCachePath h \<and>
      ho_file h' (deviceIDCachePath h) = ho_file (snd (GenerateDeviceID h)) (deviceIDCachePath h) \<longrightarrow>
      GenerateDeviceID h' = (fst (GenerateDeviceID h), h')))"
proof (intro conjI impI allI)
  show "hex_text (fst (GenerateDeviceID h)) \<or>
      ho_file h (deviceIDCachePath h) = Some (fst (GenerateDeviceID h))"
    by (cases h rule: GenerateDeviceID_cases) (simp_all add: fresh_device_id_hex)
qed (rule GenerateDeviceID_length, elim conjE, rule GenerateDeviceID_cached)

definition demo_host :: host where
  "demo_host = \<lparr>ho_goos = ''linux'', ho_goarch = ''amd64'', ho_hostname = Some ''pc'',
     ho_file = Map.empty, ho_dir = Map.empty, ho_exists = (\<lambda>_. False), ho_writable = True,
     ho_home = Some ''/root'', ho_temp = ''/tmp'', ho_ifaces = None, ho_statfs = Map.empty,
     ho_parse_cidr = Map.empty, ho_parse_ip = Map.empty\<rparr>"

theorem device_id_stable_witness:
  "fst (GenerateDeviceID ((snd (GenerateDeviceID demo_host))\<lparr>ho_hostname := Some ''renamed''\<rparr>)) =
     fst (GenerateDeviceID demo_host)"
proof -
  let ?h = "(snd (GenerateDeviceID demo_host))\<lparr>ho_hostname := Some ''renamed''\<rparr>"
  have "deviceIDCachePath ?h = deviceIDCachePath demo_host"
    by (cases demo_host rule: GenerateDeviceID_cases) (simp_all add: deviceIDCachePath_def demo_host_def)
  then show ?thesis using device_id_stable [of demo_host] by (simp add: demo_host_def)
qed

section \<open>Reading \<open>/proc\<close>\<close>

text \<open>The lines of \<open>/proc/meminfo\<close>: a key, some blanks, a number and, for sizes, the unit. Each ends in a newline.\<close>

definition meminfo_line :: "string \<times> nat \<times> nat \<times> bool \<Rightarrow> string" where
  "meminfo_line = (\<lambda>(k, b, n, kb). k @ '':'' @ replicate b CHR '' '' @ show_nat n @ (if kb then '' kB'' else []))"

definition meminfo_text :: "(string \<times> nat \<times> nat \<times> bool) list \<Rightarrow> string" where
  "meminfo_text es = concat (map (\<lambda>e. meminfo_line e @ [newline]) es)"

definition meminfo_entry :: "string \<times> nat \<times> nat \<times> bool \<Rightarrow> bool" where
  "meminfo_entry = (\<lambda>(k, b, n, kb). CHR '':'' \<notin> set k \<and> newline \<notin> set k \<and> plain_text k \<and> n < 2 ^ 64)"

lemma meminfo_line_newline: "meminfo_entry e \<Longrightarrow> newline \<notin> set (meminfo_line e)"
proof -
  assume "meminfo_entry e"
  moreover have "\<not> graphic newline" by (simp add: graphic_def byte_of_def newline_def)
  ultimately show ?thesis
    using graphic_show_nat [of newline]
    by (cases e) (auto simp: meminfo_line_def meminfo_entry_def newline_def)
qed

definition value_of :: "string \<Rightarrow> (string \<times> nat \<times> nat \<times> bool) list \<Rightarrow> nat option" where
  "value_of k es = map_option (fst o snd) (map_of es k)"

lemma meminfo_lines: "\<forall>e \<in> set es. meminfo_entry e \<Longrightarrow> text_lines (meminfo_text es) = map meminfo_line es @ [[]]"
proof -
  assume *: "\<forall>e \<in> set es. meminfo_entry e"
  have "meminfo_text es = join_with [newline] (map meminfo_line es @ [[]])"
  proof (induction es)
    case (Cons e es)
    then show ?case by (cases es) (simp_all add: meminfo_text_def)
  qed (simp add: meminfo_text_def)
  then show ?thesis using * meminfo_line_newline by (simp only:) (intro Split_join; auto)
qed

lemma mem_lines_entries:
  assumes "\<forall>e \<in> set es. meminfo_entry e" "distinct (map fst es)"
    and "value_of ''MemTotal'' es = (if t = 0 then Some n else None)" "t \<noteq> 0 \<longrightarrow> t = of_nat n"
    and "value_of ''MemAvailable'' es = (if a = 0 then Some m else None)" "a \<noteq> 0 \<longrightarrow> a = of_nat m"
    and "0 < n" "0 < m" "n < 2 ^ 64" "m < 2 ^ 64" "t = 0 \<or> a = 0"
  shows "mem_lines (map meminfo_line es @ rest) (t, a) = (of_nat n, of_nat m)"
  using assms
proof (induction es arbitrary: t a)
  case Nil
  then show ?case by (auto simp: value_of_def split: if_splits)
next
  case (Cons e es)
  obtain k b v u where e: "e = (k, b, v, u)" by (cases e)
  have nz: "(of_nat n :: uint64) \<noteq> 0" "(of_nat m :: uint64) \<noteq> 0"
    using Cons.prems(7-10) by (simp_all add: word_of_nat_eq_0_iff nat_dvd_not_less)
  have line: "mem_line (meminfo_line e) (t, a) = Some (if k = ''MemTotal'' then of_nat v else t,
      if k = ''MemAvailable'' then of_nat v else a)"
  proof -
    have "CHR '':'' \<notin> set k" "plain_text k" "v < 2 ^ 64"
      using Cons.prems(1) by (simp_all add: e meminfo_entry_def)
    from mem_line_kB [OF this] mem_line_plain [OF this] show ?thesis
      by (cases u) (simp_all only: e meminfo_line_def prod.case fst_conv snd_conv if_True if_False append_Nil2)
  qed
  show ?case
  proof (cases "k = ''MemTotal''")
    case True
    then have "t = 0" "v = n" "value_of ''MemTotal'' es = None"
      using Cons.prems(2,3) by (auto simp: e value_of_def map_of_eq_None_iff split: if_splits)
    then show ?thesis
      using Cons.IH [of "of_nat n" a] Cons.prems nz True line
      by (auto simp: e value_of_def word_gt_0 split: if_splits)
  next
    case T: False
    show ?thesis
    proof (cases "k = ''MemAvailable''")
      case True
      then have "a = 0" "v = m" "value_of ''MemAvailable'' es = None"
        using Cons.prems(2,5) by (auto simp: e value_of_def map_of_eq_None_iff split: if_splits)
      then show ?thesis
        using Cons.IH [of t "of_nat m"] Cons.prems nz True T line
        by (auto simp: e value_of_def word_gt_0 split: if_splits)
    next
      case False
      then show ?thesis
        using Cons.IH [of t a] Cons.prems T line
        by (auto simp: e value_of_def word_gt_0 split: if_splits)
    qed
  qed
qed

text \<open>C32: From a /proc/meminfo in the kernel's format (lines that end in a newline, of the form key, colon,
  blanks, number, with the unit kB or, as for the counts of huge pages, without one; no key twice;
  MemTotal and MemAvailable given, the latter positive and not above the former, which is below
  2^54), collectMemory reads exactly these two figures, in bytes, and used memory is their difference.\<close>

theorem memory_from_meminfo:
  assumes "ho_file h ''/proc/meminfo'' = Some (meminfo_text es)"
    and "\<forall>e \<in> set es. meminfo_entry e" "distinct (map fst es)"
    and "value_of ''MemTotal'' es = Some n" "value_of ''MemAvailable'' es = Some m"
    and "0 < m" "m \<le> n" "n < 2 ^ 54"
  shows "unat (mem_total (collectMemory h)) = 1024 * n \<and> unat (mem_avail (collectMemory h)) = 1024 * m \<and>
    unat (mem_used (collectMemory h)) = 1024 * n - 1024 * m"
proof -
  have "mem_lines (text_lines (meminfo_text es)) (0, 0) = (of_nat n, of_nat m)"
    using assms by (simp only: meminfo_lines) (intro mem_lines_entries; auto)
  then have mem: "collectMemory h = memory_of_kb (of_nat n, of_nat m)"
    using assms(1) by (simp add: collectMemory_def)
  have k: "unat (of_nat j * 1024 :: uint64) = 1024 * j" if "j < 2 ^ 54" for j
    using that by (simp add: unat_word_ariths unat_of_nat)
  have "m < 2 ^ 54" using assms(7,8) by simp
  then show ?thesis
    using assms(7,8) k [of n] k [of m] mem
    by (simp add: memory_of_kb_def Let_def unat_sub word_le_nat_alt)
qed

theorem memory_from_meminfo_witness:
  "unat (mem_used (collectMemory (demo_host\<lparr>ho_file := [''/proc/meminfo'' \<mapsto> meminfo_text
     [(''MemTotal'', 8, 8000, True), (''MemFree'', 9, 900, True), (''MemAvailable'', 4, 3000, True),
      (''HugePages_Total'', 7, 0, False), (''DirectMap4k'', 5, 640, True)]]\<rparr>))) = 5120000"
proof -
  let ?es = "[(''MemTotal'', 8, 8000, True), (''MemFree'', 9, 900, True), (''MemAvailable'', 4, 3000, True),
      (''HugePages_Total'', 7, 0, False), (''DirectMap4k'', 5, 640, True)]"
  have "\<forall>e \<in> set ?es. meminfo_entry e"
    by (simp add: meminfo_entry_def newline_def plain_text_def graphic_def byte_of_def)
  then show ?thesis
    using memory_from_meminfo [where h = "demo_host\<lparr>ho_file := [''/proc/meminfo'' \<mapsto> meminfo_text ?es]\<rparr>"
      and es = ?es and n = 8000 and m = 3000]
    by (simp add: value_of_def)
qed

text \<open>C33: collectCPU stops at the first blank line that comes after lines which have given a model and a
  positive number of cores: whatever follows does not change the result. Where the first block gives
  no model or no core count, as on machines without these keys, it goes on with the next one, and
  nothing is stated.\<close>

theorem cpu_reads_first_block:
  assumes "ho_file h ''/proc/cpuinfo'' = Some (join_with [newline] (block @ l # rest))"
    and "\<forall>x \<in> set (block @ l # rest). newline \<notin> set x" "TrimSpace l = []"
    and "cs_model (cpu_lines block cpu_scan_start) \<noteq> []" "0 <s cs_cores (cpu_lines block cpu_scan_start)"
  shows "collectCPU h = collectCPU (h\<lparr>ho_file := (ho_file h)(''/proc/cpuinfo'' \<mapsto> join_with [newline] block)\<rparr>)"
proof -
  have "block \<noteq> []" using assms(4) by (auto simp: cpu_scan_start_def)
  then have "text_lines (join_with [newline] block) = block"
    using assms(2) by (intro Split_join) auto
  moreover have "text_lines (join_with [newline] (block @ l # rest)) = block @ l # rest"
    using assms(2) by (intro Split_join) auto
  ultimately show ?thesis
    using assms(1) cpu_lines_append [OF assms(4,5,3)] by (simp add: collectCPU_def)
qed

theorem cpu_reads_first_block_witness:
  "cpu_model (collectCPU (demo_host\<lparr>ho_file := [''/proc/cpuinfo'' \<mapsto>
     join_with [newline] ([''model name:A'', ''cpu cores:4''] @ [] # [''model name:B''])]\<rparr>)) = ''A''"
proof -
  let ?block = "[''model name:A'', ''cpu cores:4'']"
  have "cs_model (cpu_lines ?block cpu_scan_start) = ''A''" "0 <s cs_cores (cpu_lines ?block cpu_scan_start)"
    by (simp_all add: cpu_line_def cpu_scan_start_def TrimSpace_tight graphic_def byte_of_def Atoi_def
        unsigned_value_def digit_val_def word_sless_alt)
  then show ?thesis
    using cpu_reads_first_block [where block = ?block and l = "[]" and rest = "[''model name:B'']"
      and h = "demo_host\<lparr>ho_file := [''/proc/cpuinfo'' \<mapsto>
        join_with [newline] (?block @ [] # [''model name:B''])]\<rparr>"]
    by (simp add: newline_def TrimSpace_def collectCPU_def Let_def)
qed

section \<open>Commands and messages\<close>

definition demo_client :: client where
  "demo_client = (NewClient DefaultConfig (\<lambda>_. Some ''bytes'') demo_host)\<lparr>cl_session := ''12345678''\<rparr>"

definition demo_session :: session where
  "demo_session = start_session (\<lambda>_. None) demo_client"

definition demo_env :: cmd_env where
  "demo_env = \<lparr>en_clock = (\<lambda>n. of_nat n), en_collect = Inl ''boom'', en_uuid = ''u'',
     en_script = (\<lambda>_ _. \<lparr>sx_stdout = ''out'', sx_err = None, sx_deadline = False\<rparr>)\<rparr>"

definition demo_command :: "command_type \<Rightarrow> command" where
  "demo_command t = \<lparr>cd_id = ''c'', cd_type = t, cd_params = [], cd_timeout_sec = 0, cd_created_at_unix = 0\<rparr>"

text \<open>C25: On a stream that accepts its messages, dispatching any command, also one of an unknown type
  or one whose handler panics, reports exactly two results for it: first Executing, then one final
  result with the command's id, Completed with exit code 0 or Failed with another code.\<close>

theorem command_reported_twice:
  assumes "stream_works s"
  shows "\<exists>first last. sent_results (dispatchCommand env cmd s) = sent_results s @ [first, last] \<and>
    cr_id first = cd_id cmd \<and> cr_status first = ''Executing'' \<and> cr_id last = cd_id cmd \<and>
    cr_status last \<in> {''Completed'', ''Failed''} \<and> (cr_status last = ''Completed'' \<longleftrightarrow> cr_exit_code last = 0)"
  using dispatch_reports [OF assms, of env cmd] by (force simp: final_result_def)

theorem command_reported_twice_witness:
  "length (sent_results (dispatchCommand demo_env (demo_command ct_collect_now) demo_session)) = 2"
proof -
  have "stream_works demo_session" "sent_results demo_session = []"
    by (simp_all add: demo_session_def start_session_def stream_works_def sent_results_def results_of_def)
  then show ?thesis
    using command_reported_twice [of demo_session demo_env "demo_command ct_collect_now"] by auto
qed

text \<open>C26: Within a session, under any interleaving of the heartbeat, report and receive goroutines, no
  two messages carry the same sequence number, and all numbers are above those of the sessions
  before, as long as the 64-bit counter does not wrap.\<close>

theorem sequence_numbers_unique:
  assumes "unat (cl_seq c) + 3 * length es < 2 ^ 64"
  shows "distinct (map cm_seq (wr_sent (se_wire (run_session es (start_session errs c))))) \<and>
    (\<forall>m \<in> set (wr_sent (se_wire (run_session es (start_session errs c)))). cl_seq c < cm_seq m)"
proof -
  let ?s = "start_session errs c" and ?t = "run_session es (start_session errs c)"
  have "seq_ok (unat (cl_seq c)) ?s" "counter ?s = unat (cl_seq c)"
    by (simp_all add: seq_ok_def counter_def seqs_def held_def start_session_def)
  then have t: "seq_ok (unat (cl_seq c)) ?t"
    using numbers_run [of "unat (cl_seq c)" es ?s] assms by (simp add: numbers_def)
  then have "distinct (map (unat \<circ> cm_seq) (wr_sent (se_wire ?t)))"
    by (simp add: seq_ok_def seqs_def)
  then have "distinct (map cm_seq (wr_sent (se_wire ?t)))" by (auto simp: distinct_map inj_on_def)
  with t show ?thesis by (auto simp: seq_ok_def seqs_def word_less_nat_alt)
qed

theorem sequence_numbers_unique_witness:
  "distinct (map cm_seq (wr_sent (se_wire (run_session [HbTick 5, HbSend, HbTick 6, HbSend] demo_session))))"
  unfolding demo_session_def
  by (rule sequence_numbers_unique [THEN conjunct1])
    (simp add: demo_client_def NewClient_def)

text \<open>The order of the numbers is not the order on the stream: when the report goroutine takes its
  number and sends while the heartbeat goroutine is between taking a number and sending, the
  message with the larger number is sent first.\<close>

theorem numbers_out_of_order:
  assumes "stream_works s" "se_hb s = Idle" "se_rp s = Idle" "\<not> cl_exited (se_client s)"
    and "IsChanged (cl_marshal (se_client s)) info (cl_hash (se_client s))"
    and "unat (cl_seq (se_client s)) + 2 < 2 ^ 64"
  shows "\<exists>a b. wr_sent (se_wire (run_session [HbTick now, RpTick info uuid, RpSend, HbSend] s)) =
    wr_sent (se_wire s) @ [a, b] \<and> cm_seq b < cm_seq a"
proof -
  have "unat (cl_seq (se_client s) + 1) = unat (cl_seq (se_client s)) + 1"
    using assms(6) by (intro unat_inc) simp
  moreover from this have "unat (cl_seq (se_client s) + 1 + 1) = unat (cl_seq (se_client s) + 1) + 1"
    using assms(6) by (intro unat_inc) simp
  ultimately have "cl_seq (se_client s) + 1 < cl_seq (se_client s) + 1 + 1"
    by (simp only: word_less_nat_alt)
  then show ?thesis
    using assms(1-5) by (simp add: heartbeat_tick_msg_def report_tick_def report_send_def nextSeq_def
        Send_def stream_works_def)
qed

theorem numbers_out_of_order_witness:
  "\<exists>a b. wr_sent (se_wire (run_session [HbTick 5, RpTick (CollectHardware demo_host) ''u'', RpSend, HbSend]
     demo_session)) = [a, b] \<and> cm_seq b < cm_seq a"
proof -
  have "stream_works demo_session" "se_hb demo_session = Idle" "se_rp demo_session = Idle"
    "\<not> cl_exited (se_client demo_session)" "unat (cl_seq (se_client demo_session)) + 2 < 2 ^ 64"
    "cl_hash (se_client demo_session) = []" "wr_sent (se_wire demo_session) = []"
    by (simp_all add: demo_session_def start_session_def demo_client_def NewClient_def stream_works_def)
  then show ?thesis
    using numbers_out_of_order [of demo_session "CollectHardware demo_host" 5 "''u''"]
    by (simp add: IsChanged_def del: run_session.simps session_step.simps)
qed

section \<open>Reports\<close>

text \<open>After a report was accepted by the stream, a tick sends a report exactly when the digest of
  the marshalled hardware differs from that report's; hardware that marshals to the same bytes
  changes nothing in the session.\<close>

theorem unchanged_hardware_not_sent:
  assumes "se_rp s = Holding (m, info)" "wr_err (se_wire s) (wr_tried (se_wire s)) = None"
    and "cl_marshal (se_client s) info = Some b" "cl_marshal (se_client s) info' = Some b'"
  defines "t \<equiv> session_step RpSend s"
  shows "wr_sent (se_wire t) = wr_sent (se_wire s) @ [m] \<and>
    (if Sum256 b = Sum256 b' then session_step (RpTick info' uuid) t = t
     else \<exists>m'. se_rp (session_step (RpTick info' uuid) t) = Holding (m', info'))"
  using assms(1-4) by (simp add: t_def report_send_def Send_def report_tick_def IsChanged_MarkSent
      hashHardware_def nextSeq_def hash_digest)

theorem unchanged_hardware_not_sent_witness:
  "let s = session_step (RpTick (CollectHardware demo_host) ''u'') demo_session in
   session_step (RpTick (CollectHardware demo_host) ''v'') (session_step RpSend s) = session_step RpSend s"
proof -
  let ?s = "session_step (RpTick (CollectHardware demo_host) ''u'') demo_session"
  obtain m where m: "se_rp ?s = Holding (m, CollectHardware demo_host)"
    by (simp add: demo_session_def start_session_def demo_client_def NewClient_def report_tick_def
        IsChanged_def nextSeq_def)
  have "wr_err (se_wire ?s) (wr_tried (se_wire ?s)) = None"
    "cl_marshal (se_client ?s) (CollectHardware demo_host) = Some ''bytes''"
    by (simp_all add: demo_session_def start_session_def demo_client_def NewClient_def report_tick_def
        IsChanged_def nextSeq_def)
  from unchanged_hardware_not_sent [OF m this this(2), of "''v''"] show ?thesis
    by (simp add: Let_def del: session_step.simps)
qed

text \<open>The cache's check and its update are separate steps: a CollectNow command that is handled
  while the report goroutine holds the same, not yet sent report sends the hardware a second time.\<close>

theorem report_sent_twice:
  assumes "stream_works s" "se_rp s = Idle" "cl_hash (se_client s) = []"
    and "en_collect env = Inr (Some info)" "cd_type cmd = ct_collect_now"
  shows "\<exists>ms a b. wr_sent (se_wire (session_step RpSend (dispatchCommand env cmd
      (session_step (RpTick info uuid) s)))) = wr_sent (se_wire s) @ ms \<and>
    filter (\<lambda>m. \<exists>r. cm_payload m = CP_ReportRequest r) ms = [a, b] \<and>
    (\<forall>m \<in> {a, b}. \<exists>r. cm_payload m = CP_ReportRequest r \<and> rr_type r = RT_Hardware (Some info))"
  using assms by (simp add: report_tick_def report_send_def dispatchCommand_def run_handler_def ct_defs
      handleCollectNow_def Let_def IsChanged_def sendCommandResult_def send_payload_def nextSeq_def
      Send_def stream_works_def)

theorem report_sent_twice_witness:
  "length (wr_sent (se_wire (session_step RpSend (dispatchCommand
     (demo_env\<lparr>en_collect := Inr (Some (CollectHardware demo_host))\<rparr>) (demo_command ct_collect_now)
     (session_step (RpTick (CollectHardware demo_host) ''u'') demo_session))))) \<ge> 2"
proof -
  have "stream_works demo_session" "se_rp demo_session = Idle" "cl_hash (se_client demo_session) = []"
    "wr_sent (se_wire demo_session) = []"
    by (simp_all add: demo_session_def start_session_def demo_client_def NewClient_def stream_works_def)
  then obtain ms a b where ms: "wr_sent (se_wire (session_step RpSend (dispatchCommand
     (demo_env\<lparr>en_collect := Inr (Some (CollectHardware demo_host))\<rparr>) (demo_command ct_collect_now)
     (session_step (RpTick (CollectHardware demo_host) ''u'') demo_session)))) = ms"
    "filter (\<lambda>m. \<exists>r. cm_payload m = CP_ReportRequest r) ms = [a, b]"
    using report_sent_twice [of demo_session "demo_env\<lparr>en_collect := Inr (Some (CollectHardware demo_host))\<rparr>"
        "CollectHardware demo_host" "demo_command ct_collect_now" "''u''"]
    by (auto simp: demo_command_def simp del: session_step.simps)
  then show ?thesis using length_filter_le [of "\<lambda>m. \<exists>r. cm_payload m = CP_ReportRequest r" ms] by simp
qed

section \<open>Sessions end\<close>

text \<open>C27: No goroutine of a cancelled session hangs, in whatever order they take their turns: from any state
  of a session whose context is cancelled, every schedule in which Recv returns, with any result, if
  it was blocked, and the receive loop then takes a turn, and in which the heartbeat and the report goroutine
  each send what they hold and then take the cancelled branch before another tick, ends with
  connect having returned, unless a Shutdown command has ended the process; what else
  happens in between does not matter.\<close>

theorem session_can_end:
  assumes "cl_cancelled (se_client s)" "\<not> cl_exited (se_client s)"
    and "recv_turns (se_in_recv s) es" "hb_turns es" "rp_turns es"
  shows "(\<exists>r. fst (session_outcome (run_session es s)) = Returned r) \<or>
    fst (session_outcome (run_session es s)) = Exited \<and>
      (\<exists>env m cmd. RecvReturn env (GotMessage m) \<in> set es \<and> sm_payload m = SP_Command cmd \<and> cd_type cmd = ct_shutdown)"
proof (cases "cl_exited (se_client (run_session es s))")
  case True
  then show ?thesis using exits_by_shutdown [OF assms(2)] by (simp add: session_outcome_def)
next
  case False
  then show ?thesis
    using recv_returns_at_last [OF assms(1,3)] hb_returns_at_last [OF assms(1,4)] rp_returns_at_last [OF assms(1,5)]
    by (auto simp: session_outcome_def split: option.split)
qed

theorem session_can_end_witness:
  "\<exists>r. fst (session_outcome (run_session [HbSend, RpSend, HbDone, RecvReturn demo_env (GotMessage
     \<lparr>sm_seq = 1, sm_payload = SP_Unset\<rparr>), RpDone, HbTick 7, RecvCheck]
     (run_session [HbTick 5, RecvCheck, ParentDone] demo_session))) = Returned r"
proof -
  let ?s = "run_session [HbTick 5, RecvCheck, ParentDone] demo_session"
  let ?es = "[HbSend, RpSend, HbDone, RecvReturn demo_env (GotMessage \<lparr>sm_seq = 1, sm_payload = SP_Unset\<rparr>),
    RpDone, HbTick 7, RecvCheck]"
  have "cl_cancelled (se_client ?s)" "\<not> cl_exited (se_client ?s)"
    by (simp_all add: demo_session_def start_session_def demo_client_def NewClient_def heartbeat_tick_msg_def nextSeq_def)
  moreover have "recv_turns b ?es" for b
    unfolding recv_turns_def by (intro exI [of _ "butlast ?es"] exI [of _ "[]"]) auto
  moreover have "hb_turns ?es"
    unfolding hb_turns_def by (intro exI [of _ "[]"] exI [of _ "[RpSend]"] exI [of _ "drop 3 ?es"]) simp
  moreover have "rp_turns ?es"
    unfolding rp_turns_def
    by (intro exI [of _ "[HbSend]"] exI [of _ "take 2 (drop 2 ?es)"] exI [of _ "drop 5 ?es"]) simp
  ultimately show ?thesis using session_can_end [of ?s ?es] by (auto simp del: session_step.simps run_session.simps)
qed

text \<open>\<open>connect\<close> has registered and opened the stream for the client \<open>d\<close>; the session is established
  when the tickers can be made.\<close>

definition registered :: "connect_env \<Rightarrow> client \<Rightarrow> client \<Rightarrow> bool" where
  "registered env c d \<longleftrightarrow> cn_dial env = None \<and> cn_channel env = None \<and>
     (\<exists>r. cn_register env (register_request (with_device (cn_host env) c)) = Inr r \<and> hr_ok r \<and>
        8 \<le> length (hr_session_id r) \<and>
        d = (with_device (cn_host env) c)\<lparr>cl_session := hr_session_id r\<rparr>) \<and> 16 \<le> length (cl_device d)"

definition established :: "connect_env \<Rightarrow> client \<Rightarrow> client \<Rightarrow> bool" where
  "established env c d \<longleftrightarrow> registered env c d \<and> tickers_ok (cl_cfg c)"

lemma registered_connect:
  assumes "registered env c d"
  shows "connect env c = (if tickers_ok (cl_cfg c)
    then session_outcome (run_session (cn_events env) (start_session (cn_wire_err env) d))
    else (Crashed ''non-positive interval for NewTicker'', d))"
proof -
  have "cl_cfg (with_device h c) = cl_cfg c" for h by (simp add: with_device_def)
  then show ?thesis using assms
    by (auto simp: registered_def connect_def connect_session_def go_slice_def)
qed

lemma established_connect:
  assumes "established env c d"
  shows "connect env c = session_outcome (run_session (cn_events env) (start_session (cn_wire_err env) d))"
  using assms registered_connect [of env c d] by (simp add: established_def)

definition demo_connect :: "sess_event list \<Rightarrow> connect_env" where
  "demo_connect es = \<lparr>cn_dial = None, cn_host = demo_host, cn_register = (\<lambda>_. Inr \<lparr>hr_ok = True,
     hr_session_id = ''12345678'', hr_server_time = [], hr_message = []\<rparr>), cn_channel = None,
     cn_wire_err = (\<lambda>_. None), cn_events = es\<rparr>"

definition demo_agent :: client where
  "demo_agent = NewClient DefaultConfig (\<lambda>_. Some ''bytes'') demo_host"

lemma demo_established: "established (demo_connect es) demo_agent
    ((with_device demo_host demo_agent)\<lparr>cl_session := ''12345678''\<rparr>)"
  using GenerateDeviceID_length [of demo_host]
  by (simp add: established_def registered_def demo_connect_def demo_agent_def NewClient_def with_device_def
      tickers_ok_def DefaultConfig_def second_def word_sless_alt)

definition server_command :: "command_type \<Rightarrow> server_message" where
  "server_command t = \<lparr>sm_seq = 0, sm_payload = SP_Command (demo_command t)\<rparr>"

text \<open>C28: A Restart command ends the session so that Run connects again at once: the session's context
  is cancelled, all goroutines return, connect reports no error, and the next turn of Run starts
  with the attempt counter at 0, which means without a delay.\<close>

theorem restart_reconnects_at_once:
  assumes "established (cy_connect cy) c d"
    and "cn_events (cy_connect cy) = es @ [RecvReturn env (GotMessage m), RecvCheck] @ winding_up"
    and "sm_payload m = SP_Command cmd" "cd_type cmd = ct_restart"
    and "s = run_session es (start_session (cn_wire_err (cy_connect cy)) d)"
    and "se_in_recv s" "se_result s = None" "\<not> cl_exited (se_client s)"
    and "\<not> cl_shutdown c" "\<not> cl_parent_done c" "cy_cancel cy = NoCancel"
  shows "\<exists>c1. connect (cy_connect cy) c = (Returned None, c1) \<and> \<not> cl_restart c1 \<and>
    Run (cy # cys) c = Run cys c1"
proof -
  let ?t = "run_session ([RecvReturn env (GotMessage m), RecvCheck] @ winding_up) s"
  have "connect (cy_connect cy) c = session_outcome ?t"
    unfolding established_connect [OF assms(1)] assms(2,5) by (simp only: run_session_append)
  moreover have "fst (session_outcome ?t) = Returned None" "\<not> cl_restart (snd (session_outcome ?t))"
    by (rule restart_ends_session [OF assms(6-8,3,4)])+
  ultimately have "connect (cy_connect cy) c = (Returned None, snd (session_outcome ?t))"
    by (metis prod.collapse)
  then show ?thesis
    using assms(9-11) \<open>\<not> cl_restart _\<close> by (simp add: Run_def split: prod.split)
qed

theorem restart_reconnects_at_once_witness:
  "\<exists>c1. Run [\<lparr>cy_cancel = NoCancel, cy_rand = 0, cy_connect = demo_connect ([RecvCheck] @
     [RecvReturn demo_env (GotMessage (server_command ct_restart)), RecvCheck] @ winding_up)\<rparr>] demo_agent =
     Run [] c1"
proof -
  have "se_in_recv (run_session [RecvCheck] (start_session (\<lambda>_. None) d))"
    "se_result (run_session [RecvCheck] (start_session (\<lambda>_. None) d)) = None"
    "\<not> cl_exited (se_client (run_session [RecvCheck] (start_session (\<lambda>_. None) d)))"
    if "\<not> cl_exited d" "\<not> cl_parent_done d" for d
    using that by (simp_all add: start_session_def)
  moreover have "\<not> cl_exited demo_agent" "\<not> cl_parent_done demo_agent" "\<not> cl_shutdown demo_agent"
    by (simp_all add: demo_agent_def NewClient_def)
  ultimately show ?thesis
    using restart_reconnects_at_once [where es = "[RecvCheck]" and env = demo_env and cys = "[]"
        and m = "server_command ct_restart" and cmd = "demo_command ct_restart" and c = demo_agent
        and cy = "\<lparr>cy_cancel = NoCancel, cy_rand = 0, cy_connect = demo_connect ([RecvCheck] @
          [RecvReturn demo_env (GotMessage (server_command ct_restart)), RecvCheck] @ winding_up)\<rparr>"
        and d = "(with_device demo_host demo_agent)\<lparr>cl_session := ''12345678''\<rparr>", OF _ _ _ _ refl]
      demo_established
    by (fastforce simp: demo_connect_def server_command_def demo_command_def with_device_def
        simp del: run_session.simps)
qed

text \<open>A Shutdown command stops the agent for good: its result is sent, the process exits, and no
  later cycle of Run takes place.\<close>

theorem shutdown_exits:
  assumes "established (cy_connect cy) c d"
    and "cn_events (cy_connect cy) = es @ RecvReturn env (GotMessage m) # es'"
    and "sm_payload m = SP_Command cmd" "cd_type cmd = ct_shutdown"
    and "s = run_session es (start_session (cn_wire_err (cy_connect cy)) d)"
    and "se_in_recv s" "\<not> cl_exited (se_client s)"
    and "\<not> cl_shutdown c" "\<not> cl_parent_done c" "cy_cancel cy = NoCancel"
  shows "\<exists>c1. Run (cy # cys) c = (Exited, [], c1)"
proof -
  let ?t = "dispatchCommand env cmd (s\<lparr>se_in_recv := False\<rparr>)"
  have "run_session (RecvReturn env (GotMessage m) # es') s = run_session es' ?t"
    using assms(3,6,7) by (simp add: recv_message_def)
  also have "\<dots> = ?t" by (rule run_session_exited) (rule dispatch_shutdown [OF assms(4)])
  finally have "connect (cy_connect cy) c = session_outcome ?t"
    unfolding established_connect [OF assms(1)] assms(2) run_session_append assms(5) by simp
  then have "connect (cy_connect cy) c = (Exited, se_client ?t)"
    using dispatch_shutdown [OF assms(4)] by (simp add: session_outcome_def)
  then show ?thesis using assms(8-10) by (simp add: Run_def)
qed

theorem shutdown_exits_witness:
  "\<exists>c1. Run [\<lparr>cy_cancel = NoCancel, cy_rand = 0, cy_connect = demo_connect ([RecvCheck] @
     RecvReturn demo_env (GotMessage (server_command ct_shutdown)) # [])\<rparr>] demo_agent = (Exited, [], c1)"
proof -
  have "se_in_recv (run_session [RecvCheck] (start_session (\<lambda>_. None) d))"
    "\<not> cl_exited (se_client (run_session [RecvCheck] (start_session (\<lambda>_. None) d)))"
    if "\<not> cl_exited d" "\<not> cl_parent_done d" for d
    using that by (simp_all add: start_session_def)
  moreover have "\<not> cl_exited demo_agent" "\<not> cl_parent_done demo_agent" "\<not> cl_shutdown demo_agent"
    by (simp_all add: demo_agent_def NewClient_def)
  ultimately show ?thesis
    using shutdown_exits [where es = "[RecvCheck]" and env = demo_env and cys = "[]" and es' = "[]"
        and m = "server_command ct_shutdown" and cmd = "demo_command ct_shutdown" and c = demo_agent
        and cy = "\<lparr>cy_cancel = NoCancel, cy_rand = 0, cy_connect = demo_connect ([RecvCheck] @
          RecvReturn demo_env (GotMessage (server_command ct_shutdown)) # [])\<rparr>"
        and d = "(with_device demo_host demo_agent)\<lparr>cl_session := ''12345678''\<rparr>", OF _ _ _ _ refl]
      demo_established
    by (fastforce simp: demo_connect_def server_command_def demo_command_def with_device_def
        simp del: run_session.simps)
qed

section \<open>Reconnecting\<close>

lemma plain_delay_bounds:
  assumes "0 < k" "0 \<le> i"
  shows "min (2 * i) x \<le> plain_delay i x k" "plain_delay i x k \<le> x"
proof -
  have "(2 :: int) ^ 1 \<le> 2 ^ min k 63" using assms(1) by (intro power_increasing) simp_all
  then have "i * 2 \<le> i * 2 ^ min k 63" using assms(2) by (intro mult_left_mono) simp_all
  then show "min (2 * i) x \<le> plain_delay i x k" by (simp add: plain_delay_def min_def)
qed (simp add: plain_delay_def)

text \<open>C30: Every delay that Run ever sleeps lies between three quarters of twice the initial delay (or of
  the maximum, where that is smaller) and five quarters of the maximum, up to rounding, for an
  initial delay and a maximum that are not negative and at most 2^50 nanoseconds, 13 days; the jitter
  is applied after the clamp, so the configured maximum itself can be exceeded.\<close>

theorem delays_bounded:
  assumes "0 \<le> sint (cf_reconnect_initial (cl_cfg c))" "sint (cf_reconnect_initial (cl_cfg c)) \<le> 2 ^ 50"
    and "0 \<le> sint (cf_reconnect_max (cl_cfg c))" "sint (cf_reconnect_max (cl_cfg c)) \<le> 2 ^ 50"
    and "\<forall>cy \<in> set cys. cy_rand cy < 2 ^ 53"
  shows "\<forall>x \<in> set (fst (snd (Run cys c))).
    3 * min (2 * sint (cf_reconnect_initial (cl_cfg c))) (sint (cf_reconnect_max (cl_cfg c))) \<le> 4 * sint x + 8 \<and>
    4 * sint x \<le> 5 * sint (cf_reconnect_max (cl_cfg c)) + 5"
  unfolding Run_def
proof (rule run_delays)
  fix k :: nat and cy
  assume k: "0 < k" and cy: "cy \<in> set cys"
  have m: "cy_rand cy < 2 ^ 53" using assms(5) cy by blast
  show "3 * min (2 * sint (cf_reconnect_initial (cl_cfg c))) (sint (cf_reconnect_max (cl_cfg c))) \<le>
      4 * sint (backoff (cf_reconnect_initial (cl_cfg c)) (cf_reconnect_max (cl_cfg c)) k (cy_rand cy)) + 8 \<and>
    4 * sint (backoff (cf_reconnect_initial (cl_cfg c)) (cf_reconnect_max (cl_cfg c)) k (cy_rand cy)) \<le>
      5 * sint (cf_reconnect_max (cl_cfg c)) + 5"
    using backoff_bounds [OF assms(1-4) m, of k]
      plain_delay_bounds [OF k assms(1), of "sint (cf_reconnect_max (cl_cfg c))"] by linarith
qed

definition offline_cycle :: cycle where
  "offline_cycle = \<lparr>cy_cancel = NoCancel, cy_rand = 2 ^ 53 - 1,
     cy_connect = (demo_connect [])\<lparr>cn_dial := Some (OtherError ''refused'')\<rparr>\<rparr>"

theorem delays_bounded_witness:
  "list_all (\<lambda>x. sint x \<le> 75 * 10 ^ 9 + 2) (fst (snd (Run (replicate 9 offline_cycle) demo_agent)))"
proof -
  have "sint (cf_reconnect_initial (cl_cfg demo_agent)) = 10 ^ 9"
    "sint (cf_reconnect_max (cl_cfg demo_agent)) = 60 * 10 ^ 9"
    by (simp_all add: demo_agent_def NewClient_def DefaultConfig_def second_def sint_of_int64)
  then show ?thesis
    using delays_bounded [of demo_agent "replicate 9 offline_cycle"] by (fastforce simp: offline_cycle_def list_all_iff)
qed

text \<open>C29: The agent never gives up on errors that are not fatal: after any number of failed attempts and
  broken sessions Run is still going, and has slept once before each attempt but the first, the
  k-th time with attempt number k; a session that worked for any length of time before it broke
  counts as a failed attempt too and does not reset the number.\<close>

theorem never_gives_up:
  assumes "failing cys c = Some d"
  shows "\<exists>delays. Run cys c = (Running, delays, d) \<and> length delays = length cys - 1 \<and>
    (\<forall>k < length delays. delays ! k = backoff (cf_reconnect_initial (cl_cfg c))
       (cf_reconnect_max (cl_cfg c)) (k + 1) (cy_rand (cys ! (k + 1))))"
proof -
  have run: "Run cys c = (Running, retry_delays (cl_cfg c) 0 cys, d)"
    using failing_run [OF assms, of 0 "[]"] by (simp add: Run_def)
  then show ?thesis by (simp add: retry_delays_0)
qed

theorem never_gives_up_witness:
  "\<exists>delays d. Run [offline_cycle, offline_cycle, offline_cycle] demo_agent = (Running, delays, d) \<and>
     length delays = 2"
proof -
  have "failing [offline_cycle, offline_cycle, offline_cycle] demo_agent = Some demo_agent"
    by (simp add: offline_cycle_def demo_agent_def NewClient_def connect_def isFatal_def)
  from never_gives_up [OF this] show ?thesis by auto
qed

text \<open>An interval that is not positive crashes the agent instead of disabling the loop: with the
  report interval 0, which the command line documents as disabled, the process panics as soon as
  the first session is registered and its stream is open.\<close>

theorem zero_interval_crashes:
  assumes "sint (cf_report (cl_cfg c)) \<le> 0 \<or> sint (cf_heartbeat (cl_cfg c)) \<le> 0"
    and "registered (cy_connect cy) c d"
    and "\<not> cl_shutdown c" "\<not> cl_parent_done c" "cy_cancel cy = NoCancel"
  shows "Run (cy # cys) c = (Crashed ''non-positive interval for NewTicker'', [], d)"
proof -
  have "\<not> tickers_ok (cl_cfg c)" using assms(1) by (auto simp: tickers_ok_def word_sless_alt)
  then show ?thesis using assms(3-5) registered_connect [OF assms(2)] by (simp add: Run_def)
qed

theorem zero_interval_crashes_witness:
  "\<exists>d. Run [\<lparr>cy_cancel = NoCancel, cy_rand = 0, cy_connect = demo_connect []\<rparr>]
     (demo_agent\<lparr>cl_cfg := DefaultConfig\<lparr>cf_report := 0\<rparr>\<rparr>) =
   (Crashed ''non-positive interval for NewTicker'', [], d)"
proof -
  let ?c = "demo_agent\<lparr>cl_cfg := DefaultConfig\<lparr>cf_report := 0\<rparr>\<rparr>"
  have "registered (demo_connect []) ?c ((with_device demo_host ?c)\<lparr>cl_session := ''12345678''\<rparr>)"
    using GenerateDeviceID_length [of demo_host]
    by (simp add: registered_def demo_connect_def demo_agent_def NewClient_def with_device_def)
  then show ?thesis
    using zero_interval_crashes [where c = ?c and cys = "[]"
        and cy = "\<lparr>cy_cancel = NoCancel, cy_rand = 0, cy_connect = demo_connect []\<rparr>"]
    by (fastforce simp: demo_agent_def NewClient_def)
qed

end
