(* ===== verification/Gateway.thy ===== *)
theory Gateway
  imports Proto
begin

text \<open>
  The gateway of the admin tool (\<open>cmd/admin/gateway.go\<close>): the RPC proxies and the WebSocket hub that
  polls the server and broadcasts terminals' changes. Its HTTP side is the theory GatewayHttp.

  The server is a parameter (what \<open>ListTerminals\<close> answers); the order in which a loop visits a Go
  map is a parameter too, a list without duplicates of the map's keys.
\<close>

section \<open>The proxies\<close>

text \<open>
  The eight admin RPCs all have this body: the backend's answer or its error, unchanged. The
  backend is a function from the request and a state of its own.
\<close>

definition proxy_call :: "('req \<Rightarrow> 's \<Rightarrow> ('err + 'resp) \<times> 's) \<Rightarrow> 'req \<Rightarrow> 's \<Rightarrow> ('err + 'resp) \<times> 's" where
  "proxy_call backend req s = (case backend req s of
      (Inl err, s') \<Rightarrow> (Inl err, s') | (Inr resp, s') \<Rightarrow> (Inr resp, s'))"

section \<open>The hub\<close>

record ws_event =
  we_type :: string
  we_session_id :: string
  we_hostname :: string
  we_timestamp :: string

type_synonym online_snapshot = "string \<rightharpoonup> bool"

text \<open>A connection is known by a number. \<open>hu_last\<close> is nil or a snapshot; a nil map reads as empty.\<close>

record ws_hub =
  hu_conns :: "nat list"
  hu_last :: online_snapshot
  hu_stopped :: bool

definition newWSHub :: ws_hub where
  "newWSHub = \<lparr>hu_conns = [], hu_last = Map.empty, hu_stopped = False\<rparr>"

definition snapshot_of :: "terminal_summary list \<Rightarrow> online_snapshot" where
  "snapshot_of ts = foldl (\<lambda>m t. m(ts_session_id t \<mapsto> ts_online t)) Map.empty ts"

fun findHostname :: "terminal_summary list \<Rightarrow> string \<Rightarrow> string" where
  "findHostname [] sid = []"
| "findHostname (t # ts) sid = (if ts_session_id t = sid then ts_hostname t else findHostname ts sid)"

definition change_event ::
  "string \<Rightarrow> terminal_summary list \<Rightarrow> online_snapshot \<Rightarrow> online_snapshot \<Rightarrow> string \<Rightarrow> ws_event option" where
  "change_event now ts prev current sid = (case current sid of
      None \<Rightarrow> None
    | Some online \<Rightarrow> (case prev sid of
        Some was \<Rightarrow> if was \<noteq> online
          then Some \<lparr>we_type = (if online then ''online'' else ''offline''), we_session_id = sid,
                     we_hostname = findHostname ts sid, we_timestamp = now\<rparr>
          else None
      | None \<Rightarrow> None))"

text \<open>
  One connection's share of a broadcast: the events written to it before the first write that
  fails. \<open>ok i\<close> says whether the i-th write succeeds.
\<close>

fun write_events :: "(nat \<Rightarrow> bool) \<Rightarrow> nat \<Rightarrow> ws_event list \<Rightarrow> ws_event list \<times> bool" where
  "write_events ok i [] = ([], True)"
| "write_events ok i (e # es) =
     (if ok i then (case write_events ok (Suc i) es of (w, alive) \<Rightarrow> (e # w, alive)) else ([], False))"

text \<open>The result: what each connection received, and the hub without the broken connections.\<close>

fun broadcast_loop ::
  "(nat \<Rightarrow> nat \<Rightarrow> bool) \<Rightarrow> ws_event list \<Rightarrow> nat list \<Rightarrow> ws_hub \<Rightarrow> (nat \<times> ws_event list) list \<times> ws_hub" where
  "broadcast_loop ok events [] h = ([], h)"
| "broadcast_loop ok events (c # cs) h =
     (case write_events (ok c) 0 events of (w, alive) \<Rightarrow>
        case broadcast_loop ok events cs
               (if alive then h else h\<lparr>hu_conns := removeAll c (hu_conns h)\<rparr>) of
          (ds, h') \<Rightarrow> ((c, w) # ds, h'))"

text \<open>The loop visits the connections that are in the hub, in the order of the list \<open>order\<close>.\<close>

definition broadcast ::
  "(nat \<Rightarrow> nat \<Rightarrow> bool) \<Rightarrow> nat list \<Rightarrow> ws_event list \<Rightarrow> ws_hub \<Rightarrow> (nat \<times> ws_event list) list \<times> ws_hub" where
  "broadcast ok order events h =
     broadcast_loop ok events (filter (\<lambda>c. c \<in> set (hu_conns h)) order) h"

text \<open>One poll. \<open>resp\<close> is the answer of the server, \<open>None\<close> for an error or a timeout.\<close>

definition poll_events :: "string \<Rightarrow> string list \<Rightarrow> terminal_summary list \<Rightarrow> ws_hub \<Rightarrow> ws_event list" where
  "poll_events now keys ts h = List.map_filter (change_event now ts (hu_last h) (snapshot_of ts)) keys"

definition poll ::
  "bool \<Rightarrow> string \<Rightarrow> string list \<Rightarrow> (nat \<Rightarrow> nat \<Rightarrow> bool) \<Rightarrow> nat list \<Rightarrow> terminal_summary list option \<Rightarrow>
   ws_hub \<Rightarrow> (nat \<times> ws_event list) list \<times> ws_hub" where
  "poll bcast now keys ok order resp h = (case resp of
      None \<Rightarrow> ([], h)
    | Some ts \<Rightarrow>
        if \<not> bcast then ([], h\<lparr>hu_last := snapshot_of ts\<rparr>)
        else let events = poll_events now keys ts h; h1 = h\<lparr>hu_last := snapshot_of ts\<rparr>
          in if events \<noteq> [] then broadcast ok order events h1 else ([], h1))"

text \<open>A WebSocket client comes and goes; the hub is stopped.\<close>

definition serveWS_open :: "nat \<Rightarrow> ws_hub \<Rightarrow> ws_hub" where
  "serveWS_open c h = h\<lparr>hu_conns := List.insert c (hu_conns h)\<rparr>"

definition serveWS_done :: "nat \<Rightarrow> ws_hub \<Rightarrow> ws_hub" where
  "serveWS_done c h = h\<lparr>hu_conns := removeAll c (hu_conns h)\<rparr>"

definition hub_stop :: "ws_hub \<Rightarrow> ws_hub option" where
  "hub_stop h = (if hu_stopped h then None else Some (h\<lparr>hu_stopped := True\<rparr>))"

text \<open>
  What happens at the hub, in order, until its loop takes the branch of \<open>stopCh\<close>. \<open>HubTick\<close> is a tick of the ticker with the poll it causes; its
  parameters are the time, the order in which the loop over the new snapshot visits its keys, the
  outcome of the writes, the order of the connections and the server's answer.
\<close>

datatype hub_event =
    HubOpen nat
  | HubDone nat
  | HubTick string "string list" "nat \<Rightarrow> nat \<Rightarrow> bool" "nat list" "terminal_summary list option"

fun hub_step :: "hub_event \<Rightarrow> ws_hub \<Rightarrow> (nat \<times> ws_event list) list \<times> ws_hub" where
  "hub_step (HubOpen c) h = ([], serveWS_open c h)"
| "hub_step (HubDone c) h = ([], serveWS_done c h)"
| "hub_step (HubTick now keys ok order resp) h = poll True now keys ok order resp h"

fun hub_run :: "hub_event list \<Rightarrow> ws_hub \<Rightarrow> (nat \<times> ws_event list) list \<times> ws_hub" where
  "hub_run [] h = ([], h)"
| "hub_run (e # es) h = (case hub_step e h of (ds, h1) \<Rightarrow> case hub_run es h1 of (ds', h2) \<Rightarrow> (ds @ ds', h2))"

text \<open>\<open>pollLoop\<close>: \<open>NewTicker\<close> panics on an interval that is not positive; then the baseline.\<close>

definition poll_interval :: "int64 \<Rightarrow> int64" where
  "poll_interval seconds = seconds * 10 ^ 9"

definition pollLoop ::
  "int64 \<Rightarrow> terminal_summary list option \<Rightarrow> hub_event list \<Rightarrow> ((nat \<times> ws_event list) list \<times> ws_hub) option" where
  "pollLoop interval resp es =
     (if sint interval \<le> 0 then None
      else Some (hub_run es (snd (poll False [] [] (\<lambda>_ _. True) [] resp newWSHub))))"

section \<open>Lemmas\<close>

lemma snapshot_foldl: "foldl (\<lambda>m t. m(ts_session_id t \<mapsto> ts_online t)) m0 ts sid =
    (case map_of (rev (map (\<lambda>t. (ts_session_id t, ts_online t)) ts)) sid of
       Some b \<Rightarrow> Some b | None \<Rightarrow> m0 sid)"
  by (induction ts rule: rev_induct) auto

lemma snapshot_of_eq: "snapshot_of ts = map_of (rev (map (\<lambda>t. (ts_session_id t, ts_online t)) ts))"
  by (rule ext) (simp add: snapshot_of_def snapshot_foldl split: option.split)

lemma dom_snapshot: "dom (snapshot_of ts) = ts_session_id ` set ts"
  by (force simp: snapshot_of_eq dom_map_of_conv_image_fst)

lemma change_event_Some:
  "change_event now ts prev current sid = Some e \<longleftrightarrow>
     (\<exists>b. current sid = Some b \<and> prev sid = Some (\<not> b) \<and>
        e = \<lparr>we_type = (if b then ''online'' else ''offline''), we_session_id = sid,
             we_hostname = findHostname ts sid, we_timestamp = now\<rparr>)"
  by (auto simp: change_event_def split: option.split)

lemma write_events_ok: "\<forall>i. ok i \<Longrightarrow> write_events ok j es = (es, True)"
  by (induction es arbitrary: j) simp_all

lemma broadcast_loop_conns:
  "hu_last (snd (broadcast_loop ok es cs h)) = hu_last h"
  "hu_stopped (snd (broadcast_loop ok es cs h)) = hu_stopped h"
  "set (hu_conns (snd (broadcast_loop ok es cs h))) =
     {c \<in> set (hu_conns h). c \<in> set cs \<longrightarrow> snd (write_events (ok c) 0 es)}"
  "fst (broadcast_loop ok es cs h) = map (\<lambda>c. (c, fst (write_events (ok c) 0 es))) cs"
  by (induction cs arbitrary: h) (auto simp: case_prod_beta)

section \<open>Replaying the events\<close>

text \<open>What a subscriber makes of an event, and what it has received.\<close>

definition apply_event :: "online_snapshot \<Rightarrow> ws_event \<Rightarrow> online_snapshot" where
  "apply_event m e = m(we_session_id e \<mapsto> (we_type e = ''online''))"

definition received :: "nat \<Rightarrow> (nat \<times> ws_event list) list \<Rightarrow> ws_event list" where
  "received c ds = concat (map (\<lambda>d. if fst d = c then snd d else []) ds)"

lemma received_append [simp]: "received c (a @ b) = received c a @ received c b"
  by (simp add: received_def)

lemma received_once:
  "distinct cs \<Longrightarrow> c \<in> set cs \<Longrightarrow> received c (map (\<lambda>c. (c, f c)) cs) = f c"
proof (induction cs)
  case (Cons a cs)
  have "received c (map (\<lambda>c. (c, f c)) cs) = []" if "c \<notin> set cs"
    using that by (induction cs) (simp_all add: received_def)
  with Cons show ?case by (cases "a = c") (simp_all add: received_def)
qed simp

lemma map_filter_Cons: "List.map_filter f (x # xs) =
    (case f x of None \<Rightarrow> List.map_filter f xs | Some y \<Rightarrow> y # List.map_filter f xs)"
  by (simp add: List.map_filter_def split: option.split)

lemma set_map_filter: "set (List.map_filter f xs) = {y. \<exists>x \<in> set xs. f x = Some y}"
proof (induction xs)
  case Nil
  then show ?case by (simp add: List.map_filter_def)
next
  case (Cons x xs)
  then show ?case by (cases "f x") (auto simp: map_filter_Cons)
qed

lemma replay_keys:
  assumes "\<And>k e. f k = Some e \<Longrightarrow> we_session_id e = k" "distinct keys"
  shows "foldl apply_event m (List.map_filter f keys) sid =
    (case (if sid \<in> set keys then f sid else None) of
       None \<Rightarrow> m sid | Some e \<Rightarrow> Some (we_type e = ''online''))"
  using assms(2)
proof (induction keys arbitrary: m)
  case Nil
  then show ?case by (simp add: List.map_filter_def)
next
  case (Cons k keys)
  show ?case
  proof (cases "f k")
    case None
    with Cons show ?thesis by (auto simp: map_filter_Cons)
  next
    case (Some e)
    with assms(1) have "we_session_id e = k" by simp
    with Some Cons show ?thesis by (auto simp: map_filter_Cons apply_event_def split: option.split)
  qed
qed

lemma poll_tick:
  assumes "distinct keys" "set keys = dom (snapshot_of ts)" "distinct order" "c \<in> set order" "\<forall>i. ok c i"
    and "poll True now keys ok order (Some ts) h = (ds, h')" "c \<in> set (hu_conns h)"
  shows "hu_last h' = snapshot_of ts" "c \<in> set (hu_conns h')"
    and "sid \<in> dom (hu_last h) \<Longrightarrow> sid \<in> dom (snapshot_of ts) \<Longrightarrow> m sid = hu_last h sid \<Longrightarrow>
      foldl apply_event m (received c ds) sid = snapshot_of ts sid"
proof -
  let ?es = "poll_events now keys ts h"
  have r: "received c ds = ?es"
  proof (cases "?es = []")
    case True
    with assms(6) show ?thesis by (auto simp: poll_def received_def Let_def)
  next
    case False
    with assms(6) have "ds = map (\<lambda>c. (c, fst (write_events (ok c) 0 ?es)))
        (filter (\<lambda>c. c \<in> set (hu_conns h)) order)"
      using broadcast_loop_conns(4) [of ok ?es "filter (\<lambda>c. c \<in> set (hu_conns h)) order"
          "h\<lparr>hu_last := snapshot_of ts\<rparr>"]
      by (simp add: poll_def broadcast_def Let_def)
    then show ?thesis using assms(3-5,7) by (simp add: received_once write_events_ok)
  qed
  show "hu_last h' = snapshot_of ts"
    using assms(6) broadcast_loop_conns(1) [of ok ?es "filter (\<lambda>c. c \<in> set (hu_conns h)) order"
        "h\<lparr>hu_last := snapshot_of ts\<rparr>"]
    by (auto simp: poll_def broadcast_def Let_def split: if_splits)
  show "c \<in> set (hu_conns h')"
    using assms(5-7) broadcast_loop_conns(3) [of ok ?es "filter (\<lambda>c. c \<in> set (hu_conns h)) order"
        "h\<lparr>hu_last := snapshot_of ts\<rparr>"]
    by (auto simp: poll_def broadcast_def Let_def write_events_ok split: if_splits)
  assume sid: "sid \<in> dom (hu_last h)" "sid \<in> dom (snapshot_of ts)" "m sid = hu_last h sid"
  have "foldl apply_event m ?es sid = (case change_event now ts (hu_last h) (snapshot_of ts) sid of
      None \<Rightarrow> m sid | Some e \<Rightarrow> Some (we_type e = ''online''))"
    unfolding poll_events_def
    by (subst replay_keys) (use assms(1,2) sid(2) in \<open>auto simp: change_event_Some\<close>)
  also have "\<dots> = snapshot_of ts sid"
    using sid by (auto simp: change_event_def split: option.split if_splits)
  finally show "foldl apply_event m (received c ds) sid = snapshot_of ts sid" by (simp add: r)
qed

text \<open>
  A well-behaved tick for a subscriber: the loops visit each key and each connection once, and the
  subscriber's writes succeed.
\<close>

fun tick_ok :: "nat \<Rightarrow> hub_event \<Rightarrow> bool" where
  "tick_ok c (HubTick now keys ok order resp) \<longleftrightarrow> distinct order \<and> c \<in> set order \<and> (\<forall>i. ok c i) \<and>
     (\<forall>ts. resp = Some ts \<longrightarrow> distinct keys \<and> set keys = dom (snapshot_of ts))"
| "tick_ok c (HubOpen k) \<longleftrightarrow> True"
| "tick_ok c (HubDone k) \<longleftrightarrow> k \<noteq> c"

fun lists_session :: "string \<Rightarrow> hub_event \<Rightarrow> bool" where
  "lists_session sid (HubTick now keys ok order resp) \<longleftrightarrow>
     (\<forall>ts. resp = Some ts \<longrightarrow> sid \<in> dom (snapshot_of ts))"
| "lists_session sid _ \<longleftrightarrow> True"

lemma hub_run_tracks:
  assumes "hub_run es h = (ds, h')" "\<forall>e \<in> set es. tick_ok c e \<and> lists_session sid e"
    and "sid \<in> dom (hu_last h)" "m sid = hu_last h sid" "c \<in> set (hu_conns h)"
  shows "foldl apply_event m (received c ds) sid = hu_last h' sid \<and> sid \<in> dom (hu_last h')"
  using assms
proof (induction es arbitrary: h m ds)
  case Nil
  then show ?case by (auto simp: received_def)
next
  case (Cons e es)
  obtain d1 h1 d2 where d: "hub_step e h = (d1, h1)" "hub_run es h1 = (d2, h')" "ds = d1 @ d2"
    using Cons.prems(1) by (auto split: prod.splits)
  have one: "foldl apply_event m (received c d1) sid = hu_last h1 sid \<and> sid \<in> dom (hu_last h1) \<and>
      c \<in> set (hu_conns h1)"
  proof (cases e)
    case (HubTick now keys ok order resp)
    show ?thesis
    proof (cases "resp = None")
      case True
      then have "d1 = [] \<and> h1 = h" using d(1) HubTick by (simp add: poll_def)
      then show ?thesis using Cons.prems(3-5) by (simp add: received_def)
    next
      case False
      then obtain ts where ts: "resp = Some ts" by auto
      have p: "poll True now keys ok order (Some ts) h = (d1, h1)" using d(1) HubTick ts by simp
      have k: "distinct keys" "set keys = dom (snapshot_of ts)" "distinct order" "c \<in> set order" "\<forall>i. ok c i"
        "sid \<in> dom (snapshot_of ts)"
        using Cons.prems(2) HubTick ts by auto
      show ?thesis
        using poll_tick(1,2) [OF k(1-5) p Cons.prems(5)]
          poll_tick(3) [where m = m, OF k(1-5) p Cons.prems(5) Cons.prems(3) k(6)] Cons.prems(4) k(6)
        by simp
    qed
  qed (use d(1) Cons.prems(2-5) in \<open>auto simp: received_def serveWS_open_def serveWS_done_def\<close>)
  have tl: "\<forall>e \<in> set es. tick_ok c e \<and> lists_session sid e" using Cons.prems(2) by simp
  from one have "foldl apply_event m (received c d1) sid = hu_last h1 sid" "sid \<in> dom (hu_last h1)"
    "c \<in> set (hu_conns h1)" by simp_all
  from Cons.IH [where m = "foldl apply_event m (received c d1)", OF d(2) tl this(2,1,3)] show ?case by (simp add: d(3))
qed

end
