(* ===== verification/GatewayHttp.thy ===== *)
theory GatewayHttp
  imports Gateway GoStrings
begin

text \<open>
  The HTTP side of the gateway: the routes of the generated Connect handler
  (\<open>internal/proto/protoconnect/teamx.connect.go\<close>), the handler that embeds
  \<open>UnimplementedTeamXHandler\<close> and proxies eight RPCs, the request multiplexer with the CORS wrapper
  (\<open>cmd/admin/gateway.go\<close>), and the \<open>serve\<close> subcommand (\<open>serve.go\<close>).

  The Connect library's codec is a parameter: how it decodes the body of a request for a method,
  \<open>None\<close> when it refuses the request itself.
\<close>

section \<open>Procedures\<close>

datatype rpc = RpcRegister | RpcChannel | RpcTransferFile | RpcListTerminals | RpcGetTerminal |
  RpcGetTerminalHistory | RpcDisconnectTerminal | RpcBlockTerminal | RpcUnblockTerminal |
  RpcSendCommand | RpcGetCommandLog

fun rpc_name :: "rpc \<Rightarrow> string" where
  "rpc_name RpcRegister = ''Register''"
| "rpc_name RpcChannel = ''Channel''"
| "rpc_name RpcTransferFile = ''TransferFile''"
| "rpc_name RpcListTerminals = ''ListTerminals''"
| "rpc_name RpcGetTerminal = ''GetTerminal''"
| "rpc_name RpcGetTerminalHistory = ''GetTerminalHistory''"
| "rpc_name RpcDisconnectTerminal = ''DisconnectTerminal''"
| "rpc_name RpcBlockTerminal = ''BlockTerminal''"
| "rpc_name RpcUnblockTerminal = ''UnblockTerminal''"
| "rpc_name RpcSendCommand = ''SendCommand''"
| "rpc_name RpcGetCommandLog = ''GetCommandLog''"

definition TeamXName :: string where "TeamXName = ''teamx.proto.TeamX''"

definition service_path :: string where "service_path = ''/teamx.proto.TeamX/''"

definition procedure :: "rpc \<Rightarrow> string" where
  "procedure r = service_path @ rpc_name r"

text \<open>The switch of the handler, in its order.\<close>

definition rpcs :: "rpc list" where
  "rpcs = [RpcRegister, RpcChannel, RpcTransferFile, RpcListTerminals, RpcGetTerminal,
     RpcGetTerminalHistory, RpcDisconnectTerminal, RpcBlockTerminal, RpcUnblockTerminal,
     RpcSendCommand, RpcGetCommandLog]"

definition route :: "string \<Rightarrow> rpc option" where
  "route path = find (\<lambda>r. path = procedure r) rpcs"

section \<open>The service\<close>

datatype rpc_request =
    ReqRegister handshake_request
  | ReqChannel
  | ReqTransferFile
  | ReqListTerminals list_terminals_request
  | ReqGetTerminal get_terminal_request
  | ReqGetTerminalHistory get_terminal_history_request
  | ReqDisconnectTerminal string
  | ReqBlockTerminal string
  | ReqUnblockTerminal string
  | ReqSendCommand send_command_request
  | ReqGetCommandLog get_command_log_request

datatype rpc_response =
    RespListTerminals list_terminals_response
  | RespGetTerminal get_terminal_response
  | RespGetTerminalHistory get_terminal_history_response
  | RespAdmin admin_response
  | RespSendCommand send_command_response
  | RespGetCommandLog "command_log_entry list"

fun rpc_of :: "rpc_request \<Rightarrow> rpc" where
  "rpc_of (ReqRegister _) = RpcRegister"
| "rpc_of ReqChannel = RpcChannel"
| "rpc_of ReqTransferFile = RpcTransferFile"
| "rpc_of (ReqListTerminals _) = RpcListTerminals"
| "rpc_of (ReqGetTerminal _) = RpcGetTerminal"
| "rpc_of (ReqGetTerminalHistory _) = RpcGetTerminalHistory"
| "rpc_of (ReqDisconnectTerminal _) = RpcDisconnectTerminal"
| "rpc_of (ReqBlockTerminal _) = RpcBlockTerminal"
| "rpc_of (ReqUnblockTerminal _) = RpcUnblockTerminal"
| "rpc_of (ReqSendCommand _) = RpcSendCommand"
| "rpc_of (ReqGetCommandLog _) = RpcGetCommandLog"

text \<open>The errors of the service: the Unimplemented error of the embedded handler, or the backend's.\<close>

datatype connect_err = CodeUnimplemented string | FromBackend grpc_status

definition UnimplementedTeamXHandler :: "rpc \<Rightarrow> connect_err" where
  "UnimplementedTeamXHandler r =
     CodeUnimplemented (TeamXName @ ''.'' @ rpc_name r @ '' is not implemented'')"

type_synonym 's backend = "rpc_request \<Rightarrow> 's \<Rightarrow> (grpc_status + rpc_response) \<times> 's"

text \<open>The methods of \<open>Gateway\<close>: it overrides the eight admin RPCs.\<close>

definition gateway_method :: "'s backend \<Rightarrow> rpc_request \<Rightarrow> 's \<Rightarrow> (connect_err + rpc_response) \<times> 's" where
  "gateway_method backend req s =
     (let proxied = (case proxy_call backend req s of
            (Inl e, s') \<Rightarrow> (Inl (FromBackend e), s') | (Inr r, s') \<Rightarrow> (Inr r, s'))
      in case req of
           ReqRegister _ \<Rightarrow> (Inl (UnimplementedTeamXHandler RpcRegister), s)
         | ReqChannel \<Rightarrow> (Inl (UnimplementedTeamXHandler RpcChannel), s)
         | ReqTransferFile \<Rightarrow> (Inl (UnimplementedTeamXHandler RpcTransferFile), s)
         | ReqListTerminals _ \<Rightarrow> proxied
         | ReqGetTerminal _ \<Rightarrow> proxied
         | ReqGetTerminalHistory _ \<Rightarrow> proxied
         | ReqDisconnectTerminal _ \<Rightarrow> proxied
         | ReqBlockTerminal _ \<Rightarrow> proxied
         | ReqUnblockTerminal _ \<Rightarrow> proxied
         | ReqSendCommand _ \<Rightarrow> proxied
         | ReqGetCommandLog _ \<Rightarrow> proxied)"

section \<open>HTTP\<close>

text \<open>Headers are those on the response writer when the inner handler starts.\<close>

type_synonym headers = "string \<rightharpoonup> string"

datatype http_reply = HttpStatus nat | HttpRedirect | HttpRefused | HttpWebSocket |
  HttpRpc "connect_err + rpc_response"

type_synonym 's handler = "headers \<Rightarrow> 's \<Rightarrow> headers \<times> http_reply \<times> 's"

definition NewTeamXHandler ::
  "(rpc \<Rightarrow> rpc_request option) \<Rightarrow> 's backend \<Rightarrow> string \<Rightarrow> 's handler" where
  "NewTeamXHandler decode backend path hs s = (case route path of
      None \<Rightarrow> (hs, HttpStatus 404, s)
    | Some r \<Rightarrow> (case decode r of
        None \<Rightarrow> (hs, HttpRefused, s)
      | Some req \<Rightarrow> (case gateway_method backend req s of (res, s') \<Rightarrow> (hs, HttpRpc res, s'))))"

text \<open>
  \<open>http.ServeMux\<close> with the patterns \<open>/teamx.proto.TeamX/\<close> (a subtree) and \<open>/ws\<close>, for a path that is
  clean (any other is redirected to its clean form before it is routed).
\<close>

definition mux :: "(rpc \<Rightarrow> rpc_request option) \<Rightarrow> 's backend \<Rightarrow> string \<Rightarrow> 's handler" where
  "mux decode backend path hs s =
     (if HasPrefix path service_path then NewTeamXHandler decode backend path hs s
      else if path = ''/ws'' then (hs, HttpWebSocket, s)
      else if path = ''/'' @ TeamXName then (hs, HttpRedirect, s)
      else (hs, HttpStatus 404, s))"

definition cors_headers :: "string \<Rightarrow> headers \<Rightarrow> headers" where
  "cors_headers origin hs = hs(''Access-Control-Allow-Origin'' \<mapsto> origin,
     ''Access-Control-Allow-Methods'' \<mapsto> ''POST, GET, OPTIONS'',
     ''Access-Control-Allow-Headers'' \<mapsto> ''Content-Type, Connect-Protocol-Version, X-User-Agent'')"

definition corsMiddleware :: "'s handler \<Rightarrow> string \<Rightarrow> string \<Rightarrow> 's handler" where
  "corsMiddleware next_handler origin request_method hs s =
     (let hs1 = cors_headers origin hs
      in if request_method = ''OPTIONS'' then (hs1, HttpStatus 204, s) else next_handler hs1 s)"

text \<open>The handler stack for a request of a method for a path.\<close>

definition gateway_handler ::
  "string \<Rightarrow> 's backend \<Rightarrow> string \<Rightarrow> string \<Rightarrow> (rpc \<Rightarrow> rpc_request option) \<Rightarrow> 's handler" where
  "gateway_handler corsOrigin backend request_method path decode =
     corsMiddleware (mux decode backend path) corsOrigin request_method"

section \<open>The gateway and the serve subcommand\<close>

text \<open>\<open>Gateway\<close> is the connection to the backend, open or closed, and the hub.\<close>

record gateway_config =
  gc_grpc_addr :: string
  gc_poll_interval :: int64

record gateway =
  gw_conn_open :: bool
  gw_hub :: ws_hub

definition NewGateway :: "(string \<Rightarrow> string option) \<Rightarrow> gateway_config \<Rightarrow> string + gateway" where
  "NewGateway new_client cfg = (case new_client (gc_grpc_addr cfg) of
      Some err \<Rightarrow> Inl err
    | None \<Rightarrow> Inr \<lparr>gw_conn_open = True, gw_hub = newWSHub\<rparr>)"

text \<open>\<open>Close\<close> panics when the hub has been stopped already. Its error is not looked at.\<close>

definition Close :: "gateway \<Rightarrow> gateway option" where
  "Close g = (case hub_stop (gw_hub g) of
      None \<Rightarrow> None | Some h \<Rightarrow> Some (g\<lparr>gw_hub := h, gw_conn_open := False\<rparr>))"

text \<open>
  \<open>new_client\<close> is the error of \<open>grpc.NewClient\<close> for an address, \<open>listen\<close> what \<open>ListenAndServe\<close>
  returns (\<open>None\<close> is \<open>ErrServerClosed\<close>). The ticker of the poll loop panics for an interval that is
  not positive, which ends the process. The result is the error of the command and the gateway
  after \<open>Close\<close>.
\<close>

datatype serve_end = ServeReturned "string option" | ServePanics

definition serveCmd :: "(string \<Rightarrow> string option) \<Rightarrow> gateway_config \<Rightarrow> terminal_summary list option \<Rightarrow>
  hub_event list \<Rightarrow> string option \<Rightarrow> serve_end \<times> gateway option" where
  "serveCmd new_client cfg baseline es listen = (case NewGateway new_client cfg of
      Inl err \<Rightarrow> (ServeReturned (Some (''gateway: '' @ err)), None)
    | Inr g \<Rightarrow> (case pollLoop (gc_poll_interval cfg) baseline es of
        None \<Rightarrow> (ServePanics, Some g)
      | Some (_, h) \<Rightarrow> (case Close (g\<lparr>gw_hub := h\<rparr>) of
          None \<Rightarrow> (ServePanics, Some (g\<lparr>gw_hub := h\<rparr>))
        | Some g' \<Rightarrow> (ServeReturned listen, Some g'))))"

section \<open>Lemmas\<close>

lemma all_rpcs: "r \<in> set rpcs"
  by (cases r) (simp_all add: rpcs_def)

lemma rpc_name_inj: "rpc_name r = rpc_name q \<longleftrightarrow> r = q"
proof -
  have "distinct (map rpc_name rpcs)" by (simp add: rpcs_def)
  then have "inj_on rpc_name (set rpcs)" by (simp only: distinct_map)
  then show ?thesis using all_rpcs by (auto simp: inj_on_def)
qed

lemma procedure_inj [simp]: "procedure r = procedure q \<longleftrightarrow> r = q"
  by (simp add: procedure_def rpc_name_inj)

lemma route_procedure [simp]: "route (procedure r) = Some r"
  by (cases r) (simp_all add: route_def rpcs_def)

lemma route_Some: "route path = Some r \<longleftrightarrow> path = procedure r"
proof
  assume "route path = Some r"
  then show "path = procedure r" by (auto simp: route_def find_Some_iff)
qed simp

lemma mux_procedure: "mux decode backend (procedure r) hs s = NewTeamXHandler decode backend (procedure r) hs s"
  by (simp add: mux_def HasPrefix_def procedure_def)

lemma gateway_method_eq:
  "gateway_method backend req s =
     (if rpc_of req \<in> {RpcRegister, RpcChannel, RpcTransferFile}
      then (Inl (UnimplementedTeamXHandler (rpc_of req)), s)
      else (case backend req s of (Inl e, s') \<Rightarrow> (Inl (FromBackend e), s') | (Inr r, s') \<Rightarrow> (Inr r, s')))"
  by (cases req) (auto simp: gateway_method_def proxy_call_def Let_def split: prod.split sum.split)

lemma mux_other:
  assumes "\<nexists>r. path = procedure r"
  shows "snd (snd (mux decode backend path hs s)) = s \<and> fst (mux decode backend path hs s) = hs \<and>
    (\<forall>res. fst (snd (mux decode backend path hs s)) \<noteq> HttpRpc res)"
proof -
  have "route path = None" using assms by (metis not_None_eq route_Some)
  then show ?thesis by (simp add: mux_def NewTeamXHandler_def)
qed

end
