(* ===== verification/AdminCli.thy ===== *)
theory AdminCli
  imports GoStrings Proto Float64 Utf8
begin

text \<open>
  The admin command line (\<open>cmd/admin/commands.go\<close>, \<open>output.go\<close>, \<open>main.go\<close>): how each subcommand
  turns its arguments and flags into a request, and what it prints for the response.

  What is printed is a list of pieces: a line, a row of the table that \<open>text/tabwriter\<close> aligns, or a
  document that \<open>encoding/json\<close> writes. The server is a parameter, a function from the request to an
  error text or a response; so is the outcome of the dial.
\<close>

section \<open>Formatting helpers\<close>

text \<open>The name \<open>truncate\<close> of the source is taken by the records; \<open>None\<close> is a slice out of range.\<close>

definition truncate_text :: "string \<Rightarrow> int \<Rightarrow> string option" where
  "truncate_text s maxLen =
     (if int (length s) \<le> maxLen then Some s
      else map_option (\<lambda>p. p @ ''...'') (go_slice s 0 (maxLen - 3)))"

definition na :: "string \<Rightarrow> string" where
  "na s = (if s = [] then ''-'' else s)"

text \<open>The loop of \<open>formatBytes\<close>: \<open>n\<close>, \<open>div\<close> and \<open>exp\<close>.\<close>

function fb_loop :: "uint64 \<Rightarrow> uint64 \<Rightarrow> nat \<Rightarrow> uint64 \<times> nat" where
  "fb_loop n d e = (if 1024 \<le> n then fb_loop (n div 1024) (d * 1024) (e + 1) else (d, e))"
  by pat_completeness auto
termination
  by (relation "measure (\<lambda>(n, d, e). unat n)") (simp_all add: unat_div word_le_nat_alt)

declare fb_loop.simps [simp del]

text \<open>The formats \<open>%.1f\<close> and \<open>%.0f\<close> for a value that is not negative.\<close>

definition fmt1 :: "rat \<Rightarrow> string" where
  "fmt1 x = (let k = round_half_even (x * 10)
     in show_int (k div 10) @ ''.'' @ show_int (k mod 10))"

definition fmt0 :: "rat \<Rightarrow> string" where
  "fmt0 x = show_int (round_half_even x)"

definition f64_of_uint :: "uint64 \<Rightarrow> rat" where
  "f64_of_uint b = f64 (of_nat (unat b))"

definition formatBytes :: "uint64 \<Rightarrow> string option" where
  "formatBytes b = (if b < 1024 then Some (show_nat (unat b) @ '' B'')
     else (case fb_loop (b div 1024) 1024 0 of (d, e) \<Rightarrow>
       if e < length ''KMGTPE''
       then Some (fmt1 (f64 (f64_of_uint b / f64_of_uint d)) @ '' '' @ [''KMGTPE'' ! e] @ ''B'')
       else None))"

definition memPercent :: "uint64 \<Rightarrow> uint64 \<Rightarrow> rat" where
  "memPercent used tot = (if tot = 0 then 0
     else f64 (f64 (f64_of_uint used / f64_of_uint tot) * 100))"

text \<open>\<open>%-ns\<close>: blanks on the right up to \<open>n\<close> runes.\<close>

definition pad_right :: "nat \<Rightarrow> string \<Rightarrow> string" where
  "pad_right n s = s @ replicate (n - length (runes s)) CHR '' ''"

section \<open>Arguments\<close>

text \<open>\<open>splitKeyValue\<close>, with the index of its loop.\<close>

function split_kv_from :: "string \<Rightarrow> nat \<Rightarrow> string list" where
  "split_kv_from s i = (if i < length s
     then if s ! i = CHR ''='' then [take i s, drop (i + 1) s] else split_kv_from s (i + 1)
     else [s])"
  by pat_completeness auto
termination
  by (relation "measure (\<lambda>(s, i). length s - i)") auto

declare split_kv_from.simps [simp del]

definition splitKeyValue :: "string \<Rightarrow> string list" where
  "splitKeyValue s = split_kv_from s 0"

text \<open>The params map of the \<open>cmd\<close> subcommand.\<close>

fun params_loop :: "string list \<Rightarrow> (string \<rightharpoonup> string) \<Rightarrow> (string \<rightharpoonup> string)" where
  "params_loop [] m = m"
| "params_loop (arg # args) m = params_loop args
     (case splitKeyValue arg of [k, v] \<Rightarrow> m(k \<mapsto> v) | _ \<Rightarrow> m)"

definition list_request :: "string \<Rightarrow> int32 \<Rightarrow> int32 \<Rightarrow> list_terminals_request" where
  "list_request online page pageSize =
     \<lparr>lt_online_filter = (if online = ''online'' then Some True
                          else if online = ''offline'' then Some False else None),
      lt_page_size = pageSize, lt_page = page\<rparr>"

definition show_request :: "string \<Rightarrow> get_terminal_request" where
  "show_request arg = (if length arg = 64 then \<lparr>gt_session_id = [], gt_device_id = arg\<rparr>
                       else \<lparr>gt_session_id = arg, gt_device_id = []\<rparr>)"

definition cmdlog_request :: "string \<Rightarrow> int32 \<Rightarrow> get_command_log_request" where
  "cmdlog_request arg lmt =
     (if length arg = 64 then \<lparr>gl_device_id = arg, gl_session_id = [], gl_limit = lmt\<rparr>
      else \<lparr>gl_device_id = [], gl_session_id = arg, gl_limit = lmt\<rparr>)"

text \<open>
  The request of \<open>cmd\<close> for its arguments, of which there are at least two (\<open>cobra.MinimumNArgs(2)\<close>
  refuses the call otherwise). A protobuf map is a list in the order of the parameter \<open>entries\<close>.
\<close>

definition cmd_request ::
  "((string \<rightharpoonup> string) \<Rightarrow> (string \<times> string) list) \<Rightarrow> string \<Rightarrow> string \<Rightarrow> string list \<Rightarrow> int64 \<Rightarrow>
   string + send_command_request" where
  "cmd_request entries deviceID typeName rest timeout =
     (case map_of CommandType_value (''COMMAND_TYPE_'' @ typeName) of
        None \<Rightarrow> Inl (''unknown command type: '' @ typeName @
                      '' (valid: COLLECT_NOW, RUN_SCRIPT, RESTART, SHUTDOWN)'')
      | Some t \<Rightarrow> Inr \<lparr>sc_device_id = deviceID, sc_type = t,
          sc_params = entries (params_loop rest Map.empty), sc_timeout_sec = timeout\<rparr>)"

section \<open>Printing\<close>

datatype json_doc =
    JTerminals "terminal_summary list" int32
  | JDetail get_terminal_response
  | JHistory get_terminal_history_response
  | JResult bool string
  | JLog "command_log_entry list" nat
  | JCommand send_command_response
  | JError string

datatype piece = Line string | Row "string list" | Json json_doc | ErrLine string

definition tick_mark :: string where "tick_mark = map byte_char [0xE2, 0x9C, 0x93]"
definition cross_mark :: string where "cross_mark = map byte_char [0xE2, 0x9C, 0x97]"

definition status_text :: "bool \<Rightarrow> string" where
  "status_text online = (if online then ''ONLINE'' else ''OFFLINE'')"

text \<open>A text that is always short enough for its slice; the panic branch is impossible for these lengths.\<close>

definition short :: "nat \<Rightarrow> string \<Rightarrow> string" where
  "short n s = (case truncate_text s (int n) of Some t \<Rightarrow> t | None \<Rightarrow> [])"

definition terminal_cells :: "terminal_summary \<Rightarrow> string list" where
  "terminal_cells t = [short 36 (ts_session_id t), short 16 (ts_device_id t), ts_hostname t, ts_os t,
     ts_client_version t, status_text (ts_online t), na (ts_last_heartbeat t)]"

definition total_line :: "terminal_summary list \<Rightarrow> int32 \<Rightarrow> string" where
  "total_line ts tot = (let online = length (filter ts_online ts) in
     ''Total: '' @ show_int (sint tot) @ '' terminals ('' @ show_nat online @ '' online, '' @
     show_int (sint (tot - of_nat online)) @ '' offline)'')"

definition printTerminalList :: "terminal_summary list \<Rightarrow> int32 \<Rightarrow> bool \<Rightarrow> piece list" where
  "printTerminalList ts tot jsonMode =
     (if jsonMode then [Json (JTerminals ts tot)]
      else if ts = [] then [Line ''No terminals found.'']
      else Row [''SESSION ID'', ''DEVICE ID'', ''HOSTNAME'', ''OS'', ''VERSION'', ''STATUS'', ''LAST HEARTBEAT'']
        # map (\<lambda>t. Row (terminal_cells t)) ts @ [Line ''---'', Line (total_line ts tot)])"

text \<open>A size in a text: \<open>formatBytes\<close> never panics (lemma \<open>formatBytes_Some\<close>).\<close>

definition size_text :: "uint64 \<Rightarrow> string" where
  "size_text b = (case formatBytes b of Some t \<Rightarrow> t | None \<Rightarrow> [])"

definition usage_text :: "uint64 \<Rightarrow> uint64 \<Rightarrow> string" where
  "usage_text used tot = size_text used @ '' / '' @ size_text tot @ '' ('' @
     fmt0 (memPercent used tot) @ ''%)''"

definition disk_line :: "disk_info \<Rightarrow> piece" where
  "disk_line d = Line (''    '' @ pad_right 12 (dk_device d) @ '' '' @ pad_right 6 (dk_fs_type d) @ '' '' @
     usage_text (dk_used d) (dk_total d))"

definition net_line :: "net_info \<Rightarrow> piece" where
  "net_line n = Line (''    '' @ pad_right 12 (nt_name n) @ '' '' @ nt_mac_addr n @ ''  '' @
     (if nt_ip_addrs n = [] then ''-'' else join_with '', '' (nt_ip_addrs n)))"

definition printHardwareBlock :: "hardware_info \<Rightarrow> piece list" where
  "printHardwareBlock hw =
     Line ''Hardware:'' #
     (case hw_cpu hw of None \<Rightarrow> [] | Some c \<Rightarrow> [Line (''  CPU:          '' @ cpu_model c @ '' ('' @
        show_int (sint (cpu_cores c)) @ '' cores / '' @ show_int (sint (cpu_threads c)) @
        '' threads, '' @ cpu_arch c @ '')'')]) @
     (case hw_memory hw of None \<Rightarrow> [] | Some m \<Rightarrow>
        [Line (''  Memory:       '' @ usage_text (mem_used m) (mem_total m))]) @
     (if hw_disks hw = [] then [] else Line ''  Disks:'' # map disk_line (hw_disks hw)) @
     (if hw_nets hw = [] then [] else Line ''  Network:'' # map net_line (hw_nets hw)) @
     (case hw_bios hw of None \<Rightarrow> [] | Some b \<Rightarrow> [Line (''  BIOS:         '' @ bi_vendor b @ '' v'' @
        bi_version b @ '' ('' @ na (bi_release_date b) @ '')'')]) @
     (case hw_motherboard hw of None \<Rightarrow> [] | Some m \<Rightarrow> [Line (''  Motherboard:  '' @ mb_manufacturer m @ '' '' @
        mb_product m @ '' / SN: '' @ na (mb_serial m))])"

definition printTerminalDetail :: "get_terminal_response \<Rightarrow> bool \<Rightarrow> piece list" where
  "printTerminalDetail resp jsonMode =
     (if jsonMode then [Json (JDetail resp)]
      else let s = gr_summary resp in
        [Line ''Summary:'',
         Line (''  Session ID:   '' @ ts_session_id s),
         Line (''  Device ID:    '' @ ts_device_id s),
         Line (''  Hostname:     '' @ ts_hostname s),
         Line (''  OS:           '' @ ts_os s @ '' ('' @ ts_os_version s @ '')''),
         Line (''  Version:      '' @ ts_client_version s),
         Line (''  Status:       '' @ status_text (ts_online s)),
         Line (''  Last Seen:    '' @ na (ts_last_seen_at s)),
         Line ''  First Seen:   '', Line []] @
        (case gr_latest_hardware resp of
           Some hw \<Rightarrow> printHardwareBlock hw | None \<Rightarrow> [Line ''Hardware: (no report yet)'']))"

definition history_cells :: "hardware_snapshot \<Rightarrow> string list" where
  "history_cells s = (let hw = sn_info s;
      cpuStr = (case hw_cpu hw of None \<Rightarrow> ''-'' | Some c \<Rightarrow> cpu_model c @ '' '' @
        show_int (sint (cpu_cores c)) @ ''C/'' @ show_int (sint (cpu_threads c)) @ ''T'');
      memStr = (case hw_memory hw of None \<Rightarrow> ''-'' | Some m \<Rightarrow>
        size_text (mem_used m) @ ''/'' @ size_text (mem_total m))
     in [short 36 (sn_report_id s), sn_created_at s, short 25 cpuStr, memStr,
         show_nat (length (hw_disks hw)), show_nat (length (hw_nets hw))])"

definition printTerminalHistory :: "get_terminal_history_response \<Rightarrow> bool \<Rightarrow> piece list" where
  "printTerminalHistory resp jsonMode =
     (if jsonMode then [Json (JHistory resp)]
      else if gy_snapshots resp = [] then [Line ''No hardware snapshots found.'']
      else Row [''REPORT ID'', ''CREATED AT'', ''CPU'', ''MEMORY'', ''DISKS'', ''NETS''] #
        map (\<lambda>s. Row (history_cells s)) (gy_snapshots resp) @
        [Line ''---'', Line (show_nat (length (gy_snapshots resp)) @ '' snapshots for device '' @
           gy_device_id resp)])"

definition printResult :: "bool \<Rightarrow> string \<Rightarrow> bool \<Rightarrow> piece list" where
  "printResult ok msg jsonMode =
     (if jsonMode then [Json (JResult ok msg)]
      else [Line ((if ok then tick_mark else cross_mark) @ '' '' @ msg)])"

definition log_cells :: "command_log_entry \<Rightarrow> string list" where
  "log_cells e = (let out = (if 60 < length (ce_stdout e) then take 60 (ce_stdout e) @ ''...'' else ce_stdout e)
     in [short 36 (ce_id e), TrimPrefix (type_string (ce_type e)) ''COMMAND_TYPE_'', ce_status e,
         show_int (sint (ce_exit_code e)), na (ce_created_at e),
         replace_byte (CHR 0x0A) [CHR 0x5C, CHR ''n''] out])"

definition printCommandLog :: "command_log_entry list \<Rightarrow> bool \<Rightarrow> piece list" where
  "printCommandLog entries jsonMode =
     (if jsonMode then [Json (JLog entries (length entries))]
      else if entries = [] then [Line ''No command logs found.'']
      else Row [''COMMAND ID'', ''TYPE'', ''STATUS'', ''EXIT'', ''CREATED'', ''STDOUT''] #
        map (\<lambda>e. Row (log_cells e)) entries @
        [Line ''---'', Line (show_nat (length entries) @ '' entries'')])"

definition printCommandResult :: "send_command_response \<Rightarrow> bool \<Rightarrow> piece list" where
  "printCommandResult resp jsonMode =
     (if jsonMode then [Json (JCommand resp)]
      else if sr_ok resp then [Line (tick_mark @ '' '' @ sr_message resp), Line (''  command_id: '' @ sr_command_id resp)]
      else [Line (cross_mark @ '' '' @ sr_message resp)])"

definition printError :: "string \<Rightarrow> bool \<Rightarrow> piece list" where
  "printError err jsonMode = (if jsonMode then [Json (JError err)] else [ErrLine (''Error: '' @ err)])"

section \<open>The subcommands\<close>

text \<open>
  Every subcommand dials, builds its request, calls one RPC and prints the response; an error of
  any of these is returned to \<open>main\<close>. A call may change the state of the server.
\<close>

definition run_rpc :: "string option \<Rightarrow> string + 'req \<Rightarrow> ('req \<Rightarrow> 's \<Rightarrow> (string + 'resp) \<times> 's) \<Rightarrow>
  ('resp \<Rightarrow> piece list) \<Rightarrow> 's \<Rightarrow> (string + piece list) \<times> 's" where
  "run_rpc dial req call print s = (case dial of
      Some err \<Rightarrow> (Inl err, s)
    | None \<Rightarrow> (case req of
        Inl err \<Rightarrow> (Inl err, s)
      | Inr r \<Rightarrow> (case call r s of
          (Inl err, s') \<Rightarrow> (Inl err, s')
        | (Inr resp, s') \<Rightarrow> (Inr (print resp), s'))))"

definition listCmd where
  "listCmd dial call jsonMode online page pageSize =
     run_rpc dial (Inr (list_request online page pageSize)) call
       (\<lambda>resp. printTerminalList (lr_terminals resp) (lr_total_count resp) jsonMode)"

definition showCmd where
  "showCmd dial call jsonMode arg =
     run_rpc dial (Inr (show_request arg)) call (\<lambda>resp. printTerminalDetail resp jsonMode)"

definition historyCmd where
  "historyCmd dial call jsonMode arg since until lmt =
     run_rpc dial (Inr \<lparr>gh_device_id = arg, gh_since = since, gh_until = until, gh_limit = lmt\<rparr>) call
       (\<lambda>resp. printTerminalHistory resp jsonMode)"

text \<open>Kick, block and unblock differ in the RPC only.\<close>

definition adminCmd where
  "adminCmd dial call jsonMode arg =
     run_rpc dial (Inr arg) call (\<lambda>resp. printResult (ar_ok resp) (ar_message resp) jsonMode)"

definition cmdCmd where
  "cmdCmd dial call entries jsonMode deviceID typeName rest timeout =
     run_rpc dial (cmd_request entries deviceID typeName rest timeout) call
       (\<lambda>resp. printCommandResult resp jsonMode)"

definition cmdlogCmd where
  "cmdlogCmd dial call jsonMode arg lmt =
     run_rpc dial (Inr (cmdlog_request arg lmt)) call
       (\<lambda>resp. printCommandLog resp jsonMode)"

text \<open>\<open>main\<close>: the exit code and what was printed.\<close>

definition admin_main :: "string + piece list \<Rightarrow> bool \<Rightarrow> int \<times> piece list" where
  "admin_main result jsonMode = (case result of
      Inl err \<Rightarrow> (1, printError err jsonMode) | Inr out \<Rightarrow> (0, out))"

section \<open>Lemmas\<close>

lemma truncate_text_Some: "3 \<le> n \<Longrightarrow> \<exists>t. truncate_text s (int n) = Some t \<and> length t \<le> n"
  by (auto simp: truncate_text_def go_slice_def)

lemma short_eq: "3 \<le> n \<Longrightarrow> truncate_text s (int n) = Some (short n s) \<and> length (short n s) \<le> n"
  using truncate_text_Some [of n s] by (auto simp: short_def)

text \<open>The divisor found by the loop is the largest power of 1024 that is not above the number.\<close>

lemma fb_loop_spec:
  assumes "unat d = 1024 ^ (e + 1)" "unat d \<le> b" "b < 2 ^ 64" "unat n = b div unat d"
    and "fb_loop n d e = (d', e')"
  shows "unat d' = 1024 ^ (e' + 1) \<and> unat d' \<le> b \<and> b < 1024 * unat d'"
  using assms
proof (induction n d e rule: fb_loop.induct)
  case (1 n d e)
  show ?case
  proof (cases "1024 \<le> n")
    case True
    have "1024 \<le> b div unat d" using True 1(5) by (simp add: word_le_nat_alt)
    then have le: "1024 * unat d \<le> b"
      by (metis div_le_mono2 div_mult_self1_is_m div_times_less_eq_dividend le_trans mult_le_mono1)
    then have d: "unat (d * 1024) = unat d * 1024"
      using 1(4) by (simp add: unat_word_ariths)
    show ?thesis
    proof (rule 1(1) [OF True])
      show "unat (d * 1024) = 1024 ^ (e + 1 + 1)" using 1(2) d by simp
      show "unat (d * 1024) \<le> b" using le d by simp
      show "unat (n div 1024) = b div unat (d * 1024)"
        using 1(5) d by (simp add: unat_div div_mult2_eq)
      show "fb_loop (n div 1024) (d * 1024) (e + 1) = (d', e')"
        using 1(6) True by (simp add: fb_loop.simps [of n])
    qed (rule 1(4))
  next
    case False
    then have r: "d' = d" "e' = e" using 1(6) by (simp_all add: fb_loop.simps [of n])
    have "b div unat d < 1024" using False 1(5) by (simp add: word_le_nat_alt)
    moreover have "0 < unat d" using 1(2) by simp
    ultimately have "b < 1024 * unat d" by (simp add: div_less_iff_less_mult)
    then show ?thesis using 1(2,3) r by simp
  qed
qed

lemma b64: "unat b < 2 ^ 64" for b :: uint64
  using unsigned_less [of b] by simp

lemma formatBytes_loop:
  assumes "1024 \<le> b" "fb_loop (b div 1024) 1024 0 = (d, e)"
  shows "unat d = 1024 ^ (e + 1)" "unat d \<le> unat b" "unat b < 1024 * unat d" "e < 6"
proof -
  have *: "unat d = 1024 ^ (e + 1) \<and> unat d \<le> unat b \<and> unat b < 1024 * unat d"
    by (rule fb_loop_spec [OF _ _ _ _ assms(2)])
      (use assms(1) b64 [of b] in \<open>simp_all add: unat_div word_le_nat_alt\<close>)
  then show "unat d = 1024 ^ (e + 1)" "unat d \<le> unat b" "unat b < 1024 * unat d" by simp_all
  have "(1024 :: nat) ^ (e + 1) < 2 ^ 64" using * b64 [of b] by (simp del: power_Suc)
  then have "(2 :: nat) ^ (10 * (e + 1)) < 2 ^ 64" by (simp only: power_mult) simp
  then have "10 * (e + 1) < 64" by (simp only: power_strict_increasing_iff)
  then show "e < 6" by simp
qed

lemma formatBytes_Some: "\<exists>t. formatBytes b = Some t"
proof (cases "b < 1024")
  case False
  obtain d e where l: "fb_loop (b div 1024) 1024 0 = (d, e)" by fastforce
  have "e < 6" by (rule formatBytes_loop(4) [OF _ l]) (use False in simp)
  then show ?thesis using False l by (simp add: formatBytes_def)
qed (simp add: formatBytes_def)

lemma split_kv_from_eq:
  "split_kv_from s i = (case Cut (CHR ''='') (drop i s) of
     None \<Rightarrow> [s] | Some (a, b) \<Rightarrow> [take i s @ a, b])"
proof (induction s i rule: split_kv_from.induct)
  case (1 s i)
  show ?case
  proof (cases "i < length s")
    case True
    then have d: "drop i s = s ! i # drop (i + 1) s" "take (i + 1) s = take i s @ [s ! i]"
      by (simp_all add: Cons_nth_drop_Suc take_Suc_conv_app_nth)
    show ?thesis
      using True 1 d by (subst split_kv_from.simps) (auto split: option.split)
  qed (subst split_kv_from.simps; simp)
qed

lemma splitKeyValue_eq:
  "splitKeyValue s = (case Cut (CHR ''='') s of None \<Rightarrow> [s] | Some (a, b) \<Rightarrow> [a, b])"
  by (simp add: splitKeyValue_def split_kv_from_eq split: option.split)

lemma params_loop_pairs:
  "\<forall>p \<in> set ps. CHR ''='' \<notin> set (fst p) \<Longrightarrow>
   params_loop (map (\<lambda>p. fst p @ ''='' @ snd p) ps) m = m ++ map_of (rev ps)"
  by (induction ps arbitrary: m) (auto simp: splitKeyValue_eq Cut_append)

end
