(* ===== verification/AdminSpec.thy ===== *)
theory AdminSpec
  imports GatewayHttp AdminCli
begin

text \<open>
  Properties of the admin tool: the gateway's events replay the server's snapshots, the arguments
  of \<open>cmd\<close> reach the request, and what the tables show.
\<close>

section \<open>The gateway\<close>

definition demo_summary :: "string \<Rightarrow> bool \<Rightarrow> terminal_summary" where
  "demo_summary sid online = \<lparr>ts_session_id = sid, ts_hostname = ''host'', ts_os = ''linux'',
     ts_os_version = [], ts_client_version = [], ts_online = online, ts_last_heartbeat = [],
     ts_last_seen_at = [], ts_device_id = sid, ts_blocked = False\<rparr>"



text \<open>The hub announces changes of known sessions only: an event is written for a session exactly
  when it was in the snapshot before with the opposite status; a session that appears in a poll
  for the first time, online or not, is never announced by that poll.\<close>

theorem only_known_sessions_announced:
  assumes "distinct keys" "set keys = dom (snapshot_of ts)"
  shows "(\<exists>e \<in> set (poll_events now keys ts h). we_session_id e = sid \<and> we_type e = what) \<longleftrightarrow>
    (\<exists>online. snapshot_of ts sid = Some online \<and> hu_last h sid = Some (\<not> online) \<and>
       what = (if online then ''online'' else ''offline''))"
proof
  assume "\<exists>e \<in> set (poll_events now keys ts h). we_session_id e = sid \<and> we_type e = what"
  then obtain e k where e: "change_event now ts (hu_last h) (snapshot_of ts) k = Some e"
    "we_session_id e = sid" "we_type e = what"
    unfolding poll_events_def set_map_filter by blast
  then obtain b where "snapshot_of ts k = Some b" "hu_last h k = Some (\<not> b)"
    "we_session_id e = k" "we_type e = (if b then ''online'' else ''offline'')"
    unfolding change_event_Some by force
  then show "\<exists>online. snapshot_of ts sid = Some online \<and> hu_last h sid = Some (\<not> online) \<and>
      what = (if online then ''online'' else ''offline'')" using e(2,3) by (intro exI [of _ b]) simp
next
  assume "\<exists>online. snapshot_of ts sid = Some online \<and> hu_last h sid = Some (\<not> online) \<and>
      what = (if online then ''online'' else ''offline'')"
  then obtain online where o: "snapshot_of ts sid = Some online" "hu_last h sid = Some (\<not> online)"
    "what = (if online then ''online'' else ''offline'')" by blast
  then obtain e where e: "change_event now ts (hu_last h) (snapshot_of ts) sid = Some e"
    "we_session_id e = sid" "we_type e = what" by (simp add: change_event_def)
  have "sid \<in> set keys" using o(1) assms(2) by auto
  with e show "\<exists>e \<in> set (poll_events now keys ts h). we_session_id e = sid \<and> we_type e = what"
    by (auto simp: poll_events_def set_map_filter)
qed

theorem only_known_sessions_announced_witness:
  "poll_events ''t'' [''a''] [demo_summary ''a'' True] newWSHub = []"
proof -
  have d: "dom (snapshot_of [demo_summary ''a'' True]) = {''a''}"
    by (simp add: dom_snapshot demo_summary_def)
  have "\<not> (\<exists>e \<in> set (poll_events ''t'' [''a''] [demo_summary ''a'' True] newWSHub).
      we_session_id e = sid \<and> we_type e = what)" for sid what
    using only_known_sessions_announced [of "[''a'']" "[demo_summary ''a'' True]" "''t''" newWSHub sid what] d
    by (simp add: newWSHub_def)
  then have "e \<notin> set (poll_events ''t'' [''a''] [demo_summary ''a'' True] newWSHub)" for e by blast
  then show ?thesis by (metis list.set_intros(1) neq_Nil_conv)
qed

text \<open>C38: Over HTTP only the eight admin RPCs reach the backend. A preflight is answered with 204 and
  nothing else happens; a request for an admin RPC gets the backend's answer or error unchanged; a
  request for Register, Channel or TransferFile gets Unimplemented; and whatever the method, path
  and body are, the backend is not touched unless the path is that of an admin RPC. The inner
  handlers always run with the configured CORS origin set.\<close>

theorem only_admin_rpcs_pass:
  fixes backend :: "'s backend" and s :: 's and hs :: headers and origin meth path :: string
  assumes "\<forall>r req. decode r = Some req \<longrightarrow> rpc_of req = r"
  defines "own \<equiv> {RpcRegister, RpcChannel, RpcTransferFile}"
  defines "out \<equiv> gateway_handler origin backend meth path decode hs s"
  shows "fst out ''Access-Control-Allow-Origin'' = Some origin \<and>
    (if meth = ''OPTIONS'' then snd out = (HttpStatus 204, s)
     else (\<forall>r req. path = procedure r \<longrightarrow> decode r = Some req \<longrightarrow> snd out =
       (if r \<in> own then (HttpRpc (Inl (UnimplementedTeamXHandler r)), s)
        else (case backend req s of
            (Inl e, s') \<Rightarrow> (HttpRpc (Inl (FromBackend e)), s') | (Inr x, s') \<Rightarrow> (HttpRpc (Inr x), s'))))) \<and>
    (snd (snd out) \<noteq> s \<longrightarrow> meth \<noteq> ''OPTIONS'' \<and> (\<exists>r. r \<notin> own \<and> path = procedure r))"
proof -
  let ?hs = "cors_headers origin hs"
  let ?inner = "mux decode backend path ?hs s"
  have out: "out = (if meth = ''OPTIONS'' then (?hs, HttpStatus 204, s) else ?inner)"
    by (simp add: out_def gateway_handler_def corsMiddleware_def Let_def)
  have hs: "?hs ''Access-Control-Allow-Origin'' = Some origin" by (simp add: cors_headers_def)
  show ?thesis
  proof (cases "\<exists>r. path = procedure r")
    case False
    then show ?thesis using mux_other [OF False, of decode backend ?hs s] False hs by (auto simp: out)
  next
    case True
    then obtain r where r: "path = procedure r" by blast
    have i: "mux decode backend (procedure r) ?hs s = (case decode r of
        None \<Rightarrow> (?hs, HttpRefused, s)
      | Some req \<Rightarrow> (case gateway_method backend req s of (res, s') \<Rightarrow> (?hs, HttpRpc res, s')))"
      by (simp add: mux_procedure NewTeamXHandler_def)
    show ?thesis
    proof (cases "decode r")
      case None
      then show ?thesis using hs by (simp add: out i r)
    next
      case (Some req)
      then have "rpc_of req = r" using assms(1) by blast
      then show ?thesis using hs Some
        by (auto simp: out i r gateway_method_eq own_def split: prod.split sum.split)
    qed
  qed
qed

theorem only_admin_rpcs_pass_witness:
  "snd (gateway_handler ''*'' (\<lambda>req n. (Inr (RespAdmin \<lparr>ar_ok = True, ar_message = ''kicked''\<rparr>), n + 1)) ''POST''
     (procedure RpcDisconnectTerminal) [RpcDisconnectTerminal \<mapsto> ReqDisconnectTerminal ''s1''] Map.empty (0 :: nat)) =
   (HttpRpc (Inr (RespAdmin \<lparr>ar_ok = True, ar_message = ''kicked''\<rparr>)), 1)"
proof -
  let ?d = "[RpcDisconnectTerminal \<mapsto> ReqDisconnectTerminal ''s1'']"
  let ?b = "\<lambda>req n :: nat. (Inr (RespAdmin \<lparr>ar_ok = True, ar_message = ''kicked''\<rparr>), n + 1)"
  have "\<forall>r req. ?d r = Some req \<longrightarrow> rpc_of req = r" by simp
  from only_admin_rpcs_pass [OF this, of "''*''" ?b "''POST''" "procedure RpcDisconnectTerminal" Map.empty 0]
  show ?thesis by simp
qed

section \<open>The command line\<close>

lemma map_of_rev: "distinct (map fst ps) \<Longrightarrow> map_of (rev ps) = map_of ps"
proof (induction ps)
  case (Cons p ps)
  then have "fst p \<notin> dom (map_of ps)" by (simp add: dom_map_of_conv_image_fst)
  with Cons show ?case by (cases p) (auto simp: map_add_def fun_eq_iff split: option.split)
qed simp

lemma prefixed_name_refused:
  "cmd_request entries device (''COMMAND_TYPE_'' @ name) args timeout =
    Inl (''unknown command type: '' @ (''COMMAND_TYPE_'' @ name) @
      '' (valid: COLLECT_NOW, RUN_SCRIPT, RESTART, SHUTDOWN)'')"
proof -
  have "map_of CommandType_value (''COMMAND_TYPE_'' @ ''COMMAND_TYPE_'' @ name) = None"
    by (simp add: CommandType_value_def)
  then show ?thesis by (simp add: cmd_request_def)
qed

text \<open>C36: The arguments of cmd reach the request: for the name of a command type without its prefix
  COMMAND_TYPE_ and pairs key=value with different keys that contain no equals sign (the values
  may), the request carries the device, the type's number and exactly these parameters. The name
  with the prefix is refused.\<close>

theorem cmd_arguments_reach_request:
  assumes "map_of CommandType_value (''COMMAND_TYPE_'' @ name) = Some t"
    and "distinct (map fst ps)" "\<forall>p \<in> set ps. CHR ''='' \<notin> set (fst p)"
    and "\<And>m. finite (dom m) \<Longrightarrow> map_of (entries m) = m"
  shows "\<exists>req. cmd_request entries device name (map (\<lambda>p. fst p @ ''='' @ snd p) ps) timeout = Inr req \<and>
    sc_device_id req = device \<and> sc_type req = t \<and> map_of (sc_params req) = map_of ps \<and>
    map_of CommandType_name (sc_type req) = Some (''COMMAND_TYPE_'' @ name) \<and>
    (\<forall>args. \<exists>err. cmd_request entries device (''COMMAND_TYPE_'' @ name) args timeout = Inl err)"
proof -
  have "params_loop (map (\<lambda>p. fst p @ ''='' @ snd p) ps) Map.empty = map_of ps"
    using params_loop_pairs [OF assms(3), of Map.empty] map_of_rev [OF assms(2)] by simp
  moreover have "map_of CommandType_name t = Some n" if "map_of CommandType_value n = Some t" for n
    using that by (auto simp: CommandType_value_def CommandType_name_def split: if_splits)
  ultimately have "cmd_request entries device name (map (\<lambda>p. fst p @ ''='' @ snd p) ps) timeout =
      Inr \<lparr>sc_device_id = device, sc_type = t, sc_params = entries (map_of ps), sc_timeout_sec = timeout\<rparr>"
    "map_of (entries (map_of ps)) = map_of ps" "map_of CommandType_name t = Some (''COMMAND_TYPE_'' @ name)"
    using assms(1) assms(4) [OF finite_dom_map_of [of ps]] by (simp_all only: cmd_request_def option.case)
  then show ?thesis
    using prefixed_name_refused [of entries device name _ timeout]
    by (intro exI [of _ "\<lparr>sc_device_id = device, sc_type = t, sc_params = entries (map_of ps), sc_timeout_sec = timeout\<rparr>"])
      (simp only: send_command_request.select_convs, blast)
qed

definition sorted_entries :: "(string \<rightharpoonup> string) \<Rightarrow> (string \<times> string) list" where
  "sorted_entries m = map (\<lambda>k. (k, the (m k))) (sorted_list_of_set (dom m))"

lemma sorted_entries: "finite (dom m) \<Longrightarrow> map_of (sorted_entries m) = m"
  by (rule ext) (auto simp: sorted_entries_def map_of_map_restrict restrict_map_def domIff)

theorem cmd_arguments_reach_request_witness:
  "\<exists>req. cmd_request sorted_entries ''dev'' ''RUN_SCRIPT'' [''cmd=a=b''] 0 = Inr req \<and>
     sc_type req = 2 \<and> map_of (sc_params req) ''cmd'' = Some ''a=b''"
  using cmd_arguments_reach_request [of "''RUN_SCRIPT''" 2 "[(''cmd'', ''a=b'')]" sorted_entries "''dev''" 0,
      OF _ _ _ sorted_entries]
  by (auto simp: CommandType_value_def)

text \<open>C37: formatBytes never indexes past its unit letters: for every 64-bit value the result is either
  the number of bytes, below 1024, or the value over the largest power of 1024 not above it (one
  of the first six), with one decimal and that power's letter.\<close>

theorem format_bytes_units:
  "if b < 1024 then formatBytes b = Some (show_nat (unat b) @ '' B'')
   else \<exists>e < 6. 1024 ^ (e + 1) \<le> unat b \<and> unat b < 1024 ^ (e + 2) \<and>
     formatBytes b = Some (fmt1 (f64 (f64_of_uint b / 1024 ^ (e + 1))) @ '' '' @ [''KMGTPE'' ! e] @ ''B'')"
proof (cases "b < 1024")
  case False
  obtain d e where l: "fb_loop (b div 1024) 1024 0 = (d, e)" by fastforce
  have ge: "1024 \<le> b" using False by simp
  note f = formatBytes_loop [OF ge l]
  have "f64 (of_int 1 * pow2 (10 * int (e + 1))) = of_int 1 * pow2 (10 * int (e + 1))"
    by (rule f64_exact) simp
  moreover have "pow2 (10 * int (e + 1)) = 1024 ^ (e + 1)"
  proof -
    have "nat (10 * int (e + 1)) = 10 * (e + 1)" by simp
    then have "pow2 (10 * int (e + 1)) = (2 ^ 10) ^ (e + 1)"
      by (simp only: pow2_def power_mult) simp
    then show ?thesis by simp
  qed
  ultimately have "f64_of_uint d = 1024 ^ (e + 1)" using f(1) by (simp add: f64_of_uint_def)
  then have "formatBytes b = Some (fmt1 (f64 (f64_of_uint b / 1024 ^ (e + 1))) @ '' '' @ [''KMGTPE'' ! e] @ ''B'')"
    using False l f(4) by (simp add: formatBytes_def)
  then show ?thesis using False f by (auto intro!: exI [of _ e])
qed (simp add: formatBytes_def)

text \<open>The summary line of list counts the online terminals of the printed page but subtracts them
  from the total of all pages: with more terminals than fit on the page, every terminal that is
  not on it is shown as offline, also those that are online.\<close>

theorem list_counts_other_pages_offline:
  assumes "length page \<le> n" "n < 2 ^ 31"
  shows "total_line page (of_nat n) = ''Total: '' @ show_nat n @ '' terminals ('' @
    show_nat (length (filter ts_online page)) @ '' online, '' @
    show_nat (length (filter (\<lambda>t. \<not> ts_online t) page) + (n - length page)) @ '' offline)''"
proof -
  let ?on = "length (filter ts_online page)" and ?off = "length (filter (\<lambda>t. \<not> ts_online t) page)"
  have sum: "?on + ?off = length page" by (rule sum_length_filter_compl)
  have w: "sint (word_of_int (int k) :: int32) = int k" if "k < 2 ^ 31" for k
    using that by (simp add: signed_of_nat signed_take_bit_int_eq_self)
  have "(of_nat n - of_nat ?on :: int32) = of_nat (n - ?on)"
    using assms(1) sum by (simp add: of_nat_diff)
  moreover define k where "k = ?off + (n - length page)"
  moreover from this have "n - ?on = k" using assms(1) sum by linarith
  ultimately have "sint (of_nat n - of_nat ?on :: int32) = int k"
    using w [of k] assms(2) by simp
  then show ?thesis
    unfolding total_line_def Let_def k_def [symmetric] using w [OF assms(2)]
    by (simp add: show_int_def)
qed

theorem list_counts_other_pages_offline_witness:
  "total_line [demo_summary ''a'' True] (of_nat 3) = ''Total: 3 terminals (1 online, 2 offline)''"
  using list_counts_other_pages_offline [of "[demo_summary ''a'' True]" 3]
  by (simp add: demo_summary_def show_nat.simps)

end
