(* ===== verification/Tools.thy ===== *)
theory Tools
  imports Server
begin

text \<open>
  The command line tools under \<open>tools\<close>: \<open>dump_db.go\<close> prints the tables of a database file,
  \<open>check_rpc.go\<close> and \<open>check_33.go\<close> call a running server and print what it answers. What a tool
  prints is the list of its lines; \<open>log.Fatal\<close> ends it with the text it logs.

  The server that the two check tools call is a record of functions; the properties apply them to
  the model of the server.
\<close>

section \<open>Shared helpers\<close>

text \<open>\<open>safeP\<close> and \<open>safePrefix\<close> are the same function.\<close>

definition safeP :: "string \<Rightarrow> nat \<Rightarrow> string" where
  "safeP s n = (if length s < n then s else take n s)"

definition show_bool :: "bool \<Rightarrow> string" where
  "show_bool b = (if b then ''true'' else ''false'')"

definition bool_int :: "bool \<Rightarrow> string" where
  "bool_int b = (if b then ''1'' else ''0'')"

definition done_mark :: string where "done_mark = map byte_char [0xE2, 0x9C, 0x85]"
definition arrow :: string where "arrow = map byte_char [0xE2, 0x86, 0x92]"
definition dash :: string where "dash = map byte_char [0xE2, 0x80, 0x94]"

section \<open>\<open>dump_db.go\<close>\<close>

text \<open>Integer division of the engine, which truncates.\<close>

definition sql_div :: "int64 \<Rightarrow> int \<Rightarrow> int" where
  "sql_div x m = (if sint x < 0 then - ((- sint x) div m) else sint x div m)"

text \<open>
  A row is scanned column by column into strings; a NULL heartbeat cannot be stored in a string and
  ends the scan there, with an error that the tool drops, so that this variable and the two
  after it stay empty.
\<close>

definition dump_terminal :: "terminal_row \<Rightarrow> string list" where
  "dump_terminal r = (case (case t_last_heartbeat r of
        None \<Rightarrow> ([], [], []) | Some h \<Rightarrow> (h, t_last_seen r, t_first_seen r)) of (lhb, lastSeen, firstSeen) \<Rightarrow>
     [''  sid='' @ safeP (t_session r) 8 @ '' did='' @ safeP (t_device r) 16 @ '' host='' @ t_hostname r @
        '' os='' @ t_os r @ '' ver='' @ t_client r @ '' online='' @ bool_int (t_online r) @
        '' blocked='' @ bool_int (t_blocked r),
      ''    first='' @ safeP firstSeen 19 @ '' last='' @ safeP lastSeen 19 @ '' hb='' @ safeP lhb 19])"

definition dump_report :: "report_row \<Rightarrow> string list" where
  "dump_report r = [''  rid='' @ safeP (r_report r) 8 @ '' did='' @ safeP (r_device r) 16 @ '' sid='' @
     safeP (r_session r) 8 @ '' cpu='' @ r_cpu_model r @ '' cores='' @ show_int (sint (r_cpu_cores r)) @ ''/'' @
     show_int (sint (r_cpu_threads r)) @ '' arch='' @ r_cpu_arch r @ '' mem='' @
     show_int (sql_div (r_mem_total r) 1048576) @ ''MB/'' @ show_int (sql_div (r_mem_avail r) 1048576) @
     ''MB created='' @ safeP (r_created r) 19]"

definition dump_disk :: "disk_row \<Rightarrow> string list" where
  "dump_disk r = [''  rid='' @ safeP (d_report r) 8 @ '' dev='' @ d_device r @ '' mount='' @ d_mount r @
     '' fs='' @ d_fs r @ '' total='' @ show_int (sql_div (d_total r) 1073741824) @ ''GB used='' @
     show_int (sql_div (d_used r) 1073741824) @ ''GB'']"

definition dump_net :: "net_row \<Rightarrow> string list" where
  "dump_net r = [''  rid='' @ safeP (n_report r) 8 @ '' name='' @ n_name r @ '' mac='' @ n_mac r @
     '' lo='' @ show_bool (n_loopback r)]"

definition dump_bios :: "bios_row \<Rightarrow> string list" where
  "dump_bios r = [''  rid='' @ safeP (b_report r) 8 @ '' vendor='' @ b_vendor r @ '' ver='' @ b_version r @
     '' date='' @ b_release r]"

definition dump_board :: "board_row \<Rightarrow> string list" where
  "dump_board r = [''  rid='' @ safeP (m_report r) 8 @ '' mfr='' @ m_manufacturer r @ '' prod='' @
     m_product r @ '' serial='' @ m_serial r]"

record dump =
  du_lines :: "string list"
  du_fatal :: "string option"
  du_db :: db

text \<open>One block of \<open>main\<close>: title, query, rows, count. \<open>rows.Err\<close> is not looked at.\<close>

definition dump_section ::
  "string list \<Rightarrow> (db \<Rightarrow> 'r list) \<Rightarrow> ('r \<Rightarrow> string list) \<Rightarrow> string \<Rightarrow> dump \<Rightarrow> dump" where
  "dump_section title q render noun st =
     (if du_fatal st \<noteq> None then st
      else let out = du_lines st @ title in
        (case sql_query (\<lambda>d. Inr (q d)) (du_db st) of
           (Inl e, d) \<Rightarrow> \<lparr>du_lines = out, du_fatal = Some e, du_db = d\<rparr>
         | (Inr (rows, _), d) \<Rightarrow>
             \<lparr>du_lines = out @ concat (map render rows) @
                [''  '' @ arrow @ '' '' @ show_nat (length rows) @ noun], du_fatal = None, du_db = d\<rparr>))"

definition in_scan_order :: "(db \<Rightarrow> 'r list) \<Rightarrow> nat \<Rightarrow> db \<Rightarrow> 'r list" where
  "in_scan_order tbl n d = take n (scan_rows (eng_scan (db_engine d)) (tbl d))"

definition dump_db :: "string option \<Rightarrow> db \<Rightarrow> dump" where
  "dump_db open_err d = (case open_err of
      Some e \<Rightarrow> \<lparr>du_lines = [], du_fatal = Some e, du_db = d\<rparr>
    | None \<Rightarrow>
        let s1 = dump_section [''=== terminals ===''] (\<lambda>d. order_desc (eng_order (db_engine d)) t_last_seen (terminals d))
              dump_terminal '' terminal(s)'' \<lparr>du_lines = [], du_fatal = None, du_db = d\<rparr>;
            s2 = dump_section ['''', ''=== hardware_reports ==='']
              (\<lambda>d. take 10 (order_desc (eng_order (db_engine d)) r_created (reports d)))
              dump_report '' hardware report(s)'' s1;
            s3 = dump_section ['''', ''=== hardware_disks ===''] (in_scan_order disks 10) dump_disk '' disk(s)'' s2;
            s4 = dump_section ['''', ''=== hardware_nets ===''] (in_scan_order nets 10) dump_net
              '' network interface(s)'' s3;
            s5 = dump_section ['''', ''=== hardware_bios ===''] (in_scan_order bioses 5) dump_bios
              '' BIOS record(s)'' s4;
            s6 = dump_section ['''', ''=== hardware_motherboard ===''] (in_scan_order boards 5) dump_board
              '' motherboard record(s)'' s5
        in if du_fatal s6 \<noteq> None then s6
           else s6\<lparr>du_lines := du_lines s6 @ ['''', done_mark @ '' dump_db complete.'']\<rparr>)"

section \<open>The server as the check tools call it\<close>

record 's rpc_calls =
  rc_list :: "list_terminals_request \<Rightarrow> 's \<Rightarrow> (grpc_status + list_terminals_response) \<times> 's"
  rc_get :: "get_terminal_request \<Rightarrow> 's \<Rightarrow> (grpc_status + get_terminal_response) \<times> 's"
  rc_history :: "get_terminal_history_request \<Rightarrow> 's \<Rightarrow> (grpc_status + get_terminal_history_response) \<times> 's"
  rc_disconnect :: "string \<Rightarrow> 's \<Rightarrow> (grpc_status + admin_response) \<times> 's"
  rc_block :: "string \<Rightarrow> 's \<Rightarrow> (grpc_status + admin_response) \<times> 's"
  rc_unblock :: "string \<Rightarrow> 's \<Rightarrow> (grpc_status + admin_response) \<times> 's"

text \<open>How a tool ends: it finishes, it logs a text, or it logs a call's name and error.\<close>

datatype tool_end = Finished | Fatal string | FatalCall string grpc_status

type_synonym 's tool = "(string list \<times> tool_end) \<times> 's"

text \<open>Print some lines and go on.\<close>

definition prints :: "string list \<Rightarrow> 's tool \<Rightarrow> 's tool" where
  "prints ls r = (case r of ((out, e), s) \<Rightarrow> ((ls @ out, e), s))"

text \<open>A call whose error is fatal.\<close>

definition call :: "string \<Rightarrow> (grpc_status + 'a) \<times> 's \<Rightarrow> ('a \<Rightarrow> 's \<Rightarrow> 's tool) \<Rightarrow> 's tool" where
  "call name r k = (case r of (Inl e, s) \<Rightarrow> (([], FatalCall name e), s) | (Inr x, s) \<Rightarrow> k x s)"

definition all_page :: "int32 \<Rightarrow> list_terminals_request" where
  "all_page page = \<lparr>lt_online_filter = None, lt_page_size = 10, lt_page = page\<rparr>"

section \<open>\<open>check_33.go\<close>\<close>

definition admin_line :: "admin_response \<Rightarrow> string" where
  "admin_line r = ''ok='' @ show_bool (ar_ok r) @ '' msg='' @ ar_message r"

definition after_kick :: "string \<Rightarrow> grpc_status + list_terminals_response \<Rightarrow> string list" where
  "after_kick sid r = (case r of
      Inl _ \<Rightarrow> []
    | Inr resp \<Rightarrow> map (\<lambda>t. ''  after kick: online='' @ show_bool (ts_online t))
        (filter (\<lambda>t. ts_session_id t = sid) (lr_terminals resp)))"

text \<open>\<open>wait\<close> is what happens at the server during the two seconds after the kick.\<close>

definition check_33 :: "'s rpc_calls \<Rightarrow> ('s \<Rightarrow> 's) \<Rightarrow> 's \<Rightarrow> 's tool" where
  "check_33 c wait s =
     prints [''=== 1. ListTerminals ===''] (call ''ListTerminals'' (rc_list c (all_page 0) s) (\<lambda>r1 s1.
       case lr_terminals r1 of
         [] \<Rightarrow> (([], Fatal (''No terminals '' @ dash @ '' start a client first'')), s1)
       | t # _ \<Rightarrow>
           let sid = ts_session_id t; did = ts_device_id t in
           prints [''session='' @ safeP sid 8 @ '' device='' @ safeP did 16 @ '' host='' @ ts_hostname t @
               '' online='' @ show_bool (ts_online t), '''', ''=== 2. DisconnectTerminal (Kick) ==='']
           (call ''DisconnectTerminal'' (rc_disconnect c sid s1) (\<lambda>r2 s2.
             prints [admin_line r2]
             (case rc_list c (all_page 0) (wait s2) of (r1b, s3) \<Rightarrow>
               prints (after_kick sid r1b @ ['''', ''=== 3. BlockTerminal ==='']) (
               call ''BlockTerminal'' (rc_block c did s3) (\<lambda>r3 s4.
                 prints [admin_line r3]
                 (call ''GetTerminal after block'' (rc_get c \<lparr>gt_session_id = [], gt_device_id = did\<rparr> s4) (\<lambda>r3b s5.
                   prints [''  terminal query ok, hardware='' @ show_bool (gr_latest_hardware r3b \<noteq> None),
                       '''', ''=== 4. UnblockTerminal ==='']
                   (call ''UnblockTerminal'' (rc_unblock c did s5) (\<lambda>r4 s6.
                     (([admin_line r4, '''', done_mark @ '' Phase 3.3 '' @ dash @
                        '' all 3 control RPCs work correctly.''], Finished), s6))))))))))))"

section \<open>\<open>check_rpc.go\<close>\<close>

definition rpc_row :: "terminal_summary \<Rightarrow> string" where
  "rpc_row t = ''  sid='' @ safeP (ts_session_id t) 8 @ '' did='' @ safeP (ts_device_id t) 16 @ '' host='' @
     ts_hostname t @ '' os='' @ ts_os t @ '' online='' @ show_bool (ts_online t) @ '' hb='' @
     safeP (ts_last_heartbeat t) 19"

definition hardware_line :: "hardware_info option \<Rightarrow> string" where
  "hardware_line hw = (case hw of
      None \<Rightarrow> ''hardware: nil''
    | Some h \<Rightarrow> ''hardware: cpu='' @ get_model (hw_cpu h) @ '' cores='' @ show_int (sint (get_cores (hw_cpu h))) @
        '' threads='' @ show_int (sint (get_threads (hw_cpu h))) @ '' arch='' @ get_architecture (hw_cpu h) @
        '' mem='' @ show_nat (unat (get_total_bytes (hw_memory h) div 1048576)) @ ''MB'')"

definition snapshot_line :: "nat \<times> hardware_snapshot \<Rightarrow> string" where
  "snapshot_line = (\<lambda>(i, s). ''  ['' @ show_nat i @ ''] rid='' @ safeP (sn_report_id s) 8 @ '' created='' @
     safeP (sn_created_at s) 19)"

text \<open>The error of the second call is dropped; the getter of its nil response gives 0.\<close>

definition check_rpc :: "'s rpc_calls \<Rightarrow> 's \<Rightarrow> 's tool" where
  "check_rpc c s =
     prints [''=== ListTerminals (all) ===''] (call ''ListTerminals'' (rc_list c (all_page 1) s) (\<lambda>r1 s1.
       prints ((''total='' @ show_int (sint (lr_total_count r1)) @ '' terminals='' @
           show_nat (length (lr_terminals r1))) # map rpc_row (lr_terminals r1))
       (case lr_terminals r1 of
          [] \<Rightarrow> (([], Fatal (''NO TERMINALS '' @ dash @ '' cannot continue'')), s1)
        | t # _ \<Rightarrow>
          (case rc_list c (all_page 1 \<lparr>lt_online_filter := Some True\<rparr>) s1 of (r1b, s2) \<Rightarrow>
            prints ['''', ''=== ListTerminals (online only) ==='',
                ''total='' @ show_int (case r1b of Inl _ \<Rightarrow> 0 | Inr r \<Rightarrow> sint (lr_total_count r)),
                '''', ''=== GetTerminal ===''] (
            call ''GetTerminal'' (rc_get c \<lparr>gt_session_id = ts_session_id t, gt_device_id = []\<rparr> s2) (\<lambda>r2 s3.
              prints [''summary: host='' @ ts_hostname (gr_summary r2) @ '' os='' @ ts_os (gr_summary r2),
                  hardware_line (gr_latest_hardware r2), '''', ''=== GetTerminalHistory ==='']
              (call ''GetTerminalHistory'' (rc_history c \<lparr>gh_device_id = ts_device_id t, gh_since = [],
                  gh_until = [], gh_limit = 5\<rparr> s3) (\<lambda>r3 s4.
                ((((''snapshots='' @ show_nat (length (gy_snapshots r3))) #
                   map snapshot_line (zip [0..<length (gy_snapshots r3)] (gy_snapshots r3)) @
                   ['''', done_mark @ '' All 3 query RPCs work correctly.'']), Finished), s4)))))))))"

section \<open>What they show\<close>

lemma dump_section_works:
  assumes "no_faults d"
  shows "dump_section title q render noun \<lparr>du_lines = out, du_fatal = None, du_db = d\<rparr> =
    \<lparr>du_lines = out @ title @ concat (map render (q d)) @
       [''  '' @ arrow @ '' '' @ show_nat (length (q d)) @ noun], du_fatal = None, du_db = d\<rparr>"
  using assms by (simp add: dump_section_def sql_query_works no_faults_def)

text \<open>On a working store the dump ends without an error and shows every terminal; one that has never
  sent a heartbeat is shown without the times at which it was first and last seen, although both
  are in the table: its NULL heartbeat stops the scan of the row, and the tool drops the error.\<close>

theorem dump_hides_times:
  assumes "no_faults d" "desc_sorter (eng_order (db_engine d))" "r \<in> set (terminals d)"
    and "t_last_heartbeat r = None"
  shows "du_fatal (dump_db None d) = None \<and> du_db (dump_db None d) = d \<and>
    (\<exists>a line b. du_lines (dump_db None d) = a @ [line, ''    first= last= hb=''] @ b \<and>
       dump_terminal r = [line, ''    first= last= hb=''])"
proof -
  let ?rows = "order_desc (eng_order (db_engine d)) t_last_seen (terminals d)"
  have "set ?rows = set (terminals d)"
    using desc_sorter.mset_order [OF assms(2)] by (metis set_mset_mset)
  then obtain us vs where "?rows = us @ r # vs" using assms(3) by (metis split_list)
  then have "concat (map dump_terminal ?rows) = concat (map dump_terminal us) @ dump_terminal r @
      concat (map dump_terminal vs)" by simp
  moreover obtain line where "dump_terminal r = [line, ''    first= last= hb='']"
    by (simp add: dump_terminal_def assms(4) safeP_def)
  ultimately show ?thesis
    by (simp add: dump_db_def Let_def dump_section_works [OF assms(1)])
      (rule exI [of _ "''=== terminals ==='' # concat (map dump_terminal us)"], simp)
qed

theorem dump_hides_times_witness:
  "\<exists>a line b. du_lines (dump_db None (empty_db reference_engine []\<lparr>terminals := [\<lparr>t_session = ''s1'',
     t_device = ''dev'', t_hostname = ''pc'', t_os = ''linux'', t_os_version = [], t_kernel = [], t_client = ''1'',
     t_macs = [], t_ips = [], t_first_seen = ''2024-01-01T00:00:00Z'', t_last_seen = ''2024-01-01T00:00:00Z'',
     t_last_heartbeat = None, t_online = False, t_blocked = False\<rparr>]\<rparr>)) =
   a @ [line, ''    first= last= hb=''] @ b"
  (is "\<exists>a line b. du_lines (dump_db None ?d) = _")
proof -
  have "no_faults ?d" "desc_sorter (eng_order (db_engine ?d))"
    by (simp_all add: empty_db_def no_faults_def reference.desc_sorter_axioms)
  then show ?thesis using dump_hides_times [of ?d "hd (terminals ?d)"] by fastforce
qed

end
