(* ===== verification/Flags.thy ===== *)
theory Flags
  imports Prelude
begin

text \<open>
  The flags that the programs declare. The texts of a command line are read by libraries (\<open>flag\<close> of
  the standard library for the server and the agent, cobra for the admin tool); the model starts
  with the values that they have read. A flag that was not given has its default.
\<close>

text \<open>Durations are nanoseconds; Go's \<open>int\<close> has 64 bits.\<close>

datatype flag_value =
    FlagString string
  | FlagBool bool
  | FlagInt int64
  | FlagInt32 int32
  | FlagInt64 int64
  | FlagDuration int64

record flag =
  fg_name :: string
  fg_default :: flag_value
  fg_usage :: string

type_synonym flag_values = "string \<Rightarrow> flag_value"

fun same_kind :: "flag_value \<Rightarrow> flag_value \<Rightarrow> bool" where
  "same_kind (FlagString _) (FlagString _) \<longleftrightarrow> True"
| "same_kind (FlagBool _) (FlagBool _) \<longleftrightarrow> True"
| "same_kind (FlagInt _) (FlagInt _) \<longleftrightarrow> True"
| "same_kind (FlagInt32 _) (FlagInt32 _) \<longleftrightarrow> True"
| "same_kind (FlagInt64 _) (FlagInt64 _) \<longleftrightarrow> True"
| "same_kind (FlagDuration _) (FlagDuration _) \<longleftrightarrow> True"
| "same_kind _ _ \<longleftrightarrow> False"

text \<open>The values of the flags when only those in \<open>given\<close> are set, the last one counting.\<close>

definition flag_values_of :: "flag list \<Rightarrow> (string \<times> flag_value) list \<Rightarrow> flag_values" where
  "flag_values_of fs given name = (case map_of (rev given) name of
      Some v \<Rightarrow> v
    | None \<Rightarrow> (case map_of (map (\<lambda>f. (fg_name f, fg_default f)) fs) name of
        Some v \<Rightarrow> v | None \<Rightarrow> FlagString []))"

definition well_typed :: "flag list \<Rightarrow> flag_values \<Rightarrow> bool" where
  "well_typed fs vs \<longleftrightarrow> list_all (\<lambda>f. same_kind (vs (fg_name f)) (fg_default f)) fs"

text \<open>The variables that the flags are bound to.\<close>

fun get_string :: "flag_value \<Rightarrow> string" where "get_string (FlagString s) = s" | "get_string _ = []"
fun get_bool :: "flag_value \<Rightarrow> bool" where "get_bool (FlagBool b) = b" | "get_bool _ = False"
fun get_int32 :: "flag_value \<Rightarrow> int32" where "get_int32 (FlagInt32 n) = n" | "get_int32 _ = 0"

fun get_int :: "flag_value \<Rightarrow> int64" where
  "get_int (FlagInt n) = n" | "get_int (FlagInt64 n) = n" | "get_int (FlagDuration n) = n" | "get_int _ = 0"

end
