(* ===== verification/AdminMain.thy ===== *)
theory AdminMain
  imports AdminSpec Tools Flags
begin

text \<open>
  The admin tool as a process (\<open>cmd/admin/main.go\<close>, \<open>commands.go\<close>, \<open>serve.go\<close>): the declaration of
  every subcommand with its flags and its rule for the arguments, the root command, and the end of
  the process.

  Cobra, which reads the command line, is a parameter: a function from the root command and the
  arguments of the process to what it does. The bodies of the subcommands index their arguments, so
  that they rest on the rule that cobra checks before it runs them.
\<close>

section \<open>The context and the calls\<close>

record cmdCtx =
  cx_server :: string
  cx_json :: bool

text \<open>The two calls that the check tools do not use.\<close>

record 's admin_calls = "'s rpc_calls" +
  rc_send :: "send_command_request \<Rightarrow> 's \<Rightarrow> (grpc_status + send_command_response) \<times> 's"
  rc_log :: "get_command_log_request \<Rightarrow> 's \<Rightarrow> (grpc_status + command_log_entry list) \<times> 's"

text \<open>
  What a run meets: the error of \<open>grpc.NewClient\<close> for an address, the calls of the client, the text
  of a status, the order of a map's entries, and for \<open>serve\<close> the baseline of the hub, what happens
  at it, what its requests do to the server and how \<open>ListenAndServe\<close> ends.
\<close>

record 's admin_env =
  ae_new_client :: "string \<Rightarrow> string option"
  ae_calls :: "'s admin_calls"
  ae_text :: "grpc_status \<Rightarrow> string"
  ae_entries :: "(string \<rightharpoonup> string) \<Rightarrow> (string \<times> string) list"
  ae_baseline :: "terminal_summary list option"
  ae_hub_events :: "hub_event list"
  ae_served :: "'s \<Rightarrow> 's"
  ae_listen :: "string option"

definition dial :: "'s admin_env \<Rightarrow> cmdCtx \<Rightarrow> string option" where
  "dial env ctx = (case ae_new_client env (cx_server ctx) of
      None \<Rightarrow> None | Some e \<Rightarrow> Some (''dial '' @ cx_server ctx @ '': '' @ e))"

definition as_text :: "(grpc_status \<Rightarrow> string) \<Rightarrow> ('q \<Rightarrow> 's \<Rightarrow> (grpc_status + 'a) \<times> 's) \<Rightarrow>
    'q \<Rightarrow> 's \<Rightarrow> (string + 'a) \<times> 's" where
  "as_text txt f q s = (case f q s of (Inl e, s') \<Rightarrow> (Inl (txt e), s') | (Inr a, s') \<Rightarrow> (Inr a, s'))"

section \<open>Commands\<close>

text \<open>A command without a rule takes any arguments.\<close>

datatype args_rule = AnyArgs | ExactArgs nat | MinimumNArgs nat

fun args_ok :: "args_rule \<Rightarrow> string list \<Rightarrow> bool" where
  "args_ok AnyArgs args \<longleftrightarrow> True"
| "args_ok (ExactArgs n) args \<longleftrightarrow> length args = n"
| "args_ok (MinimumNArgs n) args \<longleftrightarrow> n \<le> length args"

text \<open>
  How \<open>RunE\<close> ends: what it returns, with what it has printed, or a panic (an index out of range, or
  the ticker of the gateway).
\<close>

datatype run_end = RunReturned "string + piece list" | RunPanics

type_synonym 's run_e = "cmdCtx \<Rightarrow> flag_values \<Rightarrow> string list \<Rightarrow> 's \<Rightarrow> run_end \<times> 's"

record 's cobra_command =
  cc_use :: string
  cc_short :: string
  cc_long :: string
  cc_args :: args_rule
  cc_flags :: "flag list"
  cc_run :: "'s run_e"

record 's cobra_root =
  ro_use :: string
  ro_short :: string
  ro_long :: string
  ro_flags :: "flag list"
  ro_commands :: "'s cobra_command list"

definition line_break :: string where "line_break = [CHR 0x0A]"

text \<open>A body that has dialled before it looks at its first argument.\<close>

definition with_first :: "string option \<Rightarrow> string list \<Rightarrow>
    (string \<Rightarrow> 's \<Rightarrow> (string + piece list) \<times> 's) \<Rightarrow> 's \<Rightarrow> run_end \<times> 's" where
  "with_first d args body s = (case d of
      Some e \<Rightarrow> (RunReturned (Inl e), s)
    | None \<Rightarrow> (case args of
        [] \<Rightarrow> (RunPanics, s)
      | a # _ \<Rightarrow> (case body a s of (r, s') \<Rightarrow> (RunReturned r, s'))))"

definition newListCmd :: "'s admin_env \<Rightarrow> 's cobra_command" where
  "newListCmd env = \<lparr>cc_use = ''list'', cc_short = ''List terminals'',
     cc_long = ''List all registered terminals with optional online/offline filter and pagination.'',
     cc_args = AnyArgs,
     cc_flags = [\<lparr>fg_name = ''status'', fg_default = FlagString [], fg_usage = ''Filter by status: online, offline''\<rparr>,
       \<lparr>fg_name = ''page'', fg_default = FlagInt32 1, fg_usage = ''Page number (1-based)''\<rparr>,
       \<lparr>fg_name = ''page-size'', fg_default = FlagInt32 50, fg_usage = ''Page size (max 500)''\<rparr>],
     cc_run = (\<lambda>ctx vs args s.
       case listCmd (dial env ctx) (as_text (ae_text env) (rc_list (ae_calls env))) (cx_json ctx)
           (get_string (vs ''status'')) (get_int32 (vs ''page'')) (get_int32 (vs ''page-size'')) s of
         (r, s') \<Rightarrow> (RunReturned r, s'))\<rparr>"

definition newShowCmd :: "'s admin_env \<Rightarrow> 's cobra_command" where
  "newShowCmd env = \<lparr>cc_use = ''show <session-id|device-id>'',
     cc_short = ''Show terminal detail + latest hardware'',
     cc_long = ''Show terminal summary metadata and the most recent hardware report.'' @ line_break @
       ''Accepts session_id or device_id (auto-detect by length: 64-char = device_id).'',
     cc_args = ExactArgs 1, cc_flags = [],
     cc_run = (\<lambda>ctx vs args. with_first (dial env ctx) args
       (showCmd None (as_text (ae_text env) (rc_get (ae_calls env))) (cx_json ctx)))\<rparr>"

definition newHistoryCmd :: "'s admin_env \<Rightarrow> 's cobra_command" where
  "newHistoryCmd env = \<lparr>cc_use = ''history <device-id>'', cc_short = ''Show hardware report history'',
     cc_long = ''List hardware snapshots for a device within an optional time range.'',
     cc_args = ExactArgs 1,
     cc_flags = [\<lparr>fg_name = ''since'', fg_default = FlagString [], fg_usage = ''Start time (RFC3339)''\<rparr>,
       \<lparr>fg_name = ''until'', fg_default = FlagString [], fg_usage = ''End time (RFC3339)''\<rparr>,
       \<lparr>fg_name = ''limit'', fg_default = FlagInt32 100, fg_usage = ''Max snapshots (max 500)''\<rparr>],
     cc_run = (\<lambda>ctx vs args. with_first (dial env ctx) args
       (\<lambda>a. historyCmd None (as_text (ae_text env) (rc_history (ae_calls env))) (cx_json ctx) a
          (get_string (vs ''since'')) (get_string (vs ''until'')) (get_int32 (vs ''limit''))))\<rparr>"

definition newKickCmd :: "'s admin_env \<Rightarrow> 's cobra_command" where
  "newKickCmd env = \<lparr>cc_use = ''kick <session-id>'', cc_short = ''Disconnect a session'',
     cc_long = ''Forcefully disconnect an online session.'', cc_args = ExactArgs 1, cc_flags = [],
     cc_run = (\<lambda>ctx vs args. with_first (dial env ctx) args
       (adminCmd None (as_text (ae_text env) (rc_disconnect (ae_calls env))) (cx_json ctx)))\<rparr>"

definition newBlockCmd :: "'s admin_env \<Rightarrow> 's cobra_command" where
  "newBlockCmd env = \<lparr>cc_use = ''block <device-id>'', cc_short = ''Block a device'',
     cc_long = ''Add a device to the blocklist. All its sessions will be kicked.'',
     cc_args = ExactArgs 1, cc_flags = [],
     cc_run = (\<lambda>ctx vs args. with_first (dial env ctx) args
       (adminCmd None (as_text (ae_text env) (rc_block (ae_calls env))) (cx_json ctx)))\<rparr>"

definition newUnblockCmd :: "'s admin_env \<Rightarrow> 's cobra_command" where
  "newUnblockCmd env = \<lparr>cc_use = ''unblock <device-id>'', cc_short = ''Unblock a device'',
     cc_long = ''Remove a device from the blocklist.'', cc_args = ExactArgs 1, cc_flags = [],
     cc_run = (\<lambda>ctx vs args. with_first (dial env ctx) args
       (adminCmd None (as_text (ae_text env) (rc_unblock (ae_calls env))) (cx_json ctx)))\<rparr>"

definition newCmdCmd :: "'s admin_env \<Rightarrow> 's cobra_command" where
  "newCmdCmd env = \<lparr>cc_use = ''cmd <device-id> <type> [key=value ...]'',
     cc_short = ''Send a command to a terminal'',
     cc_long = concat (map (\<lambda>l. l @ line_break) [''Send a command to a remote terminal by device_id.'', [],
       ''Available command types:'',
       ''  COLLECT_NOW   - Trigger immediate hardware report'',
       ''  RUN_SCRIPT    - Execute a shell command (requires cmd=<script> param)'',
       ''  RESTART       - Restart the client agent'',
       ''  SHUTDOWN      - Shut down the client agent'', [],
       ''Parameters are specified as key=value pairs, e.g.:'',
       ''  admin cmd <device-id> RUN_SCRIPT cmd=uptime'',
       ''  admin cmd <device-id> COLLECT_NOW'']) @
       ''  admin cmd <device-id> RUN_SCRIPT cmd='' @ [CHR 0x22] @ ''ls -la /tmp'' @ [CHR 0x22],
     cc_args = MinimumNArgs 2,
     cc_flags = [\<lparr>fg_name = ''timeout'', fg_default = FlagInt64 0,
       fg_usage = ''Command timeout in seconds (0 = default 30s)''\<rparr>],
     cc_run = (\<lambda>ctx vs args s. case dial env ctx of
         Some e \<Rightarrow> (RunReturned (Inl e), s)
       | None \<Rightarrow> (case args of
           deviceID # typeName # rest \<Rightarrow>
             (case cmdCmd None (as_text (ae_text env) (rc_send (ae_calls env))) (ae_entries env) (cx_json ctx)
                 deviceID typeName rest (get_int (vs ''timeout'')) s of
               (r, s') \<Rightarrow> (RunReturned r, s'))
         | _ \<Rightarrow> (RunPanics, s)))\<rparr>"

definition newCmdLogCmd :: "'s admin_env \<Rightarrow> 's cobra_command" where
  "newCmdLogCmd env = \<lparr>cc_use = ''cmdlog <device-id|session-id>'',
     cc_short = ''Show command execution history'',
     cc_long = ''Show command execution history for a device or session.'' @ line_break @ line_break @
       ''Accepts either a device_id (64-char hex) or session_id (UUID).'',
     cc_args = ExactArgs 1,
     cc_flags = [\<lparr>fg_name = ''limit'', fg_default = FlagInt32 50, fg_usage = ''Max entries (max 200)''\<rparr>],
     cc_run = (\<lambda>ctx vs args. with_first (dial env ctx) args
       (\<lambda>a. cmdlogCmd None (as_text (ae_text env) (rc_log (ae_calls env))) (cx_json ctx) a
          (get_int32 (vs ''limit''))))\<rparr>"

text \<open>The lines that \<open>serve\<close> logs are left out.\<close>

definition newServeCmd :: "'s admin_env \<Rightarrow> 's cobra_command" where
  "newServeCmd env = \<lparr>cc_use = ''serve'', cc_short = ''Start the HTTP API gateway'',
     cc_long = ''Start an HTTP server that exposes the TeamX admin RPCs via ConnectRPC'' @ line_break @
       ''(JSON over HTTP) and broadcasts terminal state changes over WebSocket.'' @ line_break @ line_break @
       ''The gateway proxies requests to the gRPC backend (--server flag).'',
     cc_args = AnyArgs,
     cc_flags = [\<lparr>fg_name = ''http-port'', fg_default = FlagInt 8080, fg_usage = ''HTTP listen port''\<rparr>,
       \<lparr>fg_name = ''cors-origin'', fg_default = FlagString ''*'', fg_usage = ''CORS Access-Control-Allow-Origin''\<rparr>,
       \<lparr>fg_name = ''poll-interval'', fg_default = FlagInt 5,
         fg_usage = ''WebSocket state poll interval (seconds)''\<rparr>],
     cc_run = (\<lambda>ctx vs args s.
       let cfg = \<lparr>gc_grpc_addr = cx_server ctx, gc_poll_interval = poll_interval (get_int (vs ''poll-interval''))\<rparr> in
       case fst (serveCmd (ae_new_client env) cfg (ae_baseline env) (ae_hub_events env) (ae_listen env)) of
         ServePanics \<Rightarrow> (RunPanics, ae_served env s)
       | ServeReturned err \<Rightarrow>
           (RunReturned (case err of Some e \<Rightarrow> Inl e | None \<Rightarrow> Inr []),
            if ae_new_client env (cx_server ctx) = None then ae_served env s else s))\<rparr>"

text \<open>The root silences cobra's own messages (\<open>SilenceUsage\<close>, \<open>SilenceErrors\<close>), so that \<open>main\<close> alone prints
  an error.\<close>

definition admin_root :: "'s admin_env \<Rightarrow> 's cobra_root" where
  "admin_root env = \<lparr>ro_use = ''admin'',
     ro_short = ''TeamX Admin CLI '' @ dash @ '' manage terminals from the command line'',
     ro_long = ''TeamX Admin CLI connects to a TeamX gRPC server and provides'' @ line_break @
       ''subcommands for querying and managing remote terminals.'' @ line_break @ line_break @
       ''All commands require a running TeamX server (default localhost:50051).'',
     ro_flags = [\<lparr>fg_name = ''server'', fg_default = FlagString ''localhost:50051'',
         fg_usage = ''TeamX gRPC server address''\<rparr>,
       \<lparr>fg_name = ''json'', fg_default = FlagBool False, fg_usage = ''Output in JSON format''\<rparr>],
     ro_commands = [newListCmd env, newShowCmd env, newHistoryCmd env, newKickCmd env, newBlockCmd env,
       newUnblockCmd env, newCmdCmd env, newCmdLogCmd env, newServeCmd env]\<rparr>"

section \<open>The process\<close>

text \<open>
  What cobra makes of a command line: an error (with the values that the flags have by then), a help
  text, or a run of a subcommand with the values of its flags and the root's, and its arguments.
\<close>

datatype 's cobra_outcome =
    CobraFails string flag_values
  | CobraPrints
  | CobraRuns "'s cobra_command" flag_values "string list"

type_synonym 's cobra = "'s cobra_root \<Rightarrow> string list \<Rightarrow> 's cobra_outcome"

text \<open>
  What cobra documents: it runs a subcommand of the root, only with arguments that its rule accepts;
  a flag's value has the flag's type, and is its default unless an argument names it.
\<close>

definition cobra_ok :: "'s cobra_root \<Rightarrow> string list \<Rightarrow> 's cobra_outcome \<Rightarrow> bool" where
  "cobra_ok r argv out \<longleftrightarrow> (case out of
      CobraFails e vs \<Rightarrow> well_typed (ro_flags r) vs
    | CobraPrints \<Rightarrow> True
    | CobraRuns c vs args \<Rightarrow> c \<in> set (ro_commands r) \<and> args_ok (cc_args c) args \<and>
        well_typed (ro_flags r @ cc_flags c) vs \<and>
        list_all (\<lambda>f. vs (fg_name f) = fg_default f \<or> list_ex (\<lambda>a. HasPrefix a (''--'' @ fg_name f)) argv)
          (ro_flags r @ cc_flags c))"

definition ctx_of :: "flag_values \<Rightarrow> cmdCtx" where
  "ctx_of vs = \<lparr>cx_server = get_string (vs ''server''), cx_json = get_bool (vs ''json'')\<rparr>"

text \<open>The end of the process: its exit code and what it printed (help texts are left out).\<close>

datatype process_end = Exit int "piece list" | Panic

definition admin_process :: "'s admin_env \<Rightarrow> 's cobra \<Rightarrow> string list \<Rightarrow> 's \<Rightarrow> process_end \<times> 's" where
  "admin_process env cobra argv s = (case cobra (admin_root env) argv of
      CobraFails e vs \<Rightarrow> (case admin_main (Inl e) (cx_json (ctx_of vs)) of (n, out) \<Rightarrow> (Exit n out, s))
    | CobraPrints \<Rightarrow> (Exit 0 [], s)
    | CobraRuns c vs args \<Rightarrow> (case cc_run c (ctx_of vs) vs args s of
        (RunPanics, s') \<Rightarrow> (Panic, s')
      | (RunReturned r, s') \<Rightarrow>
          (case admin_main r (cx_json (ctx_of vs)) of (n, out) \<Rightarrow> (Exit n out, s'))))"

end
