(* ===== verification/AdminRun.thy ===== *)
theory AdminRun
  imports AdminMain Examples
begin

text \<open>
  The admin tool against the model of the server: the calls of its client are the server's
  handlers. The properties are that the process never panics on account of its command line, what its
  exit code means, and which subcommands can change anything at the server.
\<close>

section \<open>The server at the other end\<close>

text \<open>
  \<open>lost\<close> is the status that a caller gets when a handler panics, which ends the server. The clocks,
  the new command id and the order in which a block visits the sessions are arguments.
\<close>

definition or_lost :: "grpc_status \<Rightarrow> (grpc_status + 'a) option \<times> 's \<Rightarrow> (grpc_status + 'a) \<times> 's" where
  "or_lost lost r = (case r of (None, s) \<Rightarrow> (Inl lost, s) | (Some x, s) \<Rightarrow> (x, s))"

definition server_calls :: "grpc_status \<Rightarrow> string \<Rightarrow> nat \<Rightarrow> nat \<Rightarrow> string list \<Rightarrow> server admin_calls" where
  "server_calls lost uuid now unix ids = \<lparr>
     rc_list = server_ListTerminals,
     rc_get = (\<lambda>q s. or_lost lost (server_GetTerminal q s)),
     rc_history = (\<lambda>q s. or_lost lost (GetTerminalHistory q s)),
     rc_disconnect = (\<lambda>sid s. case DisconnectTerminal sid s of (r, s') \<Rightarrow> (Inr r, s')),
     rc_block = (\<lambda>device. BlockTerminal device ids),
     rc_unblock = server_UnblockTerminal,
     rc_send = SendCommand uuid now unix,
     rc_log = (\<lambda>q s. or_lost lost (server_GetCommandLog q s))\<rparr>"

text \<open>A change of the server that is invisible: only the verdicts of its statements are used up.\<close>

definition reads_only :: "(server \<Rightarrow> 'a \<times> server) \<Rightarrow> bool" where
  "reads_only f \<longleftrightarrow> (\<forall>s. \<exists>d. snd (f s) = s\<lparr>sv_db := d\<rparr> \<and> same_tables (sv_db s) d)"

lemma reads_onlyI:
  "(\<And>s. \<exists>d. snd (f s) = s\<lparr>sv_db := d\<rparr> \<and> same_tables (sv_db s) d) \<Longrightarrow> reads_only f"
  by (simp add: reads_only_def)

lemma same_server: "\<exists>d. s = s\<lparr>sv_db := d\<rparr> \<and> same_tables (sv_db s) d"
  by (rule exI [of _ "sv_db s"]) simp

lemma on_db_reads:
  assumes "\<And>d r d'. f d = (r, d') \<Longrightarrow> same_tables d d'"
  shows "reads_only (on_db f)"
  using assms by (intro reads_onlyI) (auto simp: on_db_def split: prod.split)

lemma reads_onlyD:
  "reads_only f \<Longrightarrow> f s = (r, s') \<Longrightarrow> \<exists>d. s' = s\<lparr>sv_db := d\<rparr> \<and> same_tables (sv_db s) d"
  unfolding reads_only_def by (metis snd_conv)

lemma reads_only_bind:
  assumes "reads_only f" "\<And>a. reads_only (k a)"
  shows "reads_only (\<lambda>s. case f s of (a, s') \<Rightarrow> k a s')"
proof (rule reads_onlyI)
  fix s
  obtain a s1 where 1: "f s = (a, s1)" by fastforce
  obtain r s2 where 2: "k a s1 = (r, s2)" by fastforce
  obtain d where d: "s1 = s\<lparr>sv_db := d\<rparr>" "same_tables (sv_db s) d"
    using reads_onlyD [OF assms(1) 1] by blast
  obtain d' where d': "s2 = s1\<lparr>sv_db := d'\<rparr>" "same_tables (sv_db s1) d'"
    using reads_onlyD [OF assms(2) 2] by blast
  have "s2 = s\<lparr>sv_db := d'\<rparr>" "same_tables (sv_db s) d'"
    using d d' by (simp_all add: same_tables_trans [of "sv_db s" d d'])
  then show "\<exists>d. snd (case f s of (a, s') \<Rightarrow> k a s') = s\<lparr>sv_db := d\<rparr> \<and> same_tables (sv_db s) d"
    using 1 2 by auto
qed

lemma reads_only_return: "reads_only (Pair a)"
  by (rule reads_onlyI) (simp add: same_server)

lemma reads_only_map:
  assumes "reads_only f" "\<And>s. snd (g s) = snd (f s)"
  shows "reads_only g"
  using assms by (simp add: reads_only_def)

lemma reads_only_values:
  assumes "\<And>a s. snd (g a s) = s"
  shows "reads_only (g a)"
  using assms by (simp add: reads_only_def same_server)

lemma handlers_read:
  "reads_only (server_ListTerminals q)"
  "reads_only (server_GetTerminal q2)"
  "reads_only (GetTerminalHistory q3)"
  "reads_only (server_GetCommandLog q4)"
proof -
  show "reads_only (server_ListTerminals q)"
    unfolding server_ListTerminals_def [abs_def] Let_def
    by (rule reads_only_bind [OF on_db_reads [OF ListTerminals_same] reads_only_values])
      (auto split: sum.split)
  show "reads_only (GetTerminalHistory q3)"
    unfolding GetTerminalHistory_def [abs_def] Let_def
    by (rule reads_only_bind [OF on_db_reads [OF ListHardwareReports_same] reads_only_values])
      (auto split: sum.split option.split)
  show "reads_only (server_GetCommandLog q4)"
    unfolding server_GetCommandLog_def [abs_def] Let_def
    by (rule reads_only_bind [OF on_db_reads [OF GetCommandLog_same] reads_only_values])
      (auto split: sum.split option.split)
  have 1: "reads_only (on_db (if c then GetTerminalByDevice v else GetTerminal k))" for c v k
    by (rule on_db_reads) (auto split: if_splits dest: GetTerminalByDevice_same GetTerminal_same)
  have 2: "reads_only (\<lambda>s. case on_db (GetLatestHardware v) s of (a, s') \<Rightarrow> g a s')"
    if "\<And>a s. snd (g a s) = s"
    for v and g :: "(store_error + hardware_info option) option \<Rightarrow> server \<Rightarrow>
        (grpc_status + get_terminal_response) option \<times> server"
    by (rule reads_only_bind [OF on_db_reads [OF GetLatestHardware_same] reads_only_values [OF that]])
  show "reads_only (server_GetTerminal q2)"
    unfolding server_GetTerminal_def [abs_def]
  proof (rule reads_only_bind [OF 1])
    fix a
    show "reads_only (\<lambda>s1. case a of
          Inl ErrNoRows \<Rightarrow> (Some (Inl \<lparr>st_code = NotFound, st_message = ''terminal not found''\<rparr>), s1)
        | Inl e \<Rightarrow> (Some (Inl (internal_error ''get terminal failed'' e)), s1)
        | Inr t \<Rightarrow> (case on_db (GetLatestHardware (tm_device t)) s1 of
            (None, s2) \<Rightarrow> (None, s2)
          | (Some hw, s2) \<Rightarrow> (Some (Inr \<lparr>gr_summary = terminal_summary_of t,
              gr_latest_hardware = (case hw of Inl _ \<Rightarrow> None | Inr h \<Rightarrow> h)\<rparr>), s2)))"
    proof (cases a)
      case (Inl e)
      then show ?thesis by (cases e) (simp_all add: reads_only_def same_server)
    next
      case (Inr t)
      then show ?thesis by (simp, intro 2) (simp split: option.split)
    qed
  qed
qed

lemma or_lost_reads: "reads_only f \<Longrightarrow> reads_only (\<lambda>s. or_lost lost (f s))"
  by (erule reads_only_map) (auto simp: or_lost_def split: prod.split option.split)

lemma as_text_reads: "reads_only (f q) \<Longrightarrow> reads_only (as_text tx f q)"
  by (erule reads_only_map) (auto simp: as_text_def split: prod.split sum.split)

lemma run_rpc_reads: "(\<And>q. reads_only (f q)) \<Longrightarrow> reads_only (run_rpc d req f pr)"
  unfolding run_rpc_def
  by (rule reads_onlyI, auto split: option.split sum.split prod.split simp: same_server)
    (metis reads_onlyD)+

lemma with_first_reads: "(\<And>a. reads_only (body a)) \<Longrightarrow> reads_only (with_first d args body)"
  unfolding with_first_def
  by (rule reads_onlyI, auto split: option.split list.split prod.split simp: same_server)
    (metis reads_onlyD)

section \<open>Subcommands\<close>

lemma with_first_runs: "args \<noteq> [] \<Longrightarrow> fst (with_first d args body s) \<noteq> RunPanics"
  by (auto simp: with_first_def split: option.split list.split prod.split)

lemma broadcast_loop_stopped: "hu_stopped (snd (broadcast_loop ok ev cs g)) = hu_stopped g"
  by (induction cs arbitrary: g) (simp_all add: case_prod_beta)

lemma hub_step_stopped: "hu_stopped (snd (hub_step e h)) = hu_stopped h"
  by (cases e) (simp_all add: serveWS_open_def serveWS_done_def poll_def broadcast_def Let_def
      broadcast_loop_stopped split: option.split)

lemma hub_run_stopped: "hu_stopped (snd (hub_run es h)) = hu_stopped h"
  by (induction es arbitrary: h) (simp_all add: case_prod_beta hub_step_stopped)

lemma serve_panics:
  assumes "0 < sint (gc_poll_interval cfg)"
  shows "fst (serveCmd nc cfg baseline es listen) \<noteq> ServePanics"
proof -
  let ?h = "snd (poll False [] [] (\<lambda>_ _. True) [] baseline newWSHub)"
  have "\<not> hu_stopped ?h" by (simp add: poll_def newWSHub_def split: option.split)
  then have "\<not> hu_stopped (snd (hub_run es ?h))" using hub_run_stopped [of es ?h] by simp
  then show ?thesis using assms
    by (simp add: serveCmd_def NewGateway_def pollLoop_def Close_def hub_stop_def case_prod_beta split: option.split)
qed

lemmas command_defs = newListCmd_def newShowCmd_def newHistoryCmd_def newKickCmd_def newBlockCmd_def
  newUnblockCmd_def newCmdCmd_def newCmdLogCmd_def newServeCmd_def

lemma root_commands: "ro_commands (admin_root env) = [newListCmd env, newShowCmd env, newHistoryCmd env,
    newKickCmd env, newBlockCmd env, newUnblockCmd env, newCmdCmd env, newCmdLogCmd env, newServeCmd env]"
  by (simp add: admin_root_def)

lemma one_argument: "length args = Suc 0 \<Longrightarrow> fst (with_first d args body s) \<noteq> RunPanics"
  by (rule with_first_runs) auto

lemma commands_run:
  "fst (cc_run (newListCmd env) ctx vs args s) \<noteq> RunPanics"
  "args_ok (cc_args (newShowCmd env)) args \<Longrightarrow> fst (cc_run (newShowCmd env) ctx vs args s) \<noteq> RunPanics"
  "args_ok (cc_args (newHistoryCmd env)) args \<Longrightarrow> fst (cc_run (newHistoryCmd env) ctx vs args s) \<noteq> RunPanics"
  "args_ok (cc_args (newKickCmd env)) args \<Longrightarrow> fst (cc_run (newKickCmd env) ctx vs args s) \<noteq> RunPanics"
  "args_ok (cc_args (newBlockCmd env)) args \<Longrightarrow> fst (cc_run (newBlockCmd env) ctx vs args s) \<noteq> RunPanics"
  "args_ok (cc_args (newUnblockCmd env)) args \<Longrightarrow> fst (cc_run (newUnblockCmd env) ctx vs args s) \<noteq> RunPanics"
  "args_ok (cc_args (newCmdLogCmd env)) args \<Longrightarrow> fst (cc_run (newCmdLogCmd env) ctx vs args s) \<noteq> RunPanics"
  by (simp_all add: command_defs one_argument split: prod.split)

lemma cmd_runs:
  assumes "args_ok (cc_args (newCmdCmd env)) args"
  shows "fst (cc_run (newCmdCmd env) ctx vs args s) \<noteq> RunPanics"
proof -
  obtain a t rest where "args = a # t # rest"
    using assms by (cases args; cases "tl args") (auto simp: newCmdCmd_def)
  then show ?thesis by (simp add: newCmdCmd_def split: option.split prod.split)
qed

lemma run_panics:
  assumes "c \<in> set (ro_commands (admin_root env))" "args_ok (cc_args c) args"
    and "fst (cc_run c ctx vs args s) = RunPanics"
  shows "c = newServeCmd env \<and> sint (poll_interval (get_int (vs ''poll-interval''))) \<le> 0"
proof -
  have c: "c = newServeCmd env"
    using assms unfolding root_commands list.set insert_iff empty_iff
    by (elim disjE) (simp_all add: commands_run cmd_runs)
  let ?cfg = "\<lparr>gc_grpc_addr = cx_server ctx, gc_poll_interval = poll_interval (get_int (vs ''poll-interval''))\<rparr>"
  have "fst (serveCmd (ae_new_client env) ?cfg (ae_baseline env) (ae_hub_events env) (ae_listen env)) = ServePanics"
    using assms(3) by (simp add: c newServeCmd_def Let_def split: serve_end.splits)
  then show ?thesis using c serve_panics [of ?cfg] by (metis gateway_config.select_convs(2) not_le)
qed

lemma run_reads:
  assumes "c \<in> {newListCmd env, newShowCmd env, newHistoryCmd env, newCmdLogCmd env}"
    and "ae_calls env = server_calls lost uuid now unix ids"
  shows "reads_only (cc_run c ctx vs args)"
proof -
  have l: "reads_only (as_text tx (rc_list (ae_calls env)) q)"
    "reads_only (as_text tx (rc_get (ae_calls env)) q2)"
    "reads_only (as_text tx (rc_history (ae_calls env)) q3)"
    "reads_only (as_text tx (rc_log (ae_calls env)) q4)" for tx q q2 q3 q4
    by (simp_all add: assms(2) server_calls_def as_text_reads or_lost_reads handlers_read)
  note bodies = l [THEN run_rpc_reads]
  have "reads_only (listCmd d (as_text (ae_text env) (rc_list (ae_calls env))) j st p z)" for d j st p z
    by (simp add: listCmd_def bodies)
  then have "reads_only (cc_run (newListCmd env) ctx vs args)"
    by (simp add: newListCmd_def reads_only_def case_prod_beta)
  moreover have "reads_only (cc_run (newShowCmd env) ctx vs args)"
    "reads_only (cc_run (newHistoryCmd env) ctx vs args)"
    "reads_only (cc_run (newCmdLogCmd env) ctx vs args)"
    by (simp_all add: command_defs showCmd_def historyCmd_def cmdlogCmd_def with_first_reads bodies)
  ultimately show ?thesis using assms(1) by blast
qed

section \<open>The process\<close>

lemma admin_main_exits: "admin_main r j = (n, out) \<Longrightarrow> n = 0 \<or> n = 1 \<and> (\<exists>err json. out = printError err json)"
  by (auto simp: admin_main_def split: sum.splits)

text \<open>C35: The only command line on which the process of the admin tool panics is that of the serve
  subcommand with a poll interval that is not positive. Otherwise it ends with 0, or with 1
  and an error printed, and whatever fails on the way, the registry and the tables of the server are
  as before unless the subcommand is kick, block, unblock, cmd or serve.\<close>

theorem admin_process_safe:
  assumes "cobra_ok (admin_root env) argv (cobra (admin_root env) argv)"
    and "ae_calls env = server_calls lost uuid now unix ids"
    and "admin_process env cobra argv s = (e, s')"
  shows "(case e of
      Panic \<Rightarrow> \<exists>vs args. cobra (admin_root env) argv = CobraRuns (newServeCmd env) vs args \<and>
        sint (poll_interval (get_int (vs ''poll-interval''))) \<le> 0
    | Exit n out \<Rightarrow> n = 0 \<or> n = 1 \<and> (\<exists>err json. out = printError err json)) \<and>
    ((\<exists>d. s' = s\<lparr>sv_db := d\<rparr> \<and> same_tables (sv_db s) d) \<or>
     (\<exists>c \<in> {newKickCmd env, newBlockCmd env, newUnblockCmd env, newCmdCmd env, newServeCmd env}.
        \<exists>vs args. cobra (admin_root env) argv = CobraRuns c vs args))"
proof (cases "cobra (admin_root env) argv")
  case (CobraRuns c vs args)
  obtain r where r: "cc_run c (ctx_of vs) vs args s = (r, s')"
    using assms(3) CobraRuns by (simp add: admin_process_def split: prod.splits run_end.splits)
  have c: "c \<in> set (ro_commands (admin_root env))" "args_ok (cc_args c) args"
    using assms(1) CobraRuns by (simp_all add: cobra_ok_def)
  have "c = newServeCmd env \<and> sint (poll_interval (get_int (vs ''poll-interval''))) \<le> 0" if "r = RunPanics"
    using run_panics [OF c, of "ctx_of vs" vs s] r that by simp
  moreover have "\<exists>d. s' = s\<lparr>sv_db := d\<rparr> \<and> same_tables (sv_db s) d"
    if "c \<in> {newListCmd env, newShowCmd env, newHistoryCmd env, newCmdLogCmd env}"
    by (rule reads_onlyD [OF run_reads [OF that assms(2)] r])
  ultimately show ?thesis using assms(3) c(1) r CobraRuns
    by (cases r) (auto simp: admin_process_def root_commands split: prod.splits dest: admin_main_exits)
qed (use assms(3) in \<open>auto simp: admin_process_def same_server split: prod.splits dest: admin_main_exits\<close>)

text \<open>A small reader of command lines for the witnesses: the first argument is the name of a subcommand,
  the others are its arguments, and there are no flags.\<close>

definition plain_cobra :: "'s cobra" where
  "plain_cobra r argv = (let none = flag_values_of (ro_flags r) [] in case argv of
      [] \<Rightarrow> CobraPrints
    | w # args \<Rightarrow> (case find (\<lambda>c. HasPrefix (cc_use c @ '' '') (w @ '' '')) (ro_commands r) of
        None \<Rightarrow> CobraFails (''unknown command '' @ w) none
      | Some c \<Rightarrow> if args_ok (cc_args c) args
          then CobraRuns c (flag_values_of (ro_flags r @ cc_flags c) []) args
          else CobraFails ''wrong number of arguments'' none))"

definition demo_admin :: "server admin_env" where
  "demo_admin = \<lparr>ae_new_client = (\<lambda>_. None),
     ae_calls = server_calls \<lparr>st_code = Internal, st_message = ''transport is closing''\<rparr> ''c1'' 101 101 [''s1''],
     ae_text = st_message, ae_entries = sorted_entries, ae_baseline = None, ae_hub_events = [],
     ae_served = (\<lambda>s. s), ae_listen = None\<rparr>"

lemma plain_cobra_finds:
  "plain_cobra (admin_root env) [''kick'', a] =
     CobraRuns (newKickCmd env) (flag_values_of (ro_flags (admin_root env)) []) [a]"
  "plain_cobra (admin_root env) [''cmdlog'', a] = CobraRuns (newCmdLogCmd env)
     (flag_values_of (ro_flags (admin_root env) @ cc_flags (newCmdLogCmd env)) []) [a]"
  "plain_cobra (admin_root env) [''list''] = CobraRuns (newListCmd env)
     (flag_values_of (ro_flags (admin_root env) @ cc_flags (newListCmd env)) []) []"
  by (simp_all add: plain_cobra_def admin_root_def command_defs HasPrefix_def)

lemma plain_cobra_ok:
  "cobra_ok (admin_root env) [''kick'', a] (plain_cobra (admin_root env) [''kick'', a])"
  "cobra_ok (admin_root env) [''cmdlog'', a] (plain_cobra (admin_root env) [''cmdlog'', a])"
  "cobra_ok (admin_root env) [''list''] (plain_cobra (admin_root env) [''list''])"
  unfolding plain_cobra_finds cobra_ok_def cobra_outcome.case root_commands
  by (simp_all add: well_typed_def flag_values_of_def admin_root_def command_defs)

theorem admin_process_safe_witness:
  "\<exists>n out d. admin_process demo_admin plain_cobra [''cmdlog'', ''s1''] demo_open =
     (Exit n out, demo_open\<lparr>sv_db := d\<rparr>) \<and> n \<in> {0, 1} \<and> same_tables (sv_db demo_open) d"
proof -
  obtain e s' where r: "admin_process demo_admin plain_cobra [''cmdlog'', ''s1''] demo_open = (e, s')"
    by fastforce
  have c: "ae_calls demo_admin =
      server_calls \<lparr>st_code = Internal, st_message = ''transport is closing''\<rparr> ''c1'' 101 101 [''s1'']"
    by (simp add: demo_admin_def)
  have n: "newCmdLogCmd env \<noteq> newKickCmd env" "newCmdLogCmd env \<noteq> newBlockCmd env"
    "newCmdLogCmd env \<noteq> newUnblockCmd env" "newCmdLogCmd env \<noteq> newCmdCmd env"
    "newCmdLogCmd env \<noteq> newServeCmd env" for env :: "server admin_env"
    by (simp_all add: command_defs)
  from admin_process_safe [OF plain_cobra_ok(2) c r] n r show ?thesis
    by (cases e) (auto simp: plain_cobra_finds)
qed

lemma HasPrefix_append: "HasPrefix s (p @ q) \<Longrightarrow> HasPrefix s p"
  unfolding HasPrefix_def by (drule arg_cong [of _ _ "take (length p)"]) (simp add: min_def)

text \<open>Without flags \<open>list\<close> asks for the first 50 terminals, whatever their status.\<close>

theorem list_defaults:
  assumes "cobra_ok (admin_root env) argv (cobra (admin_root env) argv)"
    and "cobra (admin_root env) argv = CobraRuns (newListCmd env) vs args"
    and "\<forall>a \<in> set argv. \<not> HasPrefix a ''--''" "ae_new_client env ''localhost:50051'' = None"
  shows "admin_process env cobra argv s =
    (case rc_list (ae_calls env) \<lparr>lt_online_filter = None, lt_page_size = 50, lt_page = 1\<rparr> s of
       (Inl e, s') \<Rightarrow> (Exit 1 [ErrLine (''Error: '' @ ae_text env e)], s')
     | (Inr r, s') \<Rightarrow> (Exit 0 (printTerminalList (lr_terminals r) (lr_total_count r) False), s'))"
proof -
  have "\<not> HasPrefix a (''--'' @ n)" if "a \<in> set argv" for a n
    using assms(3) that HasPrefix_append [of a "''--''" n] by blast
  then have v: "list_all (\<lambda>f. vs (fg_name f) = fg_default f) (ro_flags (admin_root env) @ cc_flags (newListCmd env))"
    using assms(1,2) by (simp add: cobra_ok_def list_all_iff list_ex_iff)
  have "vs ''server'' = FlagString ''localhost:50051''" "vs ''json'' = FlagBool False"
    "vs ''status'' = FlagString []" "vs ''page'' = FlagInt32 1" "vs ''page-size'' = FlagInt32 50"
    using v by (simp_all add: admin_root_def newListCmd_def)
  then show ?thesis using assms(2,4)
    by (simp add: admin_process_def newListCmd_def listCmd_def run_rpc_def dial_def ctx_of_def list_request_def
        as_text_def admin_main_def printError_def split: prod.split sum.split)
qed

theorem list_defaults_witness:
  "admin_process demo_admin plain_cobra [''list''] demo_open =
    (case server_ListTerminals \<lparr>lt_online_filter = None, lt_page_size = 50, lt_page = 1\<rparr> demo_open of
       (Inl e, s') \<Rightarrow> (Exit 1 [ErrLine (''Error: '' @ st_message e)], s')
     | (Inr r, s') \<Rightarrow> (Exit 0 (printTerminalList (lr_terminals r) (lr_total_count r) False), s'))"
proof -
  have d: "ae_new_client demo_admin a = None" "rc_list (ae_calls demo_admin) = server_ListTerminals"
    "ae_text demo_admin = st_message" for a
    by (simp_all add: demo_admin_def server_calls_def)
  have "\<forall>a \<in> set [''list'']. \<not> HasPrefix a ''--''" by (simp add: HasPrefix_def)
  from list_defaults [of demo_admin "[''list'']" plain_cobra, OF plain_cobra_ok(3) plain_cobra_finds(3) this d(1)]
  show ?thesis by (simp only: d)
qed

end
