(* ===== verification/Network.thy ===== *)
theory Network
  imports ClientSpec Lifecycle Blocklist Admission
begin

text \<open>
  The agent connected to the server. The transport is gRPC, which belongs to neither: it carries
  messages in order and hands a status that a handler returns to the caller. The definitions of the
  first section say so and model no code of the repository; the lemmas compose the two programs:
  what the server does with the messages of a stream, a command's way through queue and consumer,
  and an agent that keeps asking a full server.
\<close>

section \<open>The transport\<close>

text \<open>The result of a call as the client sees it.\<close>

definition to_client :: "grpc_status + 'a \<Rightarrow> client_err + 'a" where
  "to_client r = (case r of Inl st \<Rightarrow> Inl (StatusError st) | Inr x \<Rightarrow> Inr x)"

text \<open>How the server's handler ends is what the agent's \<open>Recv\<close> returns.\<close>

definition stream_end :: "stream_error option \<Rightarrow> server_recv" where
  "stream_end r = (case r of
      None \<Rightarrow> GotEOF
    | Some (StatusErr st) \<Rightarrow> GotError (StatusError st)
    | Some (RecvErr e) \<Rightarrow> GotError (OtherError e))"

text \<open>The \<open>Register\<close> call of an agent that reaches a server in the state \<open>s\<close>.\<close>

definition register_at :: "server \<Rightarrow> string \<Rightarrow> nat \<Rightarrow> int \<Rightarrow> string \<Rightarrow> handshake_request \<Rightarrow>
  client_err + handshake_response" where
  "register_at s uuid now ns t req = to_client (fst (Register uuid now ns t req s))"

text \<open>A cycle of \<open>Run\<close> whose \<open>Register\<close> call is answered by a server in the state \<open>s\<close>.\<close>

definition attempts :: "cycle \<Rightarrow> server \<Rightarrow> bool" where
  "attempts cy s \<longleftrightarrow> cy_cancel cy = NoCancel \<and> cn_dial (cy_connect cy) = None \<and>
     (\<exists>uuid now ns t. cn_register (cy_connect cy) = register_at s uuid now ns t)"

text \<open>Nobody has asked the agent to stop.\<close>

definition still_running :: "client \<Rightarrow> bool" where
  "still_running c \<longleftrightarrow> \<not> cl_shutdown c \<and> \<not> cl_parent_done c"

lemma still_running_device [simp]: "still_running (with_device h c) = still_running c"
  by (simp add: still_running_def with_device_def)

lemma register_blocked:
  assumes "\<not> IsFull (sv_cm s)" "no_faults (sv_db s)" "device_blocked (hs_device_id req) (sv_db s)"
  shows "register_at s uuid now ns t req = Inr \<lparr>hr_ok = False, hr_session_id = [], hr_server_time = [],
    hr_message = ''device is blocked''\<rparr>"
  using assms by (simp add: register_at_def Register_def admit_works to_client_def split: prod.split)

section \<open>Messages of the agent at the server\<close>

lemma save_keeps:
  assumes "no_faults d" "db_wf d"
  shows "no_faults (snd (SaveHardwareReport now a w rep d))"
    "commands (snd (SaveHardwareReport now a w rep d)) = commands d"
proof -
  show "no_faults (snd (SaveHardwareReport now a w rep d))"
  proof (cases "\<exists>info. rr_type rep = RT_Hardware (Some info)")
    case True
    then obtain info where info: "rr_type rep = RT_Hardware (Some info)" by blast
    show ?thesis
    proof (cases "rr_report_id rep \<in> r_report ` set (reports d)")
      case True
      then have "SaveHardwareReport now a w rep d = (Inr (), d)"
        using assms(1) info by (simp add: SaveHardwareReport_def save_in_tx_def insert_report_def
            commit_def no_faults_def)
      then show ?thesis using assms(1) by simp
    next
      case False
      show ?thesis using assms(1)
        by (simp add: save_report_works [OF assms info False]) (simp add: no_faults_def add_report_def Let_def)
    qed
  qed (use assms in \<open>auto simp: SaveHardwareReport_def split: report_type.split option.split\<close>)
  obtain r d' where e: "SaveHardwareReport now a w rep d = (r, d')" by fastforce
  then show "commands (snd (SaveHardwareReport now a w rep d)) = commands d"
    by (cases rule: SaveHardwareReport_cases) (simp_all add: e same_tablesD(7))
qed

lemma statuses_commands: "commands d' = commands d \<Longrightarrow> statuses d' = statuses d"
  by (simp add: statuses_def)

text \<open>The messages of one stream, with the times at which the server handles them.\<close>

definition arrivals :: "nat \<Rightarrow> (nat \<times> int \<times> client_message) list \<Rightarrow> event list" where
  "arrivals st ms = map (\<lambda>(now, ns, m). EvRecv now ns True st (RecvMsg m)) ms"

text \<open>An open handler on a database that is sound and does not fail.\<close>

definition serving :: "nat \<Rightarrow> channel \<Rightarrow> server \<Rightarrow> bool" where
  "serving st ch s \<longleftrightarrow> no_faults (sv_db s) \<and> db_wf (sv_db s) \<and> map_of (sv_chans s) st = Some ch \<and>
     ch_result ch = None"

lemma heartbeat_keeps:
  assumes "no_faults (sv_db s)" "db_wf (sv_db s)"
  shows "no_faults (sv_db (handleHeartbeat now ns ok st sid s))"
    "db_wf (sv_db (handleHeartbeat now ns ok st sid s))"
    "commands (sv_db (handleHeartbeat now ns ok st sid s)) = commands (sv_db s)"
    "sv_chans (handleHeartbeat now ns ok st sid s) = sv_chans s"
    "sv_timers (handleHeartbeat now ns ok st sid s) = sv_timers s"
proof -
  have "UpdateHeartbeat now sid (sv_db s) = (Inr (), update_terminals (\<lambda>r. t_session r = sid)
      (\<lambda>r. r\<lparr>t_last_heartbeat := Some (nowUTC now), t_online := True\<rparr>) (sv_db s))"
    using assms(1) by (simp add: UpdateHeartbeat_def no_faults_def)
  then have db: "sv_db (handleHeartbeat now ns ok st sid s) = update_terminals (\<lambda>r. t_session r = sid)
      (\<lambda>r. r\<lparr>t_last_heartbeat := Some (nowUTC now), t_online := True\<rparr>) (sv_db s)"
    by (simp add: handleHeartbeat_def Let_def)
  show "no_faults (sv_db (handleHeartbeat now ns ok st sid s))"
    "db_wf (sv_db (handleHeartbeat now ns ok st sid s))"
    using assms by (simp_all add: db update_terminals_wf)
  show "commands (sv_db (handleHeartbeat now ns ok st sid s)) = commands (sv_db s)"
    by (simp add: db update_terminals_def)
  show "sv_chans (handleHeartbeat now ns ok st sid s) = sv_chans s"
    "sv_timers (handleHeartbeat now ns ok st sid s) = sv_timers s"
    by (simp_all add: handleHeartbeat_def Let_def)
qed

lemma report_keeps:
  assumes "no_faults (sv_db s)" "db_wf (sv_db s)"
  shows "no_faults (sv_db (handleReport now sid v rep s))" "db_wf (sv_db (handleReport now sid v rep s))"
    "commands (sv_db (handleReport now sid v rep s)) = commands (sv_db s)"
    "sv_chans (handleReport now sid v rep s) = sv_chans s"
    "sv_timers (handleReport now sid v rep s) = sv_timers s"
  using assms save_keeps [OF assms]
  by (simp_all add: handleReport_def db_safe split: report_type.split)

lemma recv_statuses:
  assumes "serving st ch s"
  defines "t \<equiv> \<lambda>now ns ok m. Channel_recv now ns ok st (RecvMsg m) s"
  shows "serving st ch (t now ns ok m) \<and> sv_timers (t now ns ok m) = sv_timers s \<and>
    statuses (sv_db (t now ns ok m)) =
      (case cm_payload m of CP_CommandResult r \<Rightarrow> set_status (cr_id r) (cr_status r) (statuses (sv_db s))
       | _ \<Rightarrow> statuses (sv_db s))"
proof -
  have a: "no_faults (sv_db s)" "db_wf (sv_db s)" "map_of (sv_chans s) st = Some ch" "ch_result ch = None"
    using assms by (simp_all add: serving_def)
  show ?thesis
  proof (cases "cm_payload m")
    case (CP_Heartbeat hb)
    then have "t now ns ok m = handleHeartbeat now ns ok st (ch_session ch) s"
      using a by (simp add: t_def Channel_recv_def)
    then show ?thesis using a CP_Heartbeat heartbeat_keeps [OF a(1,2)]
        statuses_commands [OF heartbeat_keeps(3) [OF a(1,2)]]
      by (simp add: serving_def)
  next
    case (CP_ReportRequest rep)
    then have "t now ns ok m = (case Get (ch_session ch) (sv_cm s) of
        None \<Rightarrow> s | Some c \<Rightarrow> handleReport now (ch_session ch) (cc_device c) rep s)"
      using a by (simp add: t_def Channel_recv_def)
    then show ?thesis using a CP_ReportRequest report_keeps [OF a(1,2)]
        statuses_commands [OF report_keeps(3) [OF a(1,2)]]
      by (simp add: serving_def split: option.split)
  next
    case (CP_CommandResult res)
    have "t now ns ok m = handleCommandResult (ch_session ch) res s"
      unfolding t_def by (rule recv_result_eq [OF a(3,4) CP_CommandResult])
    then show ?thesis using a CP_CommandResult statuses_result [OF a(1,2)]
      by (simp add: serving_def)
  next
    case CP_Unset
    then have "t now ns ok m = s" using a by (simp add: t_def Channel_recv_def)
    then show ?thesis using assms(1) CP_Unset by simp
  qed
qed

text \<open>Delivering a stream's messages applies its results to the status map, in their order.\<close>

lemma arrivals_statuses:
  assumes "serving st ch s"
  shows "serving st ch (run_events (arrivals st ms) s) \<and>
    statuses (sv_db (run_events (arrivals st ms) s)) =
      fold (\<lambda>r. set_status (cr_id r) (cr_status r)) (results_of (map (snd \<circ> snd) ms)) (statuses (sv_db s)) \<and>
    sv_timers (run_events (arrivals st ms) s) = sv_timers s"
  using assms
proof (induction ms arbitrary: s)
  case Nil
  then show ?case by (simp add: arrivals_def results_of_def)
next
  case (Cons a ms)
  obtain now ns m where a: "a = (now, ns, m)" by (cases a)
  let ?t = "Channel_recv now ns True st (RecvMsg m) s"
  note one = recv_statuses [OF Cons.prems, of now ns True m]
  from Cons.IH [of ?t] one show ?case
    by (simp add: a arrivals_def results_of_def split: client_payload.split)
qed

section \<open>A command on its way to the agent\<close>

lemma send_exact:
  fixes now unix :: nat
  assumes "no_faults (sv_db s)" "db_wf (sv_db s)" "uuid \<notin> c_command ` set (commands (sv_db s))"
    and "sc_device_id req \<noteq> []" "sc_type req \<noteq> ct_unspecified"
    and "fst (GetTerminalByDevice (sc_device_id req) (sv_db s)) = Inr t"
    and "Get (tm_session t) (sv_cm s) = Some c" "cc_online c" "length (cc_queue c) < cmdQueueCapacity"
  obtains d where "snd (SendCommand uuid now unix req s) = s\<lparr>sv_db := d,
      sv_cm := upd_conn (tm_session t) (\<lambda>x. x\<lparr>cc_queue := cc_queue c @ [build_command uuid req unix]\<rparr>) (sv_cm s),
      sv_log := sv_log s @ [LogQueued (tm_session t) (build_command uuid req unix)]\<rparr>"
    "no_faults d" "db_wf d" "statuses d = (statuses (sv_db s))(uuid \<mapsto> ''Pending'')"
proof -
  let ?row = "\<lparr>c_command = uuid, c_session = tm_session t, c_type = cmdTypeName (sc_type req),
      c_params = marshalJSONMap (sc_params req), c_status = ''Pending'', c_exit = None, c_stdout = [],
      c_stderr = [], c_error = [], c_created = rfc3339 now, c_started = None, c_finished = None\<rparr>"
  let ?d = "(sv_db s)\<lparr>commands := commands (sv_db s) @ [?row]\<rparr>"
  have save: "SaveCommandLog now uuid (tm_session t) (sc_device_id req) (sc_type req) (sc_params req) (sv_db s) =
      (Inr (), ?d)"
    by (rule save_works [OF assms(1,3)])
  have "GetTerminalByDevice (sc_device_id req) (sv_db s) = (Inr t, sv_db s)"
    using by_device_read [OF assms(1), of "sc_device_id req"] assms(6) by simp
  then have "snd (SendCommand uuid now unix req s) = s\<lparr>sv_db := ?d,
      sv_cm := upd_conn (tm_session t) (\<lambda>x. x\<lparr>cc_queue := cc_queue c @ [build_command uuid req unix]\<rparr>) (sv_cm s),
      sv_log := sv_log s @ [LogQueued (tm_session t) (build_command uuid req unix)]\<rparr>"
    using assms(4,5,7-9) by (simp add: SendCommand_def on_db_eq save Let_def enqueue_def chan_send_def)
  moreover have "no_faults ?d" "db_wf ?d" using assms(1,2) SaveCommandLog_wf [OF save] by simp_all
  moreover have "statuses ?d = (statuses (sv_db s))(uuid \<mapsto> ''Pending'')"
    using statuses_append [of ?row "sv_db s"] assms(3) by simp
  ultimately show thesis by (rule that)
qed

text \<open>A round of the consumer on a session whose queue holds one command.\<close>

lemma consumer_round:
  assumes "no_faults (sv_db s)" "db_wf (sv_db s)"
    and "map_of (sv_chans s) st = Some \<lparr>ch_session = sid, ch_unmarked = None, ch_result = None\<rparr>"
    and "Get sid (sv_cm s) = Some c" "cc_queue c = [cmd]"
  defines "s' \<equiv> commandConsumer st True s"
  shows "serving st \<lparr>ch_session = sid, ch_unmarked = None, ch_result = None\<rparr> s'"
    "statuses (sv_db s') = set_status (cd_id cmd) ''Sent'' (statuses (sv_db s))"
    "sv_out s' = sv_out s @ [(st, command_message cmd)]"
    "cd_id cmd \<in> fst ` set (sv_timers s')"
proof -
  let ?s1 = "consumer_send st True s"
  have s1: "?s1 = set_channel st \<lparr>ch_session = sid, ch_unmarked = Some cmd, ch_result = None\<rparr>
      (s\<lparr>sv_cm := upd_conn sid (\<lambda>c. c\<lparr>cc_queue := []\<rparr>) (sv_cm s),
         sv_out := sv_out s @ [(st, command_message cmd)], sv_log := sv_log s @ [LogSent sid cmd]\<rparr>)"
    using assms(3-5) by (simp add: consumer_send_def chan_recv_def Let_def)
  have db1: "sv_db ?s1 = sv_db s" by (simp add: s1 set_channel_def)
  have ch1: "map_of (sv_chans ?s1) st = Some \<lparr>ch_session = sid, ch_unmarked = Some cmd, ch_result = None\<rparr>"
    by (simp add: s1 set_channel_def update_conv')
  have s': "s' = set_channel st \<lparr>ch_session = sid, ch_unmarked = None, ch_result = None\<rparr>
      ((set_command_status (cd_id cmd) ''Sent'' ?s1)
        \<lparr>sv_timers := sv_timers ?s1 @ [(cd_id cmd, timeout_ns (cd_timeout_sec cmd))]\<rparr>)"
    using ch1 by (simp add: s'_def commandConsumer_def consumer_mark_def Let_def)
  have db': "sv_db s' = sv_db (set_command_status (cd_id cmd) ''Sent'' ?s1)"
    by (simp add: s' set_channel_def)
  have ok: "no_faults (sv_db ?s1)" "db_wf (sv_db ?s1)" using assms(1,2) by (simp_all add: db1)
  show "statuses (sv_db s') = set_status (cd_id cmd) ''Sent'' (statuses (sv_db s))"
    using statuses_set_command_status(1) [OF ok] by (simp add: db' db1)
  show "serving st \<lparr>ch_session = sid, ch_unmarked = None, ch_result = None\<rparr> s'"
    using statuses_set_command_status(2,3) [OF ok]
    by (simp add: serving_def db') (simp add: s' set_channel_def update_conv')
  show "sv_out s' = sv_out s @ [(st, command_message cmd)]"
    by (simp add: s' s1 set_channel_def set_command_status_eq)
  show "cd_id cmd \<in> fst ` set (sv_timers s')"
    by (simp add: s' set_channel_def)
qed

section \<open>What dispatching appends to the stream\<close>

lemma send_payload_appends: "\<exists>ms. wr_sent (se_wire (snd (send_payload p s))) = wr_sent (se_wire s) @ ms"
  by (simp add: send_payload_def nextSeq_def Send_def split: option.split)

lemma sendCommandResult_appends:
  "\<exists>ms. wr_sent (se_wire (sendCommandResult k st x out err msg a b s)) = wr_sent (se_wire s) @ ms"
  by (simp add: sendCommandResult_def send_payload_appends)

definition appends :: "session \<Rightarrow> session \<Rightarrow> bool" where
  "appends s t \<longleftrightarrow> (\<exists>ms. wr_sent (se_wire t) = wr_sent (se_wire s) @ ms)"

lemma appends_trans: "appends s t \<Longrightarrow> appends t u \<Longrightarrow> appends s u"
  unfolding appends_def by force

lemma appends_result [simp]: "appends s (sendCommandResult k st x out err msg a b s)"
  by (simp add: appends_def sendCommandResult_appends)

lemma appends_client [simp]:
  "appends s (t\<lparr>se_client := c\<rparr>) = appends s t" "appends s (cancelSession t) = appends s t"
  "appends (s\<lparr>se_client := c\<rparr>) t = appends s t" "appends s s"
  by (simp_all add: appends_def cancelSession_def)

lemma appends_collect: "appends s (snd (handleCollectNow env cmd s))"
proof (cases "en_collect env")
  case (Inr h)
  show ?thesis
  proof (cases h)
    case (Some hw)
    let ?p = "CP_ReportRequest \<lparr>rr_report_id = en_uuid env, rr_type = RT_Hardware (Some hw)\<rparr>"
    obtain e s1 where s1: "send_payload ?p s = (e, s1)" by fastforce
    then have a: "appends s s1" using send_payload_appends [of ?p s] by (simp add: appends_def)
    have "appends s1 (sendCommandResult k st x out err msg a b (s1\<lparr>se_client := c\<rparr>))" for k st x out err msg a b c
      using appends_result [of "s1\<lparr>se_client := c\<rparr>"] by (simp del: appends_result)
    then show ?thesis using Inr Some s1 appends_trans [OF a]
      by (auto simp: handleCollectNow_def Let_def split: option.split)
  qed (simp add: handleCollectNow_def Inr)
qed (simp add: handleCollectNow_def)

lemma appends_handler: "appends s (snd (run_handler env cmd s))"
  by (auto simp: run_handler_def handleRunScript_def handleRestart_def handleShutdown_def Let_def
      appends_collect)

lemma dispatch_appends: "appends s (dispatchCommand env cmd s)"
proof -
  let ?s1 = "sendCommandResult (cd_id cmd) ''Executing'' 0 [] [] [] (en_clock env 0) 0 s"
  obtain v t where vt: "run_handler env cmd ?s1 = (v, t)" by fastforce
  then have "appends s t" using appends_handler [of ?s1 env cmd] by (auto intro: appends_trans [of s ?s1])
  then show ?thesis
    using vt by (auto simp: dispatchCommand_def intro: appends_trans split: option.split)
qed

section \<open>A full server\<close>

lemma full_failing:
  assumes "\<forall>cy \<in> set cys. \<exists>u. attempts cy u \<and> IsFull (sv_cm u)" "still_running c"
  shows "\<exists>d. failing cys c = Some d"
  using assms
proof (induction cys arbitrary: c)
  case (Cons cy cys)
  let ?d = "with_device (cn_host (cy_connect cy)) c"
  obtain u where u: "attempts cy u" "IsFull (sv_cm u)" using Cons.prems(1) by auto
  then have "connect (cy_connect cy) c =
      (Returned (Some (StatusError \<lparr>st_code = ResourceExhausted, st_message = ''server at capacity''\<rparr>)), ?d)"
    by (auto simp: attempts_def connect_def Let_def register_at_def Register_def admit_def to_client_def)
  moreover have "\<exists>d. failing cys ?d = Some d" by (rule Cons.IH) (use Cons.prems in simp_all)
  ultimately show ?case using Cons.prems(2) u(1)
    by (simp add: still_running_def attempts_def isFatal_def)
qed simp

end
