(* ===== verification/StoreOpen.thy ===== *)
theory StoreOpen
  imports Prelude
begin

text \<open>
  Opening the database (\<open>OpenSQLite\<close> of store.go, \<open>migrate\<close> of schema.go): the statements of the
  schema, what they do to a file that may hold tables already, and the three ways in which opening
  can fail. The columns that the statements of the store name are listed beside them, so that the
  schema and the statements can be compared.

  The contents of a row do not matter here: \<open>'r\<close> stands for it.
\<close>

section \<open>The schema\<close>

datatype sql_type = TEXT | INTEGER | REAL

datatype col_rule = Nullable | PrimaryKey | AutoKey | NotNull | NotNullUnique | Default string

type_synonym column = "string \<times> sql_type \<times> col_rule"

text \<open>A table with its columns, or an index on columns of a table.\<close>

datatype ddl = CreateTable string "column list" | CreateIndex string string "string list"

definition terminals_ddl :: "ddl list" where
  "terminals_ddl = [
    CreateTable ''terminals'' [
      (''session_id'', TEXT, PrimaryKey), (''device_id'', TEXT, Default ''''),
      (''hostname'', TEXT, NotNull), (''os'', TEXT, NotNull), (''os_version'', TEXT, Default ''''),
      (''kernel_version'', TEXT, Default ''''), (''client_version'', TEXT, Default ''''),
      (''mac_addrs'', TEXT, Default ''[]''), (''ip_addrs'', TEXT, Default ''[]''),
      (''first_seen_at'', TEXT, NotNull), (''last_seen_at'', TEXT, NotNull),
      (''last_heartbeat'', TEXT, Nullable), (''online'', INTEGER, Default ''0''),
      (''blocked'', INTEGER, Default ''0'')],
    CreateIndex ''idx_terminals_device'' ''terminals'' [''device_id'']]"

definition hardware_ddl :: "ddl list" where
  "hardware_ddl = [
    CreateTable ''hardware_reports'' [
      (''id'', INTEGER, AutoKey), (''report_id'', TEXT, NotNullUnique), (''device_id'', TEXT, NotNull),
      (''session_id'', TEXT, Default ''''), (''created_at'', TEXT, NotNull),
      (''cpu_model'', TEXT, Default ''''), (''cpu_cores'', INTEGER, Default ''0''),
      (''cpu_threads'', INTEGER, Default ''0''), (''cpu_arch'', TEXT, Default ''''),
      (''mem_total_bytes'', INTEGER, Default ''0''), (''mem_avail_bytes'', INTEGER, Default ''0''),
      (''mem_used_bytes'', INTEGER, Default ''0'')],
    CreateIndex ''idx_hw_reports_device'' ''hardware_reports'' [''device_id'', ''created_at''],
    CreateTable ''hardware_disks'' [
      (''id'', INTEGER, AutoKey), (''report_id'', TEXT, NotNull), (''device'', TEXT, Default ''''),
      (''mount_point'', TEXT, Default ''''), (''fs_type'', TEXT, Default ''''),
      (''total_bytes'', INTEGER, Default ''0''), (''used_bytes'', INTEGER, Default ''0''),
      (''free_bytes'', INTEGER, Default ''0'')],
    CreateIndex ''idx_hw_disks_report'' ''hardware_disks'' [''report_id''],
    CreateTable ''hardware_nets'' [
      (''id'', INTEGER, AutoKey), (''report_id'', TEXT, NotNull), (''name'', TEXT, Default ''''),
      (''mac_addr'', TEXT, Default ''''), (''ip_addrs'', TEXT, Default ''[]''),
      (''is_loopback'', INTEGER, Default ''0'')],
    CreateIndex ''idx_hw_nets_report'' ''hardware_nets'' [''report_id''],
    CreateTable ''hardware_bios'' [
      (''id'', INTEGER, AutoKey), (''report_id'', TEXT, NotNullUnique), (''vendor'', TEXT, Default ''''),
      (''version'', TEXT, Default ''''), (''release_date'', TEXT, Default '''')],
    CreateTable ''hardware_motherboard'' [
      (''id'', INTEGER, AutoKey), (''report_id'', TEXT, NotNullUnique),
      (''manufacturer'', TEXT, Default ''''), (''product'', TEXT, Default ''''),
      (''serial'', TEXT, Default '''')]]"

definition phase6_ddl :: "ddl list" where
  "phase6_ddl = [
    CreateTable ''software_items'' [
      (''id'', INTEGER, AutoKey), (''report_id'', TEXT, NotNull), (''session_id'', TEXT, NotNull),
      (''name'', TEXT, Default ''''), (''version'', TEXT, Default ''''), (''publisher'', TEXT, Default ''''),
      (''install_date'', TEXT, Default ''''), (''created_at'', TEXT, NotNull)],
    CreateIndex ''idx_sw_items_session'' ''software_items'' [''session_id'', ''name''],
    CreateTable ''user_accounts'' [
      (''id'', INTEGER, AutoKey), (''report_id'', TEXT, NotNull), (''session_id'', TEXT, NotNull),
      (''username'', TEXT, Default ''''), (''uid'', TEXT, Default ''''), (''group_name'', TEXT, Default ''''),
      (''home_dir'', TEXT, Default ''''), (''shell'', TEXT, Default ''''),
      (''is_admin'', INTEGER, Default ''0''), (''is_disabled'', INTEGER, Default ''0''),
      (''created_at'', TEXT, NotNull)],
    CreateTable ''process_items'' [
      (''id'', INTEGER, AutoKey), (''report_id'', TEXT, NotNull), (''session_id'', TEXT, NotNull),
      (''pid'', INTEGER, Default ''0''), (''ppid'', INTEGER, Default ''0''), (''name'', TEXT, Default ''''),
      (''username'', TEXT, Default ''''), (''cpu_percent'', REAL, Default ''0.0''),
      (''mem_bytes'', INTEGER, Default ''0''), (''status'', TEXT, Default ''''),
      (''cmdline'', TEXT, Default ''''), (''created_at'', TEXT, NotNull)],
    CreateTable ''peripheral_devices'' [
      (''id'', INTEGER, AutoKey), (''report_id'', TEXT, NotNull), (''session_id'', TEXT, NotNull),
      (''device_type'', TEXT, Default ''''), (''name'', TEXT, Default ''''),
      (''vendor_id'', TEXT, Default ''''), (''product_id'', TEXT, Default ''''),
      (''serial'', TEXT, Default ''''), (''extra'', TEXT, Default ''{}''), (''created_at'', TEXT, NotNull)]]"

definition command_ddl :: "ddl list" where
  "command_ddl = [
    CreateTable ''command_logs'' [
      (''id'', INTEGER, AutoKey), (''command_id'', TEXT, NotNullUnique), (''session_id'', TEXT, NotNull),
      (''type'', TEXT, Default ''''), (''params'', TEXT, Default ''{}''), (''status'', TEXT, Default ''Pending''),
      (''exit_code'', INTEGER, Nullable), (''stdout'', TEXT, Default ''''), (''stderr'', TEXT, Default ''''),
      (''error_message'', TEXT, Default ''''), (''created_at'', TEXT, NotNull),
      (''started_at'', TEXT, Nullable), (''finished_at'', TEXT, Nullable)],
    CreateIndex ''idx_cmd_logs_session'' ''command_logs'' [''session_id'', ''created_at'']]"

definition schema_ddl :: "ddl list" where
  "schema_ddl = terminals_ddl @ hardware_ddl @ phase6_ddl @ command_ddl"

section \<open>A database file\<close>

record 'r sql_file =
  sf_tables :: "(string \<times> column list \<times> 'r list) list"
  sf_indexes :: "string list"

definition empty_file :: "'r sql_file" where
  "empty_file = \<lparr>sf_tables = [], sf_indexes = []\<rparr>"

text \<open>
  With IF NOT EXISTS, a table or an index that is there already is left as it is, whatever its
  columns are. An index needs its table and columns.
\<close>

fun exec_ddl :: "ddl \<Rightarrow> 'r sql_file \<Rightarrow> string + 'r sql_file" where
  "exec_ddl (CreateTable n cols) f =
     (if map_of (sf_tables f) n \<noteq> None then Inr f
      else Inr (f\<lparr>sf_tables := sf_tables f @ [(n, cols, [])]\<rparr>))"
| "exec_ddl (CreateIndex i n cols) f =
     (if i \<in> set (sf_indexes f) then Inr f
      else case map_of (sf_tables f) n of
        None \<Rightarrow> Inl (''no such table: '' @ n)
      | Some (tc, _) \<Rightarrow> if set cols \<subseteq> fst ` set tc
          then Inr (f\<lparr>sf_indexes := sf_indexes f @ [i]\<rparr>)
          else Inl ''no such column'')"

text \<open>The loop of \<open>migrate\<close>; \<open>fault k\<close> is the error with which the engine fails statement \<open>k\<close>.\<close>

fun exec_all :: "(nat \<Rightarrow> string option) \<Rightarrow> nat \<Rightarrow> ddl list \<Rightarrow> 'r sql_file \<Rightarrow> string option \<times> 'r sql_file"
where
  "exec_all fault k [] f = (None, f)"
| "exec_all fault k (s # ss) f = (case fault k of
      Some e \<Rightarrow> (Some e, f)
    | None \<Rightarrow> (case exec_ddl s f of
        Inl e \<Rightarrow> (Some e, f)
      | Inr f' \<Rightarrow> exec_all fault (k + 1) ss f'))"

definition migrate :: "(nat \<Rightarrow> string option) \<Rightarrow> 'r sql_file \<Rightarrow> string option \<times> 'r sql_file" where
  "migrate fault f = exec_all fault 0 schema_ddl f"

definition dsn_of :: "string \<Rightarrow> string" where
  "dsn_of path = path @ ''?_journal_mode=WAL&_synchronous=NORMAL&_busy_timeout=5000''"

text \<open>
  \<open>sql_open\<close> is what \<open>sql.Open\<close> makes of a connection string, \<open>ping\<close> the error of \<open>Ping\<close>. The result is the
  error of the call and the file it leaves.
\<close>

definition OpenSQLite ::
  "(string \<Rightarrow> string + 'r sql_file) \<Rightarrow> string option \<Rightarrow> (nat \<Rightarrow> string option) \<Rightarrow> string \<Rightarrow>
   string option \<times> 'r sql_file option" where
  "OpenSQLite sql_open ping fault path = (case sql_open (dsn_of path) of
      Inl e \<Rightarrow> (Some (''store: open: '' @ e), None)
    | Inr f \<Rightarrow> (case ping of
        Some e \<Rightarrow> (Some (''store: ping: '' @ e), Some f)
      | None \<Rightarrow> (case migrate fault f of
          (Some e, f') \<Rightarrow> (Some (''store: migrate: '' @ e), Some f')
        | (None, f') \<Rightarrow> (None, Some f'))))"

section \<open>The statements of the store\<close>

text \<open>
  The table of a statement and the columns that it names: those an INSERT fills, those an UPDATE sets or
  compares, those a SELECT reads, compares or orders by.
\<close>

type_synonym statement = "string \<times> string list"

definition sql_upsert_insert :: statement where
  "sql_upsert_insert = (''terminals'', [''session_id'', ''device_id'', ''hostname'', ''os'',
     ''os_version'', ''kernel_version'', ''client_version'', ''mac_addrs'', ''ip_addrs'',
     ''first_seen_at'', ''last_seen_at''])"

definition sql_report_insert :: statement where
  "sql_report_insert = (''hardware_reports'', [''report_id'', ''device_id'', ''session_id'',
     ''created_at'', ''cpu_model'', ''cpu_cores'', ''cpu_threads'', ''cpu_arch'',
     ''mem_total_bytes'', ''mem_avail_bytes'', ''mem_used_bytes''])"

definition sql_disk_insert :: statement where
  "sql_disk_insert = (''hardware_disks'', [''report_id'', ''device'', ''mount_point'',
     ''fs_type'', ''total_bytes'', ''used_bytes'', ''free_bytes''])"

definition sql_net_insert :: statement where
  "sql_net_insert = (''hardware_nets'', [''report_id'', ''name'', ''mac_addr'', ''ip_addrs'',
     ''is_loopback''])"

definition sql_bios_insert :: statement where
  "sql_bios_insert = (''hardware_bios'', [''report_id'', ''vendor'', ''version'',
     ''release_date''])"

definition sql_board_insert :: statement where
  "sql_board_insert = (''hardware_motherboard'', [''report_id'', ''manufacturer'', ''product'',
     ''serial''])"

definition sql_log_insert :: statement where
  "sql_log_insert = (''command_logs'', [''command_id'', ''session_id'', ''type'', ''params'',
     ''status'', ''created_at''])"

definition insert_columns :: "statement list" where
  "insert_columns = [sql_upsert_insert, sql_report_insert, sql_disk_insert, sql_net_insert,
     sql_bios_insert, sql_board_insert, sql_log_insert]"

definition sql_upsert_update :: statement where
  "sql_upsert_update = (''terminals'', [''device_id'', ''hostname'', ''os'', ''os_version'',
     ''kernel_version'', ''client_version'', ''mac_addrs'', ''ip_addrs'', ''last_seen_at'',
     ''session_id''])"

definition sql_heartbeat :: statement where
  "sql_heartbeat = (''terminals'', [''last_heartbeat'', ''online'', ''session_id''])"

definition sql_offline :: statement where
  "sql_offline = (''terminals'', [''online'', ''session_id''])"

definition sql_block :: statement where
  "sql_block = (''terminals'', [''blocked'', ''device_id''])"

definition sql_unblock :: statement where
  "sql_unblock = (''terminals'', [''blocked'', ''device_id''])"

definition sql_log_result :: statement where
  "sql_log_result = (''command_logs'', [''status'', ''exit_code'', ''stdout'', ''stderr'',
     ''error_message'', ''started_at'', ''finished_at'', ''command_id''])"

definition sql_log_status :: statement where
  "sql_log_status = (''command_logs'', [''status'', ''command_id''])"

definition sql_log_timeout :: statement where
  "sql_log_timeout = (''command_logs'', [''status'', ''error_message'', ''finished_at'',
     ''command_id''])"

definition update_columns :: "statement list" where
  "update_columns = [sql_upsert_update, sql_heartbeat, sql_offline, sql_block, sql_unblock,
     sql_log_result, sql_log_status, sql_log_timeout]"

definition sql_by_session :: statement where
  "sql_by_session = (''terminals'', [''session_id'', ''device_id'', ''hostname'', ''os'',
     ''os_version'', ''kernel_version'', ''client_version'', ''online'', ''blocked'',
     ''last_heartbeat'', ''last_seen_at'', ''first_seen_at''])"

definition sql_by_device :: statement where
  "sql_by_device = (''terminals'', [''session_id'', ''device_id'', ''hostname'', ''os'',
     ''os_version'', ''kernel_version'', ''client_version'', ''online'', ''blocked'',
     ''last_heartbeat'', ''last_seen_at'', ''first_seen_at''])"

definition sql_list :: statement where
  "sql_list = (''terminals'', [''session_id'', ''device_id'', ''hostname'', ''os'',
     ''os_version'', ''kernel_version'', ''client_version'', ''online'', ''blocked'',
     ''last_heartbeat'', ''last_seen_at'', ''first_seen_at''])"

definition sql_is_blocked :: statement where
  "sql_is_blocked = (''terminals'', [''device_id'', ''blocked''])"

definition sql_latest :: statement where
  "sql_latest = (''hardware_reports'', [''report_id'', ''cpu_model'', ''cpu_cores'',
     ''cpu_threads'', ''cpu_arch'', ''mem_total_bytes'', ''mem_avail_bytes'',
     ''mem_used_bytes'', ''device_id'', ''created_at''])"

definition sql_history :: statement where
  "sql_history = (''hardware_reports'', [''report_id'', ''created_at'', ''cpu_model'',
     ''cpu_cores'', ''cpu_threads'', ''cpu_arch'', ''mem_total_bytes'', ''mem_avail_bytes'',
     ''mem_used_bytes'', ''device_id''])"

definition sql_disks :: statement where
  "sql_disks = (''hardware_disks'', [''device'', ''mount_point'', ''fs_type'', ''total_bytes'',
     ''used_bytes'', ''free_bytes'', ''report_id''])"

definition sql_nets :: statement where
  "sql_nets = (''hardware_nets'', [''name'', ''mac_addr'', ''ip_addrs'', ''is_loopback'',
     ''report_id''])"

definition sql_bios :: statement where
  "sql_bios = (''hardware_bios'', [''vendor'', ''version'', ''release_date'', ''report_id''])"

definition sql_board :: statement where
  "sql_board = (''hardware_motherboard'', [''manufacturer'', ''product'', ''serial'',
     ''report_id''])"

definition sql_log :: statement where
  "sql_log = (''command_logs'', [''command_id'', ''session_id'', ''type'', ''params'',
     ''status'', ''exit_code'', ''stdout'', ''stderr'', ''error_message'', ''created_at'',
     ''started_at'', ''finished_at''])"

definition sql_log_device :: statement where
  "sql_log_device = (''terminals'', [''device_id'', ''session_id''])"

definition select_columns :: "statement list" where
  "select_columns = [sql_by_session, sql_by_device, sql_list, sql_is_blocked, sql_latest, sql_history,
     sql_disks, sql_nets, sql_bios, sql_board, sql_log, sql_log_device]"

lemmas statement_defs = sql_upsert_insert_def sql_report_insert_def sql_disk_insert_def sql_net_insert_def sql_bios_insert_def sql_board_insert_def sql_log_insert_def
  sql_upsert_update_def sql_heartbeat_def sql_offline_def sql_block_def sql_unblock_def
  sql_log_result_def sql_log_status_def sql_log_timeout_def
  sql_by_session_def sql_by_device_def sql_list_def sql_is_blocked_def sql_latest_def sql_history_def
  sql_disks_def sql_nets_def sql_bios_def sql_board_def sql_log_def sql_log_device_def

section \<open>What opening achieves\<close>

definition tables_of :: "ddl list \<Rightarrow> (string \<times> column list) list" where
  "tables_of ss = concat (map (\<lambda>s. case s of CreateTable n cols \<Rightarrow> [(n, cols)] | CreateIndex _ _ _ \<Rightarrow> []) ss)"

definition schema_tables :: "(string \<times> column list) list" where
  "schema_tables = tables_of schema_ddl"

text \<open>The tables of the schema that a file has already have the schema's columns.\<close>

definition agrees :: "(string \<times> column list) list \<Rightarrow> 'r sql_file \<Rightarrow> bool" where
  "agrees T f \<longleftrightarrow> (\<forall>n cols tc rows. map_of T n = Some cols \<longrightarrow> map_of (sf_tables f) n = Some (tc, rows) \<longrightarrow> tc = cols)"

text \<open>Existing tables keep their columns and rows, new ones are empty.\<close>

definition keeps :: "'r sql_file \<Rightarrow> 'r sql_file \<Rightarrow> bool" where
  "keeps f f' \<longleftrightarrow> (\<forall>n. case map_of (sf_tables f) n of
      Some t \<Rightarrow> map_of (sf_tables f') n = Some t
    | None \<Rightarrow> (case map_of (sf_tables f') n of None \<Rightarrow> True | Some (_, rows) \<Rightarrow> rows = []))"

lemma keeps_refl [simp]: "keeps f f"
  by (simp add: keeps_def split: option.split)

lemma keeps_trans:
  assumes "keeps f g" "keeps g h"
  shows "keeps f h"
  unfolding keeps_def
proof
  fix n
  show "case map_of (sf_tables f) n of
      Some t \<Rightarrow> map_of (sf_tables h) n = Some t
    | None \<Rightarrow> (case map_of (sf_tables h) n of None \<Rightarrow> True | Some (_, rows) \<Rightarrow> rows = [])"
    using assms [unfolded keeps_def, THEN spec, of n]
    by (cases "map_of (sf_tables f) n"; cases "map_of (sf_tables g) n") auto
qed

lemma keeps_Some: "keeps f f' \<Longrightarrow> map_of (sf_tables f) n = Some t \<Longrightarrow> map_of (sf_tables f') n = Some t"
  by (auto simp: keeps_def dest: spec [of _ n])

lemma exec_ddl_keeps: "exec_ddl s f = Inr f' \<Longrightarrow> keeps f f'"
proof (cases s)
  case (CreateTable n cols)
  then show "exec_ddl s f = Inr f' \<Longrightarrow> keeps f f'"
    by (auto simp: keeps_def map_add_def split: if_splits option.splits)
next
  case (CreateIndex i n cols)
  then show "exec_ddl s f = Inr f' \<Longrightarrow> keeps f f'"
    by (auto simp: keeps_def split: if_splits option.splits)
qed

lemma exec_all_keeps: "exec_all fault k ss f = (e, f') \<Longrightarrow> keeps f f'"
proof (induction ss arbitrary: k f)
  case (Cons s ss)
  then show ?case by (auto split: option.splits sum.splits dest!: exec_ddl_keeps elim: keeps_trans)
qed simp

text \<open>An index stands after its table; \<open>names\<close> are the tables created before.\<close>

fun well_ordered :: "(string \<times> column list) list \<Rightarrow> string list \<Rightarrow> ddl list \<Rightarrow> bool" where
  "well_ordered T names [] \<longleftrightarrow> True"
| "well_ordered T names (CreateTable n cols # ss) \<longleftrightarrow>
     map_of T n = Some cols \<and> well_ordered T (n # names) ss"
| "well_ordered T names (CreateIndex i n cols # ss) \<longleftrightarrow>
     n \<in> set names \<and> (case map_of T n of Some tc \<Rightarrow> set cols \<subseteq> fst ` set tc | None \<Rightarrow> False) \<and>
     well_ordered T names ss"

fun exists_in :: "'r sql_file \<Rightarrow> ddl \<Rightarrow> bool" where
  "exists_in f (CreateTable n cols) \<longleftrightarrow> map_of (sf_tables f) n \<noteq> None"
| "exists_in f (CreateIndex i n cols) \<longleftrightarrow> i \<in> set (sf_indexes f)"

lemma exec_ddl_grows:
  assumes "exec_ddl s f = Inr f'"
  shows "exists_in f' s" "exists_in f x \<longrightarrow> exists_in f' x"
proof -
  show "exists_in f' s" using assms by (cases s) (auto simp: map_add_def split: if_splits option.splits)
  show "exists_in f x \<longrightarrow> exists_in f' x"
    using assms by (cases s) (cases x; auto simp: map_add_def split: if_splits option.splits)+
qed

lemma exec_all_works:
  assumes "well_ordered T names ss" "\<forall>n \<in> set names. map_of (sf_tables f) n \<noteq> None" "agrees T f"
  shows "\<exists>f'. exec_all (\<lambda>_. None) k ss f = (None, f') \<and> agrees T f' \<and> (\<forall>s \<in> set ss. exists_in f' s) \<and>
    (\<forall>x. exists_in f x \<longrightarrow> exists_in f' x)"
  using assms
proof (induction ss arbitrary: k f names)
  case (Cons s ss)
  have "\<exists>g names'. exec_ddl s f = Inr g \<and> agrees T g \<and> (\<forall>n \<in> set names'. map_of (sf_tables g) n \<noteq> None) \<and>
      well_ordered T names' ss"
  proof (cases s)
    case (CreateTable n cols)
    let ?g = "f\<lparr>sf_tables := sf_tables f @ [(n, cols, [])]\<rparr>"
    have w: "map_of T n = Some cols" "well_ordered T (n # names) ss"
      using Cons.prems(1) CreateTable by simp_all
    show ?thesis
    proof (cases "map_of (sf_tables f) n")
      case None
      then have "agrees T ?g" using Cons.prems(3) w(1)
        by (auto simp: agrees_def map_add_def split: option.splits)
      then show ?thesis using Cons.prems(2) CreateTable w(2) None
        by (intro exI [of _ ?g] exI [of _ "n # names"]) (auto simp: map_add_def split: option.split)
    next
      case (Some t)
      then show ?thesis using Cons.prems(2,3) CreateTable w(2)
        by (intro exI [of _ f] exI [of _ "n # names"]) auto
    qed
  next
    case (CreateIndex i n cols)
    obtain tc where tc: "map_of T n = Some tc" "set cols \<subseteq> fst ` set tc" "n \<in> set names" "well_ordered T names ss"
      using Cons.prems(1) CreateIndex by (auto split: option.splits)
    moreover obtain c rows where "map_of (sf_tables f) n = Some (c, rows)"
      using tc(3) Cons.prems(2) by fastforce
    moreover from this have "c = tc" using Cons.prems(3) tc(1) by (simp add: agrees_def)
    moreover have "agrees T (f\<lparr>sf_indexes := is\<rparr>)" for "is" using Cons.prems(3) by (simp add: agrees_def)
    ultimately show ?thesis using Cons.prems(2,3) CreateIndex by (auto intro!: exI [of _ names])
  qed
  then obtain g names' where g: "exec_ddl s f = Inr g" "agrees T g" "\<forall>n \<in> set names'. map_of (sf_tables g) n \<noteq> None"
    "well_ordered T names' ss" by blast
  from Cons.IH [OF g(4,3,2), of "k + 1"] obtain h where "exec_all (\<lambda>_. None) (k + 1) ss g = (None, h)" "agrees T h"
    "\<forall>s \<in> set ss. exists_in h s" "\<forall>x. exists_in g x \<longrightarrow> exists_in h x" by blast
  then show ?case using g(1) exec_ddl_grows [OF g(1)] by auto
qed simp

lemma exec_all_again:
  "\<forall>s \<in> set ss. exists_in f s \<Longrightarrow> exec_all (\<lambda>_. None) k ss f = (None, f)"
proof (induction ss arbitrary: k)
  case (Cons s ss)
  then have "exec_ddl s f = Inr f" by (cases s) auto
  with Cons show ?case by simp
qed simp

section \<open>Statements against the schema\<close>

text \<open>A statement fits when its table has its columns; an INSERT also when it names every column that
  has neither a default nor may be null.\<close>

definition fits :: "(string \<times> column list) list \<Rightarrow> statement \<Rightarrow> bool" where
  "fits T = (\<lambda>(n, cols). case map_of T n of
      None \<Rightarrow> False | Some tc \<Rightarrow> list_all (\<lambda>c. c \<in> set (map fst tc)) cols)"

fun must_be_given :: "col_rule \<Rightarrow> bool" where
  "must_be_given Nullable \<longleftrightarrow> False"
| "must_be_given AutoKey \<longleftrightarrow> False"
| "must_be_given (Default _) \<longleftrightarrow> False"
| "must_be_given PrimaryKey \<longleftrightarrow> True"
| "must_be_given NotNull \<longleftrightarrow> True"
| "must_be_given NotNullUnique \<longleftrightarrow> True"

definition insert_fits :: "(string \<times> column list) list \<Rightarrow> statement \<Rightarrow> bool" where
  "insert_fits T s \<longleftrightarrow> fits T s \<and> (case map_of T (fst s) of
      None \<Rightarrow> False
    | Some tc \<Rightarrow> list_all (\<lambda>(c, _, r). must_be_given r \<longrightarrow> c \<in> set (snd s)) tc)"

definition columns_in :: "'r sql_file \<Rightarrow> (string \<times> column list) list" where
  "columns_in f = map (\<lambda>(n, cols, _). (n, cols)) (sf_tables f)"

lemma map_of_columns: "map_of (columns_in f) n = map_option fst (map_of (sf_tables f) n)"
proof -
  have "map_of (map (\<lambda>(n, cols, _). (n, cols)) ts) n = map_option fst (map_of ts n)"
    for ts :: "(string \<times> column list \<times> 'a list) list"
    by (induction ts) auto
  then show ?thesis by (simp add: columns_in_def)
qed

lemma schema_ordered: "well_ordered schema_tables [] schema_ddl"
  by (simp add: schema_tables_def tables_of_def schema_ddl_def terminals_ddl_def hardware_ddl_def
      phase6_ddl_def command_ddl_def)

lemma statements_fit_schema:
  "list_all (insert_fits schema_tables) insert_columns"
  "list_all (fits schema_tables) (update_columns @ select_columns)"
  by (simp_all add: schema_tables_def tables_of_def schema_ddl_def terminals_ddl_def hardware_ddl_def
      phase6_ddl_def command_ddl_def insert_columns_def update_columns_def select_columns_def statement_defs
      fits_def insert_fits_def)

lemma fits_mono:
  assumes "\<And>n cols. map_of T n = Some cols \<Longrightarrow> map_of U n = Some cols"
  shows "fits T s \<Longrightarrow> fits U s" "insert_fits T s \<Longrightarrow> insert_fits U s"
  using assms by (fastforce simp: fits_def insert_fits_def split: prod.splits option.splits)+

lemma schema_created: "map_of schema_tables n = Some cols \<Longrightarrow> CreateTable n cols \<in> set schema_ddl"
  by (drule map_of_SomeD) (auto simp: schema_tables_def tables_of_def split: ddl.splits)

lemma migrate_works:
  assumes "agrees schema_tables f"
  shows "\<exists>f'. migrate (\<lambda>_. None) f = (None, f') \<and> migrate (\<lambda>_. None) f' = (None, f') \<and>
    list_all (insert_fits (columns_in f')) insert_columns \<and>
    list_all (fits (columns_in f')) (update_columns @ select_columns)"
proof -
  obtain f' where f': "exec_all (\<lambda>_. None) 0 schema_ddl f = (None, f')" "agrees schema_tables f'"
    "\<forall>s \<in> set schema_ddl. exists_in f' s"
    using exec_all_works [OF schema_ordered _ assms, of 0] by auto
  have c: "map_of (columns_in f') n = Some cols" if "map_of schema_tables n = Some cols" for n cols
    using that f'(2,3) schema_created [OF that] by (fastforce simp: map_of_columns agrees_def)
  have "list_all (insert_fits (columns_in f')) insert_columns"
    "list_all (fits (columns_in f')) (update_columns @ select_columns)"
    using statements_fit_schema fits_mono [OF c] by (auto simp only: list_all_iff)
  then show ?thesis using f' exec_all_again [OF f'(3)] by (auto simp: migrate_def)
qed

text \<open>C39: Opening the database never touches a row: whatever fails, every table that the file has keeps
  its columns and rows and new tables are empty. When nothing fails and the tables that exist
  already have the schema's columns, opening succeeds, every statement of the store finds its table
  and columns and no INSERT leaves out a column that must be given, and opening again changes
  nothing.\<close>

theorem open_prepares_store:
  assumes "sql_open (dsn_of path) = Inr f"
  shows "\<exists>e f'. OpenSQLite sql_open ping fault path = (e, Some f') \<and> keeps f f' \<and>
    (ping = None \<and> fault = (\<lambda>_. None) \<and> agrees schema_tables f \<longrightarrow> e = None \<and>
      list_all (insert_fits (columns_in f')) insert_columns \<and>
      list_all (fits (columns_in f')) (update_columns @ select_columns) \<and>
      OpenSQLite (\<lambda>_. Inr f') None (\<lambda>_. None) path = (None, Some f'))"
proof (cases ping)
  case None
  obtain e f' where m: "migrate fault f = (e, f')" by fastforce
  then have "keeps f f'" by (simp add: migrate_def exec_all_keeps)
  then show ?thesis using None m assms migrate_works [of f]
    by (cases e) (auto simp: OpenSQLite_def)
qed (simp add: OpenSQLite_def assms)

theorem open_prepares_store_witness:
  "\<exists>f'. OpenSQLite (\<lambda>_. Inr \<lparr>sf_tables = [(''notes'', [(''text'', TEXT, Nullable)], [7 :: nat])], sf_indexes = []\<rparr>)
     None (\<lambda>_. None) ''teamx.db'' = (None, Some f') \<and>
   map_of (sf_tables f') ''notes'' = Some ([(''text'', TEXT, Nullable)], [7]) \<and>
   list_all (fits (columns_in f')) select_columns"
proof -
  let ?f = "\<lparr>sf_tables = [(''notes'', [(''text'', TEXT, Nullable)], [7 :: nat])], sf_indexes = []\<rparr>"
  have "map_of schema_tables ''notes'' = None"
    by (simp add: schema_tables_def tables_of_def schema_ddl_def terminals_ddl_def hardware_ddl_def
        phase6_ddl_def command_ddl_def)
  then have "agrees schema_tables ?f" by (auto simp: agrees_def split: if_splits)
  moreover obtain e f' where "OpenSQLite (\<lambda>_. Inr ?f) None (\<lambda>_. None) ''teamx.db'' = (e, Some f')" "keeps ?f f'"
    "agrees schema_tables ?f \<longrightarrow> e = None \<and> list_all (fits (columns_in f')) (update_columns @ select_columns)"
    using open_prepares_store [of "\<lambda>_. Inr ?f" "''teamx.db''" ?f None "\<lambda>_. None"] by blast
  moreover from this(2) have "map_of (sf_tables f') ''notes'' = Some ([(''text'', TEXT, Nullable)], [7])"
    by (rule keeps_Some) simp
  ultimately show ?thesis by auto
qed

text \<open>No column is ever added to a table that the file has: a statement that needs a column which the table
  lacks does not fit after opening either, although opening can succeed.\<close>

theorem old_tables_not_upgraded:
  assumes "sql_open (dsn_of path) = Inr f" "map_of (sf_tables f) n = Some (cols, rows)" "c \<notin> fst ` set cols"
    and "c \<in> set cs"
  shows "\<exists>e f'. OpenSQLite sql_open ping fault path = (e, Some f') \<and> \<not> fits (columns_in f') (n, cs)"
proof -
  have "\<exists>e f'. OpenSQLite sql_open ping fault path = (e, Some f') \<and> keeps f f'"
  proof (cases ping)
    case None
    obtain e f' where m: "migrate fault f = (e, f')" by fastforce
    then have "keeps f f'" by (simp add: migrate_def exec_all_keeps)
    then show ?thesis using None m assms(1) by (cases e) (auto simp: OpenSQLite_def)
  qed (simp add: OpenSQLite_def assms)
  then obtain e f' where o: "OpenSQLite sql_open ping fault path = (e, Some f')" "keeps f f'" by blast
  have "map_of (columns_in f') n = Some cols"
    using keeps_Some [OF o(2) assms(2)] by (simp add: map_of_columns)
  then have "\<not> fits (columns_in f') (n, cs)"
    using assms(3,4) by (auto simp: fits_def list_all_iff)
  with o(1) show ?thesis by blast
qed

theorem old_tables_not_upgraded_witness:
  "\<exists>f'. OpenSQLite (\<lambda>_. Inr \<lparr>sf_tables = [(''terminals'', [(''session_id'', TEXT, PrimaryKey), (''device_id'', TEXT, NotNull)],
      [7 :: nat])], sf_indexes = []\<rparr>) None (\<lambda>_. None) ''teamx.db'' = (None, Some f') \<and>
    \<not> fits (columns_in f') (''terminals'', [''session_id'', ''blocked''])"
proof -
  let ?f = "\<lparr>sf_tables = [(''terminals'', [(''session_id'', TEXT, PrimaryKey), (''device_id'', TEXT, NotNull)], [7 :: nat])],
    sf_indexes = []\<rparr>"
  have "fst (OpenSQLite (\<lambda>_. Inr ?f) None (\<lambda>_. None) ''teamx.db'') = None"
    by (simp add: OpenSQLite_def migrate_def schema_ddl_def terminals_ddl_def hardware_ddl_def phase6_ddl_def
        command_ddl_def)
  moreover have "\<exists>e f'. OpenSQLite (\<lambda>_. Inr ?f) None (\<lambda>_. None) ''teamx.db'' = (e, Some f') \<and>
      \<not> fits (columns_in f') (''terminals'', [''session_id'', ''blocked''])"
    by (rule old_tables_not_upgraded [where f = ?f and c = "''blocked''" and rows = "[7]" and
          cols = "[(''session_id'', TEXT, PrimaryKey), (''device_id'', TEXT, NotNull)]"]) auto
  ultimately show ?thesis by auto
qed

end
