(* ===== verification/ConnectClient.thy ===== *)
theory ConnectClient
  imports GatewayHttp
begin

text \<open>
  The generated Connect client (\<open>internal/proto/protoconnect/teamx.connect.go\<close>): one client per
  procedure, each characterised by the URL that it posts to, and the method calls that pick them.
\<close>

record teamXClient =
  tx_register :: string
  tx_channel :: string
  tx_transferFile :: string
  tx_listTerminals :: string
  tx_getTerminal :: string
  tx_getTerminalHistory :: string
  tx_disconnectTerminal :: string
  tx_blockTerminal :: string
  tx_unblockTerminal :: string
  tx_sendCommand :: string
  tx_getCommandLog :: string

definition NewTeamXClient :: "string \<Rightarrow> teamXClient" where
  "NewTeamXClient baseURL = (let base = trim_right [CHR ''/''] baseURL in
     \<lparr>tx_register = base @ procedure RpcRegister,
      tx_channel = base @ procedure RpcChannel,
      tx_transferFile = base @ procedure RpcTransferFile,
      tx_listTerminals = base @ procedure RpcListTerminals,
      tx_getTerminal = base @ procedure RpcGetTerminal,
      tx_getTerminalHistory = base @ procedure RpcGetTerminalHistory,
      tx_disconnectTerminal = base @ procedure RpcDisconnectTerminal,
      tx_blockTerminal = base @ procedure RpcBlockTerminal,
      tx_unblockTerminal = base @ procedure RpcUnblockTerminal,
      tx_sendCommand = base @ procedure RpcSendCommand,
      tx_getCommandLog = base @ procedure RpcGetCommandLog\<rparr>)"

text \<open>The URL of a method call.\<close>

fun call_url :: "teamXClient \<Rightarrow> rpc_request \<Rightarrow> string" where
  "call_url c (ReqRegister _) = tx_register c"
| "call_url c ReqChannel = tx_channel c"
| "call_url c ReqTransferFile = tx_transferFile c"
| "call_url c (ReqListTerminals _) = tx_listTerminals c"
| "call_url c (ReqGetTerminal _) = tx_getTerminal c"
| "call_url c (ReqGetTerminalHistory _) = tx_getTerminalHistory c"
| "call_url c (ReqDisconnectTerminal _) = tx_disconnectTerminal c"
| "call_url c (ReqBlockTerminal _) = tx_blockTerminal c"
| "call_url c (ReqUnblockTerminal _) = tx_unblockTerminal c"
| "call_url c (ReqSendCommand _) = tx_sendCommand c"
| "call_url c (ReqGetCommandLog _) = tx_getCommandLog c"

lemma call_url_new: "call_url (NewTeamXClient url) req = trim_right [CHR ''/''] url @ procedure (rpc_of req)"
  by (cases req) (simp_all add: NewTeamXClient_def Let_def)

lemma trim_slashes:
  assumes "origin \<noteq> [] \<longrightarrow> last origin \<noteq> CHR ''/''"
  shows "trim_right [CHR ''/''] (origin @ replicate n CHR ''/'') = origin"
  using assms by (cases origin rule: rev_cases) (simp_all add: trim_right_def dropWhile_append)

text \<open>C40: Client and gateway agree on every procedure: for a base URL that is an origin with any number
  of slashes behind it, the URL of a call is the origin followed by a path, and a POST to that path
  whose body the codec reads back is exactly the gateway's method on that request.\<close>

theorem client_calls_reach_gateway:
  assumes "origin \<noteq> [] \<longrightarrow> last origin \<noteq> CHR ''/''" "decode (rpc_of req) = Some req"
  shows "\<exists>path. call_url (NewTeamXClient (origin @ replicate n CHR ''/'')) req = origin @ path \<and>
    snd (gateway_handler cors backend ''POST'' path decode hs s) =
      (case gateway_method backend req s of (res, s') \<Rightarrow> (HttpRpc res, s'))"
  using assms(2)
  by (intro exI [of _ "procedure (rpc_of req)"])
    (simp add: call_url_new trim_slashes [OF assms(1)] gateway_handler_def corsMiddleware_def mux_procedure
      NewTeamXHandler_def split: prod.split)

theorem client_calls_reach_gateway_witness:
  "\<exists>path. call_url (NewTeamXClient ''http://gw:8080/'') (ReqUnblockTerminal ''dev'') = ''http://gw:8080'' @ path \<and>
     snd (gateway_handler ''*'' (\<lambda>req n. (Inr (RespAdmin \<lparr>ar_ok = True, ar_message = ''unblocked''\<rparr>), n + 1)) ''POST''
       path [RpcUnblockTerminal \<mapsto> ReqUnblockTerminal ''dev''] Map.empty (0 :: nat)) =
     (HttpRpc (Inr (RespAdmin \<lparr>ar_ok = True, ar_message = ''unblocked''\<rparr>)), 1)"
  using client_calls_reach_gateway [of "''http://gw:8080''" "[RpcUnblockTerminal \<mapsto> ReqUnblockTerminal ''dev'']"
      "ReqUnblockTerminal ''dev''" 1 "''*''"
      "\<lambda>req n. (Inr (RespAdmin \<lparr>ar_ok = True, ar_message = ''unblocked''\<rparr>), n + 1)" Map.empty "0 :: nat"]
  by (simp add: gateway_method_eq)

end
