(* ===== verification/Processes.thy ===== *)
theory Processes
  imports Flags Examples Client
begin

text \<open>
  The server and the agent as processes (\<open>cmd/server/main.go\<close>, \<open>cmd/client/main.go\<close>): their flags,
  how they start from them and with which status they end. The store, the listener and the
  outcome of \<open>Serve\<close> are arguments; a signal is an outcome of \<open>Serve\<close> without an error at the
  server and the cancellation of the context at the agent. What the processes log is left out, but
  for the text of a fatal error.
\<close>

section \<open>The server\<close>

definition server_flags :: "flag list" where
  "server_flags = [
     \<lparr>fg_name = ''port'', fg_default = FlagInt 50051, fg_usage = ''gRPC listen port''\<rparr>,
     \<lparr>fg_name = ''db'', fg_default = FlagString ''teamx.db'', fg_usage = ''SQLite database path''\<rparr>,
     \<lparr>fg_name = ''heartbeat-interval'', fg_default = FlagDuration (10 * second),
       fg_usage = ''How often to check heartbeat timeout''\<rparr>,
     \<lparr>fg_name = ''heartbeat-timeout'', fg_default = FlagDuration (30 * second),
       fg_usage = ''Heartbeat timeout before marking offline''\<rparr>,
     \<lparr>fg_name = ''max-connections'', fg_default = FlagInt 0,
       fg_usage = ''Maximum concurrent connections (0 = unlimited)''\<rparr>]"

text \<open>A tick of the heartbeat checker uses the timeout of the flag.\<close>

fun with_timeout :: "int64 \<Rightarrow> event \<Rightarrow> event" where
  "with_timeout t (EvTick now _ ids) = EvTick now (sint t) ids"
| "with_timeout t ev = ev"

text \<open>
  Status 1 and a text for a fatal error; \<open>os.Exit\<close> does not run the deferred \<open>Close\<close>. The goroutine
  of the heartbeat checker panics for an interval that is not positive, which ends the process with
  status 2, after whatever events come first. \<open>events\<close> is what happens at the server until then or
  until \<open>Serve\<close> returns.
\<close>

record server_end =
  xe_status :: int
  xe_fatal :: "string option"
  xe_server :: "server option"

definition server_process ::
  "flag_values \<Rightarrow> (string \<Rightarrow> string + db) \<Rightarrow> (string \<Rightarrow> string option) \<Rightarrow> event list \<Rightarrow> string option \<Rightarrow>
   server_end" where
  "server_process vs open_store listen events serve =
     (case open_store (get_string (vs ''db'')) of
        Inl e \<Rightarrow> \<lparr>xe_status = 1, xe_fatal = Some (''failed to open database: '' @ e), xe_server = None\<rparr>
      | Inr d \<Rightarrow>
          let addr = '':'' @ show_int (sint (get_int (vs ''port''))) in
          (case listen addr of
             Some e \<Rightarrow> \<lparr>xe_status = 1,
               xe_fatal = Some (''failed to listen on '' @ addr @ '': '' @ e), xe_server = None\<rparr>
           | None \<Rightarrow>
               let s = run_events (map (with_timeout (get_int (vs ''heartbeat-timeout''))) events)
                         (server_main (sint (get_int (vs ''max-connections''))) d) in
               if sint (get_int (vs ''heartbeat-interval'')) \<le> 0
               then \<lparr>xe_status = 2, xe_fatal = None, xe_server = Some s\<rparr>
               else (case serve of
                   Some e \<Rightarrow> \<lparr>xe_status = 1, xe_fatal = Some (''server exited: '' @ e), xe_server = Some s\<rparr>
                 | None \<Rightarrow> \<lparr>xe_status = 0, xe_fatal = None, xe_server = Some s\<rparr>)))"

section \<open>The agent\<close>

definition client_flags :: "flag list" where
  "client_flags = [
     \<lparr>fg_name = ''server'', fg_default = FlagString ''localhost:50051'',
       fg_usage = ''TeamX Server address (host:port)''\<rparr>,
     \<lparr>fg_name = ''heartbeat'', fg_default = FlagDuration (10 * second), fg_usage = ''Heartbeat interval''\<rparr>,
     \<lparr>fg_name = ''report-interval'', fg_default = FlagDuration (300 * second),
       fg_usage = ''Hardware report interval (0 = disabled)''\<rparr>,
     \<lparr>fg_name = ''reconnect-initial'', fg_default = FlagDuration (1 * second),
       fg_usage = ''Initial reconnect delay''\<rparr>,
     \<lparr>fg_name = ''reconnect-max'', fg_default = FlagDuration (60 * second),
       fg_usage = ''Maximum reconnect delay''\<rparr>,
     \<lparr>fg_name = ''version'', fg_default = FlagString ''0.2.0'', fg_usage = ''Client version string''\<rparr>]"

definition client_config :: "flag_values \<Rightarrow> Config" where
  "client_config vs = \<lparr>cf_server_addr = get_string (vs ''server''), cf_heartbeat = get_int (vs ''heartbeat''),
     cf_report = get_int (vs ''report-interval''), cf_reconnect_initial = get_int (vs ''reconnect-initial''),
     cf_reconnect_max = get_int (vs ''reconnect-max''), cf_version = get_string (vs ''version'')\<rparr>"

text \<open>
  The exit status is 1 for an error other than the cancelled context (which a signal causes), 2
  for a panic, and none while running.
\<close>

definition exit_status :: "outcome \<Rightarrow> int option" where
  "exit_status r = (case r of
      Returned None \<Rightarrow> Some 0
    | Returned (Some e) \<Rightarrow> Some (if e = context_canceled then 0 else 1)
    | Exited \<Rightarrow> Some 0
    | Crashed _ \<Rightarrow> Some 2
    | Running \<Rightarrow> None)"

definition client_main ::
  "flag_values \<Rightarrow> (hardware_info \<Rightarrow> string option) \<Rightarrow> host \<Rightarrow> cycle list \<Rightarrow> int option" where
  "client_main vs marshal h cycles = exit_status (fst (Run cycles (NewClient (client_config vs) marshal h)))"

section \<open>What they show\<close>

text \<open>The flags of the agent and \<open>DefaultConfig\<close> are written down separately; they agree.\<close>

theorem client_defaults:
  "client_config (flag_values_of client_flags []) = DefaultConfig"
  by (simp add: client_config_def flag_values_of_def client_flags_def DefaultConfig_def)

text \<open>A process that has opened its store and its port ends in a state that a server with the limit of
  the flag can reach from the store's contents; a negative or zero flag is no limit.\<close>

theorem server_process_reachable:
  assumes "open_store (get_string (vs ''db'')) = Inr d"
    and "listen ('':'' @ show_int (sint (get_int (vs ''port'')))) = None"
    and "allowed_run (map (with_timeout (get_int (vs ''heartbeat-timeout''))) events)
      (server_main (sint (get_int (vs ''max-connections''))) d)"
  shows "\<exists>s. xe_server (server_process vs open_store listen events serve) = Some s \<and>
    reachable (max (sint (get_int (vs ''max-connections''))) 0) d s \<and>
    (xe_status (server_process vs open_store listen events serve) = 0 \<longleftrightarrow>
      0 < sint (get_int (vs ''heartbeat-interval'')) \<and> serve = None)"
proof -
  let ?m = "sint (get_int (vs ''max-connections''))"
  let ?s = "run_events (map (with_timeout (get_int (vs ''heartbeat-timeout''))) events) (server_main ?m d)"
  have "reachable (max ?m 0) d ?s"
    using reachable_steps [OF server_main_reachable allowed_run_steps [OF assms(3)]] .
  then show ?thesis using assms(1,2)
    by (auto simp: server_process_def Let_def not_le split: option.split)
qed

theorem server_process_reachable_witness:
  "\<exists>s. xe_server (server_process (flag_values_of server_flags []) (\<lambda>_. Inr (empty_db reference_engine []))
     (\<lambda>_. None) [EvAdmit demo_hello] None) = Some s \<and> reachable 0 (empty_db reference_engine []) s"
proof -
  have "get_int (flag_values_of server_flags [] ''max-connections'') = 0"
    by (simp add: flag_values_of_def server_flags_def)
  then show ?thesis
    using server_process_reachable [of "\<lambda>_. Inr (empty_db reference_engine [])" "flag_values_of server_flags []"
        "empty_db reference_engine []" "\<lambda>_. None" "[EvAdmit demo_hello]" None] by auto
qed

end
