(* ===== verification/Spec2Isabelle.thy ===== *)
theory Spec2Isabelle
  imports ServerSpec InterleavingSpec ClientSpec AdminRun Network StoreOpen ConnectClient Processes
begin

text \<open>
  TeamX manages terminals: an agent runs on every machine, registers at a central server, keeps one
  stream open, sends heartbeats and hardware reports over it and executes commands; administrators
  use a command line tool or a gateway that offers the server's RPCs and a WebSocket feed to
  browsers. This library models the three programs and proves what they do.

  \<^bold>\<open>The programs and their theories.\<close>

  \<^item> Ground: \<open>Prelude\<close> (strings as byte lists, slices with their panics, word types, the \<open>codec\<close>
    contract), \<open>Utf8\<close>, \<open>GoStrings\<close>, \<open>Float64\<close>, \<open>Sha256\<close>, \<open>Rfc3339\<close> (what the code uses of Go's
    standard library), \<open>Proto\<close> (the messages of \<open>internal/proto/teamx.pb.go\<close>).
  \<^item> Store, \<open>internal/server/store\<close>: \<open>Sql\<close> (the engine and its contracts), \<open>Schema\<close> (tables, the
    record \<open>db\<close>, failing statements), \<open>Json\<close> (the hand-written JSON code), \<open>TerminalStore\<close>,
    \<open>CommandStore\<close>, \<open>HardwareStore\<close> (one theory per Go file, one definition per method), \<open>StoreOpen\<close>
    (opening and migrating a file, and the columns that the statements name).
  \<^item> Server, \<open>internal/server\<close> and \<open>cmd/server\<close>: \<open>Connection\<close> (the registry of connection.go),
    \<open>CommandFlow\<close> (command.go), \<open>Server\<close> (server.go and the transition system). Lemmas:
    \<open>ServerRuns\<close>, \<open>Lifecycle\<close>, \<open>Admission\<close>, \<open>Blocklist\<close>; a concrete run: \<open>Examples\<close>; properties:
    \<open>ServerSpec\<close>. \<open>Interleaving\<close> is the same server with its calls taken apart,
    \<open>InterleavingRuns\<close> says what outlasts its steps, and \<open>InterleavingSpec\<close> holds its properties.
  \<^item> Agent, \<open>internal/client\<close> and \<open>cmd/client\<close>: \<open>Host\<close> (the machine), \<open>Fingerprint\<close>
    (fingerprint*.go, sysinfo*.go), \<open>Collector\<close> (the collector package), \<open>Agent\<close> (executor.go and
    the client's state), \<open>Client\<close> (client.go, report.go). Lemmas: \<open>ClientRuns\<close>; properties:
    \<open>ClientSpec\<close>.
  \<^item> Administration, \<open>cmd/admin\<close>: \<open>AdminCli\<close> (the bodies of commands.go, output.go), \<open>Gateway\<close>
    (gateway.go), \<open>GatewayHttp\<close> (the routes of the generated Connect handler, serve.go),
    \<open>ConnectClient\<close> (the generated Connect client), \<open>AdminMain\<close> (the declarations of the
    subcommands, the root command and the process); properties: \<open>AdminSpec\<close>, and \<open>AdminRun\<close> for
    the tool against the model of the server.
  \<^item> \<open>Tools\<close>: the inspection tools under \<open>tools\<close>.
  \<^item> Processes: \<open>Flags\<close> (the flags that the programs declare), \<open>Processes\<close> (the \<open>main\<close> functions of
    \<open>cmd/server\<close> and \<open>cmd/client\<close>).
  \<^item> Composition: \<open>Network\<close> (agent and server joined by the messages of a stream), and the properties
    of this theory, which span the programs.

  \<^bold>\<open>State and interleaving.\<close> The server's state is the record \<open>server\<close>: the registry, the database,
  the registrations between check and insertion, the open \<open>Channel\<close> handlers, the running timeout
  watchers, and two logs of what was sent that no code reads. It is run at two grains. In \<open>Server\<close> a
  call is one event, except where a property speaks of the gap: between the checks and the insertion
  of \<open>Register\<close>, between the consumer's send and its mark, and between the end of a handler's loop
  and its cleanup. \<open>event\<close> lists the events, \<open>exec_event\<close> performs one, \<open>allowed\<close> states what the
  environment guarantees (new UUIDs are new, a map iteration visits every key once), and \<open>reachable\<close>
  closes the start state under them. In \<open>Interleaving\<close> a critical section, a store call or a send is
  one step (\<open>micro\<close>), what a call has still to do is a \<open>task\<close>, and steps of different calls come in
  any order that the lock and the receive loops allow (\<open>enabled\<close>, \<open>interleaved\<close>). The
  properties that speak of all runs (C1, C2, C8, C9, C10, C12, C22) are stated over the fine grain;
  every run of events is one of its runs. The functional properties of
  the calls are stated over the operations themselves, as they run when no other call comes between
  their steps. The agent's session is
  likewise run by a list of turns of its three goroutines (\<open>sess_event\<close>, \<open>session_step\<close>); the heartbeat
  and the report goroutine can be between taking a number and sending. The gateway's hub is run by a list of
  ticks, openings and closings of connections (\<open>hub_event\<close>).

  \<^bold>\<open>Inputs.\<close> Clocks, UUIDs, random numbers, the order of map iterations and the answers of other
  machines are arguments of the operations, so a property holds for all of them. Loops without an
  end are run over a list of inputs (\<open>run_events\<close>, \<open>Run\<close> over cycles, \<open>pollLoop\<close>): the list is
  what the environment does, not fuel, and every step of it is executed; \<open>Running\<close> says that the
  agent is still going when the list ends. No other loop is bounded.

  \<^bold>\<open>Parameters.\<close> The SQL engine is a record (\<open>sql_engine\<close>): the order in which it delivers rows with
  equal keys, how it binds arguments, and, in the database, a list of verdicts that makes any
  statement fail. \<open>desc_sorter\<close> and \<open>row_scanner\<close> state its documented behaviour (ORDER BY sorts
  and keeps the rows; a query without ORDER BY delivers each row once); \<open>reference_engine\<close> meets
  them. \<open>no_faults\<close> says that no statement fails; properties without it hold for every engine.
  \<open>proto.Marshal\<close>, the script runner, the Connect codec and the transport are arguments too, and so is
  cobra: \<open>cobra_ok\<close> states what it documents (it runs a declared subcommand, with arguments that the
  subcommand's rule accepts, and a flag that is not named has its default); \<open>plain_cobra\<close> meets it
  on the command lines of the witnesses.

  \<^bold>\<open>What the lemmas show.\<close> \<open>Sql\<close> to \<open>HardwareStore\<close>: the tables stay well formed under every
  operation, a failing statement changes nothing, transactions are atomic, rows are read back as
  written. \<open>Connection\<close>: the queue is a bounded FIFO (\<open>fifo_queue\<close>), an update of an entry touches no other
  (\<open>registry\<close>). \<open>ServerRuns\<close>, \<open>Lifecycle\<close>, \<open>Admission\<close>, \<open>Blocklist\<close>: invariants of all runs of events. \<open>Interleaving\<close>: one step keeps
  the invariants, and every event is a sequence of steps. \<open>InterleavingRuns\<close>: closed channels stay closed,
  a full server full, a block in force. \<open>CommandStore\<close>
  relates the command log to an abstract map from ids to statuses, \<open>TerminalStore\<close> the blocked
  column to a set of devices (\<open>blocklist\<close>). \<open>ClientRuns\<close>: how sessions end, what a dispatch
  reports, numbering, back-off in binary64 arithmetic. \<open>ClientRuns\<close> also shows that a cancelled
  session ends under every schedule that lets its goroutines run. The properties C1 to C40 are the theorems
  whose preceding text carries their number; further theorems state behaviour that is
  surprising and small.

  \<^bold>\<open>Not modelled.\<close> Logging and the texts of third-party errors; the wire formats of protobuf, gRPC
  and WebSocket; what the engine does with the parameters of its connection string; how the texts
  of flags are read; listening and signals, whose outcomes are arguments; help texts as they are
  printed; \<open>TransferFile\<close> beyond its
  refusal, which is all there is; the generated gRPC stubs; the scripts under \<open>scripts\<close>; the web
  pages under \<open>web\<close>.
  Data races on one stream are outside the model: two goroutines that send on one stream at the
  same time are two sends in either order.
\<close>

section \<open>Agent and server together\<close>


text \<open>C3: A command reaches a final status. Sent to an online agent whose queue is empty, over an open stream
  and a working store, it is delivered unchanged by one round of the consumer; whatever the command is and
  whatever happens on the agent's machine, the messages that the agent's dispatch puts on its stream,
  delivered in order, leave the command Completed or Failed, and the timeout watcher that was started
  for it finds nothing left to do.\<close>

theorem command_runs_to_completion:
  fixes now unix later :: nat and env :: cmd_env
  assumes "no_faults (sv_db s)" "db_wf (sv_db s)" "uuid \<notin> c_command ` set (commands (sv_db s))"
    and "sc_device_id req \<noteq> []" "sc_type req \<noteq> ct_unspecified"
    and "fst (GetTerminalByDevice (sc_device_id req) (sv_db s)) = Inr t"
    and "Get (tm_session t) (sv_cm s) = Some c" "cc_online c" "cc_queue c = []"
    and "map_of (sv_chans s) st = Some \<lparr>ch_session = tm_session t, ch_unmarked = None, ch_result = None\<rparr>"
    and "stream_works a" "se_in_recv a"
  defines "s1 \<equiv> commandConsumer st True (snd (SendCommand uuid now unix req s))"
  defines "a1 \<equiv> session_step (RecvReturn env (GotMessage (snd (last (sv_out s1))))) a"
  assumes "map (snd \<circ> snd) arr = drop (length (wr_sent (se_wire a))) (wr_sent (se_wire a1))"
  defines "s2 \<equiv> run_events (arrivals st arr) s1"
  shows "sv_out s1 = sv_out s @ [(st, command_message (build_command uuid req unix))] \<and>
    (\<exists>final \<in> {''Completed'', ''Failed''}. statuses (sv_db s2) = (statuses (sv_db s))(uuid \<mapsto> final) \<and>
       statuses (sv_db (watchCommandTimeout later uuid s2)) = statuses (sv_db s2))"
proof -
  let ?cmd = "build_command uuid req unix" and ?ch = "\<lparr>ch_session = tm_session t, ch_unmarked = None, ch_result = None\<rparr>"
  have k: "cd_id ?cmd = uuid" by (simp add: build_command_def)
  have cap: "length (cc_queue c) < cmdQueueCapacity" using assms(9) by (simp add: cmdQueueCapacity_def)
  obtain d where d: "snd (SendCommand uuid now unix req s) = s\<lparr>sv_db := d,
      sv_cm := upd_conn (tm_session t) (\<lambda>x. x\<lparr>cc_queue := cc_queue c @ [?cmd]\<rparr>) (sv_cm s),
      sv_log := sv_log s @ [LogQueued (tm_session t) ?cmd]\<rparr>"
    "no_faults d" "db_wf d" "statuses d = (statuses (sv_db s))(uuid \<mapsto> ''Pending'')"
    using send_exact [OF assms(1-8) cap] by blast
  let ?s0 = "snd (SendCommand uuid now unix req s)"
  have q: "no_faults (sv_db ?s0)" "db_wf (sv_db ?s0)" "map_of (sv_chans ?s0) st = Some ?ch"
    "Get (tm_session t) (sv_cm ?s0) = Some (c\<lparr>cc_queue := [?cmd]\<rparr>)" "sv_out ?s0 = sv_out s"
    "cc_queue (c\<lparr>cc_queue := [?cmd]\<rparr>) = [?cmd]"
    using d(2,3) assms(7,9,10) by (simp_all add: d(1) Get_upd_conn)
  note round = consumer_round [OF q(1-4,6), folded s1_def]
  have st1: "statuses (sv_db s1) = (statuses (sv_db s))(uuid \<mapsto> ''Sent'')"
    using round(2) d(4) by (simp add: k d(1) set_status_def)
  have out: "sv_out s1 = sv_out s @ [(st, command_message ?cmd)]" using round(3) q(5) by simp
  let ?a0 = "a\<lparr>se_in_recv := False\<rparr>"
  have a1: "a1 = dispatchCommand env ?cmd ?a0"
    using assms(12) by (simp add: a1_def out recv_message_def command_message_def)
  have w: "stream_works ?a0" "wr_sent (se_wire ?a0) = wr_sent (se_wire a)"
    using assms(11) by (simp_all add: stream_works_def)
  obtain ms where ms: "wr_sent (se_wire a1) = wr_sent (se_wire a) @ ms"
    using dispatch_appends [of ?a0 env ?cmd] w(2) by (auto simp: a1 appends_def)
  obtain first final where f: "sent_results (dispatchCommand env ?cmd ?a0) = sent_results ?a0 @ [first, final]"
    "cr_id first = cd_id ?cmd" "final_result (cd_id ?cmd) final"
    using dispatch_reports [OF w(1), of env ?cmd] by force
  have "results_of (wr_sent (se_wire a)) @ results_of ms = results_of (wr_sent (se_wire a)) @ [first, final]"
    using f(1) ms w(2) by (simp only: sent_results_def a1 [symmetric] results_of_append)
  then have r: "results_of ms = [first, final]" "cr_id first = uuid" "cr_id final = uuid"
    "cr_status final \<in> {''Completed'', ''Failed''}"
    using f(2,3) unfolding k final_result_def by simp_all blast
  have "map (snd \<circ> snd) arr = ms" using assms(15) ms by simp
  with arrivals_statuses [OF round(1), of arr]
  have s2: "serving st ?ch s2" "statuses (sv_db s2) = (statuses (sv_db s))(uuid \<mapsto> cr_status final)"
    "sv_timers s2 = sv_timers s1"
    using r by (simp_all add: s2_def st1 set_status_def)
  have "statuses (sv_db (watchCommandTimeout later uuid s2)) = time_out uuid (statuses (sv_db s2))"
    by (rule statuses_watch) (use s2 round(4) k in \<open>simp_all add: serving_def\<close>)
  then show ?thesis using out s2(2) r(4)
    by (intro conjI bexI [of _ "cr_status final"]) (auto simp: time_out_def open_statuses_def)
qed


text \<open>C12: Once the server is full it stays useless for new agents: every attempt of an agent, whatever steps
  of whatever calls come before it, fails with ResourceExhausted, which is not fatal for the agent, so that it retries for ever,
  with one sleep between any two attempts.\<close>

theorem full_server_keeps_agents_out:
  assumes "interleaved (start_server (SetMaxConns m NewConnectionManager) d, []) (s, ts)" "db_wf d"
    and "IsFull (sv_cm s)" "\<forall>cy \<in> set cys. \<exists>u us. interleaved (s, ts) (u, us) \<and> attempts cy u"
    and "still_running c"
  shows "\<exists>delays e. Run cys c = (Running, delays, e) \<and> length delays = length cys - 1"
proof -
  have "\<forall>cy \<in> set cys. \<exists>u. attempts cy u \<and> IsFull (sv_cm u)"
    using assms(3,4) interleaved_full [of "(s, ts)"] interleaved_server_ok(1) [OF assms(1,2)] by (metis fst_conv)
  from full_failing [OF this assms(5)] obtain e where e: "failing cys c = Some e" ..
  from failing_run [OF e, of 0 "[]"] have "Run cys c = (Running, retry_delays (cl_cfg c) 0 cys, e)"
    by (simp add: Run_def)
  then show ?thesis by (simp add: retry_delays_0)
qed




theorem command_runs_to_completion_witness:
  "\<exists>arr final. final \<in> {''Completed'', ''Failed''} \<and>
     statuses (sv_db (run_events (arrivals 1 arr)
       (commandConsumer 1 True (snd (SendCommand ''c1'' 101 101 demo_request demo_open))))) ''c1'' = Some final"
proof -
  have db: "no_faults (sv_db demo_open)" "db_wf (sv_db demo_open)" "commands (sv_db demo_open) = []"
    using reachable_ok [OF demo_reachable(2)]
    by (simp_all add: server_ok_def) (simp_all add: demo_open_eq no_faults_def demo_db_def empty_db_def)
  have g: "fst (GetTerminalByDevice ''dev'' (sv_db demo_open)) = Inr (scanTerminal demo_row)"
    by (simp add: demo_open_eq demo_device)
  have r: "sc_device_id demo_request = ''dev''" "sc_type demo_request \<noteq> ct_unspecified"
    by (simp_all add: demo_request_def ct_defs)
  have t: "tm_session (scanTerminal demo_row) = ''s1''" by (simp add: scanTerminal_def demo_row_def)
  have c: "Get ''s1'' (sv_cm demo_open) =
      Some (demo_conn\<lparr>cc_stream := Some 1, cc_online := True, cc_last_heartbeat := 6\<rparr>)"
    "cc_queue demo_conn = []"
    by (simp_all add: demo_open_eq Get_def demo_conn_def new_conn_def)
  have ch: "map_of (sv_chans demo_open) 1 = Some \<lparr>ch_session = ''s1'', ch_unmarked = None, ch_result = None\<rparr>"
    by (simp add: demo_open_eq)
  have a: "stream_works (demo_session\<lparr>se_in_recv := True\<rparr>)"
    by (simp add: demo_session_def start_session_def stream_works_def)
  let ?s1 = "commandConsumer 1 True (snd (SendCommand ''c1'' 101 101 demo_request demo_open))"
  let ?a = "demo_session\<lparr>se_in_recv := True\<rparr>"
  let ?ms = "drop (length (wr_sent (se_wire ?a))) (wr_sent (se_wire (session_step
    (RecvReturn demo_env (GotMessage (snd (last (sv_out ?s1))))) ?a)))"
  have m: "map (snd \<circ> snd) (map (\<lambda>m. (0 :: nat, 0 :: int, m)) ?ms) = ?ms" by (simp add: o_def)
  have "\<exists>final \<in> {''Completed'', ''Failed''}.
      statuses (sv_db (run_events (arrivals 1 (map (\<lambda>m. (0, 0, m)) ?ms)) ?s1)) =
        (statuses (sv_db demo_open))(''c1'' \<mapsto> final) \<and>
      statuses (sv_db (watchCommandTimeout 500 ''c1''
        (run_events (arrivals 1 (map (\<lambda>m. (0, 0, m)) ?ms)) ?s1))) =
      statuses (sv_db (run_events (arrivals 1 (map (\<lambda>m. (0, 0, m)) ?ms)) ?s1))"
    by (rule command_runs_to_completion [where t = "scanTerminal demo_row" and
        c = "demo_conn\<lparr>cc_stream := Some 1, cc_online := True, cc_last_heartbeat := 6\<rparr>", OF db(1,2) _ _ _ _ _ _ _ _ a _ m, THEN conjunct2])
      (use g c ch in \<open>simp_all add: db r t\<close>)
  then obtain final where "final \<in> {''Completed'', ''Failed''}"
    "statuses (sv_db (run_events (arrivals 1 (map (\<lambda>m. (0, 0, m)) ?ms)) ?s1)) =
        (statuses (sv_db demo_open))(''c1'' \<mapsto> final)" by blast
  then show ?thesis by (intro exI [of _ "map (\<lambda>m. (0, 0, m)) ?ms"] exI [of _ final] conjI) simp_all
qed


theorem full_server_keeps_agents_out_witness:
  "let cy = \<lparr>cy_cancel = NoCancel, cy_rand = 0, cy_connect =
       (demo_connect [])\<lparr>cn_register := register_at demo_open ''s2'' 200 9 ''t''\<rparr>\<rparr>
   in \<exists>delays e. Run [cy, cy, cy] demo_agent = (Running, delays, e) \<and> length delays = 2"
proof -
  let ?cy = "\<lparr>cy_cancel = NoCancel, cy_rand = 0, cy_connect =
       (demo_connect [])\<lparr>cn_register := register_at demo_open ''s2'' 200 9 ''t''\<rparr>\<rparr>"
  have "IsFull (sv_cm demo_open)" by (simp add: demo_open_eq IsFull_def Count_def)
  moreover have "attempts ?cy demo_open" by (auto simp: attempts_def demo_connect_def)
  then have "\<forall>cy \<in> set [?cy, ?cy, ?cy]. \<exists>u us. interleaved (demo_open, []) (u, us) \<and> attempts cy u"
    using interleaved.stay by auto
  moreover have "still_running demo_agent" by (simp add: still_running_def demo_agent_def NewClient_def)
  ultimately have "\<exists>delays e. Run [?cy, ?cy, ?cy] demo_agent = (Running, delays, e) \<and>
      length delays = length [?cy, ?cy, ?cy] - 1"
    by (rule full_server_keeps_agents_out [OF reachable_interleaved [OF demo_reachable(2)] demo_db_wf])
  then show ?thesis by (simp add: Let_def numeral_2_eq_2)
qed

lemma poll_snapshot: "hu_last (snd (poll bcast now keys ok order (Some ts) h)) = snapshot_of ts"
  by (simp add: poll_def broadcast_def Let_def broadcast_loop_conns)

text \<open>C24: The gateway polls the first page only: ListTerminals answers its empty request with the 50 terminals
  that were seen last, so a session beyond these is never reported by a poll and is forgotten by the
  snapshot, although the answer counts all terminals.\<close>

theorem gateway_polls_first_fifty:
  assumes "no_faults (sv_db s)" "desc_sorter (eng_order (db_engine (sv_db s)))"
  defines "ts \<equiv> map terminal_summary_of (listing None (sv_db s))"
  shows "\<exists>resp. server_ListTerminals \<lparr>lt_online_filter = None, lt_page_size = 0, lt_page = 0\<rparr> s = (Inr resp, s) \<and>
    lr_terminals resp = take 50 ts \<and> lr_total_count resp = of_nat (length ts) \<and>
    (\<forall>sid h. sid \<notin> ts_session_id ` set (take 50 ts) \<longrightarrow>
       (\<forall>e \<in> set (poll_events now keys (lr_terminals resp) h). we_session_id e \<noteq> sid) \<and>
       hu_last (snd (poll bcast now keys ok order (Some (lr_terminals resp)) h)) sid = None)"
proof -
  have "server_ListTerminals \<lparr>lt_online_filter = None, lt_page_size = 0, lt_page = 0\<rparr> s =
      (Inr \<lparr>lr_terminals = take 50 ts, lr_total_count = of_nat (length ts)\<rparr>, s)"
    using list_page [OF assms(1,2), of 0 0 None] by (simp add: ts_def take_map)
  moreover have "snapshot_of (take 50 ts) sid = None" if "sid \<notin> ts_session_id ` set (take 50 ts)" for sid
    using that by (metis dom_snapshot domIff)
  ultimately show ?thesis
    by (auto simp: poll_snapshot poll_events_def set_map_filter change_event_Some)
qed

theorem gateway_polls_first_fifty_witness:
  "\<exists>resp. server_ListTerminals \<lparr>lt_online_filter = None, lt_page_size = 0, lt_page = 0\<rparr> demo_open = (Inr resp, demo_open) \<and>
     lr_total_count resp = 1 \<and>
     hu_last (snd (poll True ''now'' [''s1''] (\<lambda>_ _. True) [1] (Some (lr_terminals resp)) newWSHub)) ''zz'' = None"
proof -
  have f: "no_faults (sv_db demo_open)" "desc_sorter (eng_order (db_engine (sv_db demo_open)))"
    by (simp_all add: demo_open_eq demo_db_def empty_db_def no_faults_def reference.desc_sorter_axioms)
  have "map terminal_summary_of (listing None (sv_db demo_open)) = [terminal_summary_of (scanTerminal demo_row)]"
    by (simp add: demo_open_eq listing_single)
  moreover have "ts_session_id (terminal_summary_of (scanTerminal demo_row)) = ''s1''"
    by (simp add: terminal_summary_of_def scanTerminal_def demo_row_def)
  ultimately show ?thesis
    using gateway_polls_first_fifty [OF f, where keys = "[''s1'']" and now = "''now''"
        and bcast = True and order = "[1]" and ok = "\<lambda>_ _. True"] by fastforce
qed

end
